(* ===== verification/Prelude.thy ===== *)
theory Prelude
  imports Main "HOL-Library.Word"
begin

text \<open>
  Shared material of the Bifferboard emulator development: the machine integer types of the
  C sources, bit-mask facts for the word registers of the devices, byte memories with
  little-endian loads and stores (the C casts between \<^verbatim>\<open>uint8_t*\<close> and wider pointers on a
  little-endian host, and \<^verbatim>\<open>memcpy\<close>/\<^verbatim>\<open>memset\<close> on arrays), and the interface of a device as a
  step function with an invariant.
\<close>

unbundle bit_operations_syntax

section \<open>Machine integers\<close>

type_synonym u8 = "8 word"
type_synonym u16 = "16 word"
type_synonym u32 = "32 word"
type_synonym u64 = "64 word"

named_theorems masks \<open>single-bit mask tests as bit tests\<close>
named_theorems dev_inv \<open>preservation of device invariants by the operations\<close>

text \<open>
  The C test \<^verbatim>\<open>(x & (1 << n))\<close>.  The sources write most masks as hexadecimal numerals; the
  collection \<open>masks\<close> rewrites such tests to the bit they look at.
\<close>

lemma and_numeral_exp_eq_0:
  fixes w :: "'a::len word"
  shows "w AND 2 ^ n = 0 \<longleftrightarrow> \<not> bit w n"
  by (simp add: and_exp_eq_0_iff_not_bit)

lemma and_bit_eq_0 [masks]:
  fixes w :: "'a::len word"
  shows "w AND 1 = 0 \<longleftrightarrow> \<not> bit w 0"
    "w AND 2 = 0 \<longleftrightarrow> \<not> bit w 1"
    "w AND 4 = 0 \<longleftrightarrow> \<not> bit w 2"
    "w AND 8 = 0 \<longleftrightarrow> \<not> bit w 3"
    "w AND 0x10 = 0 \<longleftrightarrow> \<not> bit w 4"
    "w AND 0x20 = 0 \<longleftrightarrow> \<not> bit w 5"
    "w AND 0x40 = 0 \<longleftrightarrow> \<not> bit w 6"
    "w AND 0x80 = 0 \<longleftrightarrow> \<not> bit w 7"
    "w AND 0x1000 = 0 \<longleftrightarrow> \<not> bit w 12"
    "w AND 0x2000 = 0 \<longleftrightarrow> \<not> bit w 13"
    "w AND 0x4000 = 0 \<longleftrightarrow> \<not> bit w 14"
    "w AND 0x8000 = 0 \<longleftrightarrow> \<not> bit w 15"
  using and_numeral_exp_eq_0 [of w 0] and_numeral_exp_eq_0 [of w 1]
    and_numeral_exp_eq_0 [of w 2] and_numeral_exp_eq_0 [of w 3]
    and_numeral_exp_eq_0 [of w 4] and_numeral_exp_eq_0 [of w 5]
    and_numeral_exp_eq_0 [of w 6] and_numeral_exp_eq_0 [of w 7]
    and_numeral_exp_eq_0 [of w 12] and_numeral_exp_eq_0 [of w 13]
    and_numeral_exp_eq_0 [of w 14] and_numeral_exp_eq_0 [of w 15]
  by simp_all

text \<open>Writing \<^verbatim>\<open>1 << n\<close> and the two single-bit updates of the sources.\<close>

definition BIT :: "nat \<Rightarrow> 'a::len word" where
  "BIT n = push_bit n 1"

lemma bit_BIT [simp]:
  "bit (BIT k :: 'a::len word) n \<longleftrightarrow> n = k \<and> n < LENGTH('a)"
  by (auto simp: BIT_def bit_simps)

lemma and_BIT_eq_0 [simp]:
  fixes w :: "'a::len word"
  shows "w AND BIT k = 0 \<longleftrightarrow> \<not> bit w k"
  by (simp add: BIT_def push_bit_of_1 and_exp_eq_0_iff_not_bit)

lemma bit_or_BIT [simp]:
  fixes w :: "'a::len word"
  shows "bit (w OR BIT k) n \<longleftrightarrow> bit w n \<or> n = k \<and> n < LENGTH('a)"
  by (simp add: bit_or_iff)

lemma bit_and_not_BIT [simp]:
  fixes w :: "'a::len word"
  shows "bit (w AND NOT (BIT k)) n \<longleftrightarrow> bit w n \<and> n \<noteq> k"
  using bit_imp_le_length [of w n]
  by (auto simp: bit_and_iff bit_not_iff possible_bit_word)

lemma word_eq_0_iff_bit:
  fixes w :: "'a::len word"
  shows "w = 0 \<longleftrightarrow> (\<forall>n<LENGTH('a). \<not> bit w n)"
  by (auto intro: bit_word_eqI)

text \<open>Values and conversions.\<close>

lemma unat_less: "unat (w :: 'a::len word) < 2 ^ LENGTH('a)"
  by (rule unsigned_less)

lemma unat_ucast_up:
  "LENGTH('a) \<le> LENGTH('b) \<Longrightarrow> unat (ucast (w :: 'a::len word) :: 'b::len word) = unat w"
  using unat_less [of w] order_less_le_trans [of "unat w" "2 ^ LENGTH('a)" "2 ^ LENGTH('b)"]
  by (simp add: unsigned_ucast_eq take_bit_eq_mod)

lemma unat_ucast_small:
  "unat (w :: 'a::len word) < 2 ^ LENGTH('b) \<Longrightarrow> unat (ucast w :: 'b::len word) = unat w"
  by (simp add: unsigned_ucast_eq take_bit_eq_mod)

lemma unat_of_nat_small:
  "n < 2 ^ LENGTH('a) \<Longrightarrow> unat (of_nat n :: 'a::len word) = n"
  by (simp add: unat_of_nat)

text \<open>Masking with a numeral bounds the value.\<close>

lemma unat_and_le:
  fixes w m :: "'a::len word"
  shows "unat (w AND m) \<le> unat m"
  by (rule word_and_le1 [THEN word_le_nat_alt [THEN iffD1]])

lemma not_bit_small:
  assumes "unat (x :: 'a :: len word) < 2 ^ n" and "n \<le> k"
  shows "\<not> bit x k"
proof -
  have "unat x < 2 ^ k" using assms by (meson less_le_trans one_le_numeral power_increasing)
  then have "\<not> bit (unat x) k" by (simp add: bit_nat_def bit_iff_odd)
  then show ?thesis by (auto simp: bit_unsigned_iff dest: bit_imp_le_length)
qed

lemma unat_and_mask:
  fixes w :: "'a::len word"
  shows "unat (w AND mask n) = unat w mod 2 ^ n"
  by (simp only: take_bit_eq_mask [symmetric] unsigned_take_bit_eq) (rule take_bit_eq_mod)

lemma unat_and_not_mask:
  fixes w :: "'a::len word"
  shows "unat (w AND NOT (mask n)) = unat w div 2 ^ n * 2 ^ n"
proof -
  have "unat (w AND NOT (mask n)) = push_bit n (drop_bit n (unat w))"
    by (rule bit_eqI) (auto simp: bit_simps not_less dest: bit_imp_le_length)
  then show ?thesis by (simp add: push_bit_eq_mult drop_bit_eq_div)
qed

section \<open>Little-endian bytes\<close>

text \<open>
  \<open>to_le n w\<close> is the memory image of the low \<open>n\<close> bytes of \<open>w\<close> on a little-endian host,
  \<open>of_le\<close> reads such an image back.
\<close>

primrec to_le :: "nat \<Rightarrow> 'a::len word \<Rightarrow> u8 list" where
  "to_le 0 w = []"
| "to_le (Suc n) w = ucast w # to_le n (drop_bit 8 w)"

primrec of_le :: "u8 list \<Rightarrow> 'a::len word" where
  "of_le [] = 0"
| "of_le (b # bs) = ucast b OR push_bit 8 (of_le bs)"

lemma length_to_le [simp]: "length (to_le n w) = n"
  by (induction n arbitrary: w) auto

lemma nth_to_le: "i < n \<Longrightarrow> to_le n w ! i = ucast (drop_bit (8 * i) w)"
proof (induction n arbitrary: w i)
  case 0
  then show ?case by simp
next
  case (Suc n)
  then show ?case
    by (cases i) (simp_all add: drop_bit_drop_bit add.commute)
qed

lemma of_le_to_le_ucast: "of_le (to_le n w) = ucast (take_bit (8 * n) w)"
proof (induction n arbitrary: w)
  case 0
  then show ?case by simp
next
  case (Suc n)
  show ?case
    by (rule bit_word_eqI)
      (auto simp: Suc.IH bit_simps less_diff_conv2 not_le)
qed

lemma of_le_to_le: "of_le (to_le n w) = take_bit (8 * n) w"
  by (simp add: of_le_to_le_ucast)

lemma of_le_to_le_full:
  fixes w :: "'a::len word"
  shows "LENGTH('a) \<le> 8 * n \<Longrightarrow> of_le (to_le n w) = w"
  by (simp add: of_le_to_le take_bit_word_eq_self)

section \<open>Byte memories\<close>

text \<open>
  An array of bytes that the sources index with an address: the bytes as a function of the
  offset.  \<open>mem_read\<close> is \<^verbatim>\<open>memcpy\<close> out of it, \<open>mem_write\<close> is \<^verbatim>\<open>memcpy\<close> into it and
  \<open>mem_set\<close> is \<^verbatim>\<open>memset\<close>.
\<close>

type_synonym bytes = "nat \<Rightarrow> u8"

definition mem_read :: "bytes \<Rightarrow> nat \<Rightarrow> nat \<Rightarrow> u8 list" where
  "mem_read m a n = map (\<lambda>i. m (a + i)) [0..<n]"

definition mem_write :: "bytes \<Rightarrow> nat \<Rightarrow> u8 list \<Rightarrow> bytes" where
  "mem_write m a bs = (\<lambda>x. if a \<le> x \<and> x < a + length bs then bs ! (x - a) else m x)"

definition mem_set :: "bytes \<Rightarrow> nat \<Rightarrow> u8 \<Rightarrow> nat \<Rightarrow> bytes" where
  "mem_set m a v n = (\<lambda>x. if a \<le> x \<and> x < a + n then v else m x)"

lemma length_mem_read [simp]: "length (mem_read m a n) = n"
  by (simp add: mem_read_def)

lemma nth_mem_read [simp]: "i < n \<Longrightarrow> mem_read m a n ! i = m (a + i)"
  by (simp add: mem_read_def)

lemma mem_read_mem_write [simp]:
  "length bs = n \<Longrightarrow> mem_read (mem_write m a bs) a n = bs"
  by (rule nth_equalityI) (auto simp: mem_write_def)

lemma mem_read_mem_write_disjoint:
  "a + n \<le> b \<or> b + length bs \<le> a \<Longrightarrow> mem_read (mem_write m b bs) a n = mem_read m a n"
  by (rule nth_equalityI) (auto simp: mem_write_def)

lemma mem_write_mem_read [simp]: "mem_write m a (mem_read m a n) = m"
  by (rule ext) (auto simp: mem_write_def)

lemma mem_write_outside: "x < a \<or> a + length bs \<le> x \<Longrightarrow> mem_write m a bs x = m x"
  by (auto simp: mem_write_def)

lemma mem_read_add: "mem_read m a (k + n) = mem_read m a k @ mem_read m (a + k) n"
  by (rule nth_equalityI) (auto simp: nth_append)

lemma mem_write_append: "mem_write (mem_write m a xs) (a + length xs) ys = mem_write m a (xs @ ys)"
  by (rule ext) (auto simp: mem_write_def nth_append)

lemma mem_write_Nil [simp]: "mem_write m a [] = m"
  by (rule ext) (auto simp: mem_write_def)

lemma mem_read_0 [simp]: "mem_read m a 0 = []"
  by (simp add: mem_read_def)

lemma mem_read_cong:
  "(\<And>x. a \<le> x \<Longrightarrow> x < a + n \<Longrightarrow> m x = m' x) \<Longrightarrow> mem_read m a n = mem_read m' a n"
  by (rule nth_equalityI) auto

section \<open>Devices as step functions\<close>

text \<open>
  A device is driven by a sequence of accesses and events.  \<open>run step s ops\<close> is its state after
  the sequence; the locale is the contract of a device whose invariant every access that the
  bus can make (\<open>ok\<close>) keeps.
\<close>

fun run :: "('s \<Rightarrow> 'op \<Rightarrow> 's) \<Rightarrow> 's \<Rightarrow> 'op list \<Rightarrow> 's" where
  "run step s [] = s"
| "run step s (x # xs) = run step (step s x) xs"

lemma run_append: "run step s (xs @ ys) = run step (run step s xs) ys"
  by (induction xs arbitrary: s) auto

locale device =
  fixes step :: "'s \<Rightarrow> 'op \<Rightarrow> 's"
    and ok :: "'op \<Rightarrow> bool"
    and inv :: "'s \<Rightarrow> bool"
  assumes step_inv: "inv s \<Longrightarrow> ok x \<Longrightarrow> inv (step s x)"
begin

lemma run_inv: "inv s \<Longrightarrow> list_all ok xs \<Longrightarrow> inv (run step s xs)"
  by (induction xs arbitrary: s) (auto intro: step_inv)

end

end
