(* ===== verification/En29lv640.thy ===== *)
theory En29lv640
  imports Prelude
begin

text \<open>
  The EN29LV640 NOR flash of the Bifferboard (\<^verbatim>\<open>hw/en29lv640.c\<close>): the backing store, the
  command state machine behind the byte and word write cycles, the autoselect and CFI reads,
  and loading and saving the backing file.  The file-scope variables \<^verbatim>\<open>g_backing\<close> and
  \<^verbatim>\<open>g_state\<close> are the two fields of the state record.
\<close>

section \<open>Model\<close>

abbreviation FLASH_SIZE :: nat where "FLASH_SIZE \<equiv> 0x800000"
abbreviation FLASH_DEV_LEN :: nat where "FLASH_DEV_LEN \<equiv> 0x7f0000"

definition ADDR_TO_SECLEN :: "u32 \<Rightarrow> u32" where
  "ADDR_TO_SECLEN addr = (if addr < 0x10000 then 0x2000 else 0x10000)"

definition ADDR_TO_SECBASE :: "u32 \<Rightarrow> u32" where
  "ADDR_TO_SECBASE addr =
     (if addr < 0x10000 then addr AND 0xffffe000 else addr AND 0xffff0000)"

datatype FLASH_STATE =
  CYCLE_READ | CYCLE_1 | CYCLE_2 | CYCLE_3 | CYCLE_4 | CYCLE_AUTOSELECT | CYCLE_PROGRAM
| CYCLE_ERASE | CYCLE_CFI

record flash =
  g_backing :: bytes
  g_state :: FLASH_STATE

text \<open>
  \<open>flash_load_image fw nread b\<close>: \<open>fw\<close> is the content of the backing file, \<open>None\<close> when
  \<^verbatim>\<open>open\<close> fails; \<open>nread\<close> is what \<^verbatim>\<open>read(fd, g_backing, sizeof(g_backing))\<close> returns, and it
  copies that many bytes.
\<close>

definition flash_load_image :: "u8 list option \<Rightarrow> int \<Rightarrow> bytes \<Rightarrow> bytes" where
  "flash_load_image fw nread b =
     (case fw of
        None \<Rightarrow> mem_set b 0 0xff FLASH_SIZE
      | Some file \<Rightarrow>
          (let len = int (length file);
               available = int FLASH_SIZE;
               b1 = mem_write b 0 (take (nat nread) file)
           in if nread \<noteq> len then
                (if len < available
                 then mem_set b1 (nat len) 0xff (nat (available - len)) else b1)
              else b1))"

text \<open>
  \<open>en29lv640_save_image b written file\<close>: the content of the backing file (opened without
  truncation) after \<^verbatim>\<open>write\<close> stored \<open>written\<close> of the \<open>FLASH_DEV_LEN\<close> bytes it was given.
\<close>

definition en29lv640_save_image :: "bytes \<Rightarrow> int \<Rightarrow> u8 list \<Rightarrow> u8 list" where
  "en29lv640_save_image b written file =
     (let towrite = FLASH_DEV_LEN; stored = min towrite (nat written)
      in mem_read b 0 stored @ drop stored file)"

definition EraseSector :: "u32 \<Rightarrow> bytes \<Rightarrow> bytes" where
  "EraseSector addr b =
     mem_set b (unat (ADDR_TO_SECBASE addr)) 0xff (unat (ADDR_TO_SECLEN addr))"

definition ChipErase :: "bytes \<Rightarrow> bytes" where
  "ChipErase b = b" \<comment> \<open>only prints a warning\<close>

definition write_w1 :: "flash \<Rightarrow> u32 \<Rightarrow> u32 \<Rightarrow> flash" where
  "write_w1 s addr val =
     (case g_state s of
        CYCLE_READ \<Rightarrow>
          (if addr = 0xaaa \<and> val = 0xaa then s\<lparr>g_state := CYCLE_1\<rparr>
           else if addr = 0x55 \<and> val = 0x98 then s\<lparr>g_state := CYCLE_CFI\<rparr>
           else s)
      | CYCLE_1 \<Rightarrow>
          (if addr = 0x555 \<and> val = 0x55 then s\<lparr>g_state := CYCLE_2\<rparr> else s)
      | CYCLE_2 \<Rightarrow>
          (if addr = 0xaaa then
             (if val = 0x90 then s\<lparr>g_state := CYCLE_AUTOSELECT\<rparr>
              else if val = 0xa0 then s\<lparr>g_state := CYCLE_PROGRAM\<rparr>
              else if val = 0x80 then s\<lparr>g_state := CYCLE_3\<rparr>
              else s)
           else s)
      | CYCLE_3 \<Rightarrow>
          (if addr = 0xaaa \<and> val = 0xaa then s\<lparr>g_state := CYCLE_4\<rparr> else s)
      | CYCLE_4 \<Rightarrow>
          (if addr = 0x555 \<and> val = 0x55 then s\<lparr>g_state := CYCLE_ERASE\<rparr> else s)
      | CYCLE_ERASE \<Rightarrow>
          (if val = 0x30 then s\<lparr>g_backing := EraseSector addr (g_backing s)\<rparr>
           else if val = 0x10 then s\<lparr>g_backing := ChipErase (g_backing s)\<rparr>
           else s)
      | CYCLE_AUTOSELECT \<Rightarrow> s
      | CYCLE_PROGRAM \<Rightarrow>
          s\<lparr>g_backing := mem_write (g_backing s) (unat addr) [ucast (val AND 0xff)]\<rparr>
      | CYCLE_CFI \<Rightarrow> s)"

definition write_w2 :: "flash \<Rightarrow> u32 \<Rightarrow> u32 \<Rightarrow> flash" where
  "write_w2 s addr val =
     (case g_state s of
        CYCLE_READ \<Rightarrow>
          (if addr = 0xaaa \<and> val = 0xaa then s\<lparr>g_state := CYCLE_1\<rparr>
           else if addr = 0xaa \<and> val = 0x9898 then s\<lparr>g_state := CYCLE_CFI\<rparr>
           else if addr = 0xaa \<and> val = 0x98 then s\<lparr>g_state := CYCLE_CFI\<rparr>
           else if addr = 0xaaa \<and> val = 0x98 then s\<lparr>g_state := CYCLE_CFI\<rparr>
           else s)
      | CYCLE_1 \<Rightarrow>
          (if addr = 0x554 \<and> val = 0x55 then s\<lparr>g_state := CYCLE_2\<rparr> else s)
      | CYCLE_2 \<Rightarrow>
          (if addr = 0xaaa then
             (if val = 0x90 then s\<lparr>g_state := CYCLE_AUTOSELECT\<rparr>
              else if val = 0xa0 then s\<lparr>g_state := CYCLE_PROGRAM\<rparr>
              else if val = 0x80 then s\<lparr>g_state := CYCLE_3\<rparr>
              else s)
           else s)
      | CYCLE_3 \<Rightarrow>
          (if addr = 0xaaa \<and> val = 0xaa then s\<lparr>g_state := CYCLE_4\<rparr> else s)
      | CYCLE_4 \<Rightarrow>
          (if addr = 0x554 \<and> val = 0x55 then s\<lparr>g_state := CYCLE_ERASE\<rparr> else s)
      | CYCLE_ERASE \<Rightarrow>
          (if val = 0x30 then s\<lparr>g_backing := EraseSector addr (g_backing s)\<rparr>
           else if val = 0x10 then s\<lparr>g_backing := ChipErase (g_backing s)\<rparr>
           else s)
      | CYCLE_AUTOSELECT \<Rightarrow> s
      | CYCLE_PROGRAM \<Rightarrow>
          s\<lparr>g_backing := mem_write (g_backing s) (unat addr) (to_le 2 (val AND 0xffff))\<rparr>
      | CYCLE_CFI \<Rightarrow> s)"

definition flash_write_width :: "flash \<Rightarrow> u64 \<Rightarrow> u32 \<Rightarrow> nat \<Rightarrow> flash" where
  "flash_write_width s addr value width =
     (let before = g_state s;
          s1 = (if width = 1 then write_w1 s (ucast addr) value
                else if width = 2 then write_w2 s (ucast addr) value
                else s)
      in if before = g_state s1 then s1\<lparr>g_state := CYCLE_READ\<rparr> else s1)"

definition g_CFI :: "u16 list" where
  "g_CFI =
     [0,0,0,0,0,0,0,0,0,0,0,0,0,0,0,0,
      0x51, 0x52, 0x59,
      2, 0,
      0x40, 0,
      0, 0,
      0, 0,
      0x27,
      0x36,
      0, 0,
      4, 0, 0xa, 0, 5, 0, 4, 0,
      0x17,
      2, 0,
      0, 0,
      2,
      7, 0, 0x20, 0,
      0x7e, 0, 0, 1,
      0, 0, 0, 0,
      0, 0, 0, 0,
      0, 0, 0,
      0x50, 0x52, 0x49,
      0x31, 0x31,
      0, 2, 4, 1, 4, 0, 0, 0, 0xa5, 0xc5, 2]"

text \<open>
  A read through a C pointer into an array of \<open>sz\<close> bytes: undefined behaviour (\<open>None\<close>)
  when it leaves the array.  \<open>lsz\<close> is \<^verbatim>\<open>sizeof(unsigned long)\<close> of the host, the number of
  bytes the four-byte access really fetches before it is cut to 32 bits.
\<close>

definition array_read :: "bytes \<Rightarrow> nat \<Rightarrow> nat \<Rightarrow> nat \<Rightarrow> u32 option" where
  "array_read m sz a n =
     (if a + n \<le> sz then Some (of_le (mem_read m a n)) else None)"

definition flash_read_width :: "nat \<Rightarrow> flash \<Rightarrow> u64 \<Rightarrow> nat \<Rightarrow> u32 option" where
  "flash_read_width lsz s addr width =
     (if g_state s = CYCLE_AUTOSELECT then
        (if addr = 0x000 then Some 0x7f
         else if addr = 0x100 \<or> addr = 0x200 then Some 0x1c
         else if addr AND 0x0ff = 0x01 \<or> addr AND 0x0ff = 0x02 then Some 0x22cb
         else Some 0)
      else
        (let cfi = concat (map (to_le 2) g_CFI);
             (m, sz) =
               (if g_state s = CYCLE_CFI \<and> unat addr < length cfi
                then (\<lambda>i. if i < length cfi then cfi ! i else 0, length cfi)
                else (g_backing s, FLASH_SIZE))
         in if width = 1 then array_read m sz (unat addr) 1
            else if width = 2 then array_read m sz (unat addr) 2
            else if width = 4 then array_read m sz (unat addr) lsz
            else Some 0))"

definition flash_writeb :: "flash \<Rightarrow> u64 \<Rightarrow> u32 \<Rightarrow> flash" where
  "flash_writeb s addr value = flash_write_width s addr value 1"

definition flash_writew :: "flash \<Rightarrow> u64 \<Rightarrow> u32 \<Rightarrow> flash" where
  "flash_writew s addr value = flash_write_width s addr value 2"

definition flash_writel :: "flash \<Rightarrow> u64 \<Rightarrow> u32 \<Rightarrow> flash" where
  "flash_writel s addr value = flash_write_width s addr value 4"

definition flash_readb :: "nat \<Rightarrow> flash \<Rightarrow> u64 \<Rightarrow> u32 option" where
  "flash_readb lsz s addr = flash_read_width lsz s addr 1"

definition flash_readw :: "nat \<Rightarrow> flash \<Rightarrow> u64 \<Rightarrow> u32 option" where
  "flash_readw lsz s addr = flash_read_width lsz s addr 2"

definition flash_readl :: "nat \<Rightarrow> flash \<Rightarrow> u64 \<Rightarrow> u32 option" where
  "flash_readl lsz s addr = flash_read_width lsz s addr 4"

text \<open>
  \<^verbatim>\<open>en29lv640_register\<close> loads the image and enters the read state; \<open>g_backing\<close> is zero before,
  as every static object.  (The registration of the two handler tables with the memory map of
  \<^verbatim>\<open>exec.c\<close> is not part of the model.)
\<close>

definition en29lv640_register :: "u8 list option \<Rightarrow> int \<Rightarrow> flash" where
  "en29lv640_register fw nread =
     \<lparr>g_backing = flash_load_image fw nread (\<lambda>_. 0), g_state = CYCLE_READ\<rparr>"

section \<open>Bus cycles\<close>

text \<open>
  A write cycle on the flash bus: address, value and width in bytes.  \<open>is_unlock1\<close>,
  \<open>is_unlock2\<close> and \<open>is_command\<close> are the cycles of the data sheet's command sequences, and
  \<open>starts ps ws\<close> says that the (latest-first) history \<open>ws\<close> begins with cycles of these kinds.
\<close>

type_synonym cycle = "u64 \<times> u32 \<times> nat"

definition flash_step :: "flash \<Rightarrow> cycle \<Rightarrow> flash" where
  "flash_step s c = (case c of (addr, value, width) \<Rightarrow> flash_write_width s addr value width)"

definition is_unlock1 :: "cycle \<Rightarrow> bool" where
  "is_unlock1 c = (case c of (a, v, w) \<Rightarrow>
     (w = 1 \<or> w = 2) \<and> (ucast a :: u32) = 0xaaa \<and> v = 0xaa)"

definition is_unlock2 :: "cycle \<Rightarrow> bool" where
  "is_unlock2 c = (case c of (a, v, w) \<Rightarrow>
     (w = 1 \<and> (ucast a :: u32) = 0x555 \<or> w = 2 \<and> (ucast a :: u32) = 0x554) \<and> v = 0x55)"

definition is_command :: "u32 \<Rightarrow> cycle \<Rightarrow> bool" where
  "is_command k c = (case c of (a, v, w) \<Rightarrow>
     (w = 1 \<or> w = 2) \<and> (ucast a :: u32) = 0xaaa \<and> v = k)"

fun starts :: "('a \<Rightarrow> bool) list \<Rightarrow> 'a list \<Rightarrow> bool" where
  "starts [] ws = True"
| "starts (p # ps) [] = False"
| "starts (p # ps) (w # ws) = (p w \<and> starts ps ws)"

fun last_cycles :: "FLASH_STATE \<Rightarrow> (cycle \<Rightarrow> bool) list" where
  "last_cycles CYCLE_1 = [is_unlock1]"
| "last_cycles CYCLE_2 = [is_unlock2, is_unlock1]"
| "last_cycles CYCLE_AUTOSELECT = [is_command 0x90, is_unlock2, is_unlock1]"
| "last_cycles CYCLE_PROGRAM = [is_command 0xa0, is_unlock2, is_unlock1]"
| "last_cycles CYCLE_3 = [is_command 0x80, is_unlock2, is_unlock1]"
| "last_cycles CYCLE_4 = [is_unlock1, is_command 0x80, is_unlock2, is_unlock1]"
| "last_cycles CYCLE_ERASE =
     [is_unlock2, is_unlock1, is_command 0x80, is_unlock2, is_unlock1]"
| "last_cycles CYCLE_READ = []"
| "last_cycles CYCLE_CFI = []"

lemmas flash_writes = flash_write_width_def write_w1_def write_w2_def Let_def

lemmas cycles = is_unlock1_def is_unlock2_def is_command_def

text \<open>One cycle extends the history that the state stands for.\<close>

lemma flash_step_history:
  assumes "starts (last_cycles (g_state s)) ws"
  shows "starts (last_cycles (g_state (flash_step s c))) (c # ws)"
proof -
  obtain a v w where c: "c = (a, v, w)" by (cases c)
  show ?thesis
    using assms
    by (cases "g_state s") (simp_all add: c flash_step_def flash_writes cycles)
qed

lemma run_history:
  assumes "g_state s = CYCLE_READ"
  shows "starts (last_cycles (g_state (run flash_step s ws))) (rev ws)"
proof (induction ws rule: rev_induct)
  case Nil
  show ?case by (simp add: assms)
next
  case (snoc c ws)
  then show ?case by (simp add: run_append flash_step_history)
qed

lemma flash_step_backing:
  assumes "g_backing (flash_step s (a, v, w)) \<noteq> g_backing s"
  shows "g_state s = CYCLE_PROGRAM \<or> g_state s = CYCLE_ERASE \<and> v = 0x30"
  using assms
  by (cases "g_state s")
    (auto simp: flash_step_def flash_writes ChipErase_def split: if_splits)

text \<open>
  C1.  Nothing but a complete command sequence changes the flash contents: whatever cycles
  \<open>ws\<close> the guest has issued since the chip was in its read state, if one more cycle changes a
  byte of the backing store then the three cycles before it were the unlock pair and the
  program command 0xA0, or the five cycles before it were the sector erase sequence and the
  cycle itself is the erase confirmation 0x30.
\<close>

theorem flash_modified_only_by_command:
  assumes "g_state s = CYCLE_READ"
    and "g_backing (flash_step (run flash_step s ws) (a, v, w)) \<noteq> g_backing (run flash_step s ws)"
  shows "starts [is_command 0xa0, is_unlock2, is_unlock1] (rev ws) \<or>
    starts [is_unlock2, is_unlock1, is_command 0x80, is_unlock2, is_unlock1] (rev ws) \<and> v = 0x30"
  using flash_step_backing [OF assms(2)] run_history [OF assms(1), of ws] by auto

theorem flash_modified_only_by_command_witness:
  "starts [is_command 0xa0, is_unlock2, is_unlock1]
     (rev [(0xaaa, 0xaa, 1), (0x555, 0x55, 1), (0xaaa, 0xa0, 1)])"
proof -
  let ?s = "\<lparr>g_backing = (\<lambda>_. 0), g_state = CYCLE_READ\<rparr>"
  let ?ws = "[(0xaaa, 0xaa, 1), (0x555, 0x55, 1), (0xaaa, 0xa0, 1)] :: cycle list"
  have r: "run flash_step ?s ?ws = \<lparr>g_backing = (\<lambda>_. 0), g_state = CYCLE_PROGRAM\<rparr>"
    by (simp add: flash_step_def flash_writes)
  have "g_backing (flash_step (run flash_step ?s ?ws) (0x1234, 0x42, 1)) 0x1234 = 0x42"
    unfolding r by (simp add: flash_step_def flash_writes mem_write_def)
  then have "g_backing (flash_step (run flash_step ?s ?ws) (0x1234, 0x42, 1))
      \<noteq> g_backing (run flash_step ?s ?ws)"
    unfolding r by auto
  from flash_modified_only_by_command [OF _ this] show ?thesis by simp
qed

section \<open>Program and erase\<close>

text \<open>
  The command sequences of the data sheet in byte (\<open>w = 1\<close>) and word (\<open>w = 2\<close>) mode, and the
  sector that contains an offset.
\<close>

lemma not_mask_numerals: "(0xffffe000 :: u32) = NOT (mask 13)" "(0xffff0000 :: u32) = NOT (mask 16)"
  by (simp_all add: mask_eq_exp_minus_1)

definition same_sector :: "nat \<Rightarrow> nat \<Rightarrow> bool" where
  "same_sector a x =
     (if a < 0x10000 then x div 0x2000 = a div 0x2000 else x div 0x10000 = a div 0x10000)"

lemma EraseSector_same_sector:
  "EraseSector a b x = (if same_sector (unat a) x then 0xff else b x)"
proof (cases "a < 0x10000")
  case True
  then have "unat a < 0x10000" by (simp add: word_less_nat_alt)
  moreover have "unat (ADDR_TO_SECBASE a) = unat a div 0x2000 * 0x2000"
    using True by (simp add: ADDR_TO_SECBASE_def not_mask_numerals unat_and_not_mask)
  ultimately show ?thesis
    using True by (auto simp: EraseSector_def ADDR_TO_SECLEN_def mem_set_def same_sector_def)
next
  case False
  then have "\<not> unat a < 0x10000" by (simp add: word_less_nat_alt)
  moreover have "unat (ADDR_TO_SECBASE a) = unat a div 0x10000 * 0x10000"
    using False by (simp add: ADDR_TO_SECBASE_def not_mask_numerals unat_and_not_mask)
  ultimately show ?thesis
    using False by (auto simp: EraseSector_def ADDR_TO_SECLEN_def mem_set_def same_sector_def)
qed

definition program_cycles :: "nat \<Rightarrow> u64 \<Rightarrow> u32 \<Rightarrow> cycle list" where
  "program_cycles w a v =
     [(0xaaa, 0xaa, w), (if w = 1 then 0x555 else 0x554, 0x55, w), (0xaaa, 0xa0, w), (a, v, w)]"

definition erase_cycles :: "nat \<Rightarrow> u64 \<Rightarrow> cycle list" where
  "erase_cycles w a =
     [(0xaaa, 0xaa, w), (if w = 1 then 0x555 else 0x554, 0x55, w), (0xaaa, 0x80, w),
      (0xaaa, 0xaa, w), (if w = 1 then 0x555 else 0x554, 0x55, w), (a, 0x30, w)]"

lemma unat_ucast_offset:
  fixes a :: u64
  shows "unat a \<le> FLASH_SIZE \<Longrightarrow> unat (ucast a :: u32) = unat a"
  by (simp add: unsigned_ucast_eq take_bit_eq_mod)

lemma to_le_masks:
  fixes v :: u32
  shows "to_le (Suc 0) v = [ucast (v AND 0xff)]" "to_le 2 (v AND 0xffff) = to_le 2 v"
proof -
  have m: "0xff = (mask 8 :: u32)" "0xffff = (mask 16 :: u32)"
    by (simp_all add: mask_eq_exp_minus_1)
  show "to_le (Suc 0) v = [ucast (v AND 0xff)]"
    unfolding m by (simp add: bit_eq_iff bit_simps)
  show "to_le 2 (v AND 0xffff) = to_le 2 v"
    unfolding m by (simp add: numeral_2_eq_2 bit_eq_iff bit_simps)
qed

lemma run_program_cycles1:
  fixes a :: u64
  assumes "g_state s = CYCLE_READ" and "unat (ucast a :: u32) = unat a"
  shows "run flash_step s (program_cycles 1 a v) =
    s\<lparr>g_backing := mem_write (g_backing s) (unat a) (to_le 1 v)\<rparr>"
  using assms
  by (simp add: program_cycles_def flash_step_def flash_writes  to_le_masks
      del: to_le.simps)
lemma run_program_cycles2:
  fixes a :: u64
  assumes "g_state s = CYCLE_READ" and "unat (ucast a :: u32) = unat a"
  shows "run flash_step s (program_cycles 2 a v) =
    s\<lparr>g_backing := mem_write (g_backing s) (unat a) (to_le 2 v)\<rparr>"
  using assms
  by (simp add: program_cycles_def flash_step_def flash_writes to_le_masks
      del: to_le.simps)

lemma run_program_cycles:
  fixes a :: u64
  assumes "g_state s = CYCLE_READ" and "w = 1 \<or> w = 2" and "unat a + w \<le> FLASH_SIZE"
  shows "run flash_step s (program_cycles w a v) =
    s\<lparr>g_backing := mem_write (g_backing s) (unat a) (to_le w v)\<rparr>"
proof -
  from assms(3) have "unat (ucast a :: u32) = unat a" by (intro unat_ucast_offset) linarith
  with assms(1,2) show ?thesis
    using run_program_cycles1 run_program_cycles2 by blast
qed

lemma run_erase_cycles:
  fixes a :: u64
  assumes "g_state s = CYCLE_READ" and "w = 1 \<or> w = 2"
  shows "run flash_step s (erase_cycles w a) =
    s\<lparr>g_backing := EraseSector (ucast a) (g_backing s)\<rparr>"
proof -
  have "run flash_step s (erase_cycles 1 a) = s\<lparr>g_backing := EraseSector (ucast a) (g_backing s)\<rparr>"
    "run flash_step s (erase_cycles 2 a) = s\<lparr>g_backing := EraseSector (ucast a) (g_backing s)\<rparr>"
    using assms(1) by (simp_all add: erase_cycles_def flash_step_def flash_writes)
  with assms(2) show ?thesis by blast
qed

lemma flash_read_back:
  assumes "g_state s = CYCLE_READ" and "g_backing s = mem_write b (unat a) (to_le w v)"
    and "w = 1 \<or> w = 2" and "unat a + w \<le> FLASH_SIZE"
  shows "flash_read_width lsz s a w = Some (take_bit (8 * w) v)"
proof -
  have "array_read (g_backing s) FLASH_SIZE (unat a) w = Some (take_bit (8 * w) v)"
    using assms(2,4) by (simp add: array_read_def of_le_to_le)
  with assms(1,3) show ?thesis by (auto simp: flash_read_width_def)
qed

text \<open>
  C2.  The program command.  From the read state, the unlock pair, the command 0xA0 and a
  data cycle (all byte or all word cycles) store exactly the little-endian bytes of the value
  at the address, leave every other byte alone, return the chip to its read state, and a read
  of that width at the address gives the value back.
\<close>

theorem flash_program_sequence:
  fixes a :: u64
  assumes "g_state s = CYCLE_READ" and "w = 1 \<or> w = 2" and "unat a + w \<le> FLASH_SIZE"
  shows "g_state (run flash_step s (program_cycles w a v)) = CYCLE_READ \<and>
    g_backing (run flash_step s (program_cycles w a v)) =
      mem_write (g_backing s) (unat a) (to_le w v) \<and>
    flash_read_width lsz (run flash_step s (program_cycles w a v)) a w = Some (take_bit (8 * w) v)"
  using assms(1) flash_read_back [OF _ _ assms(2,3)]
  unfolding run_program_cycles [OF assms] by simp

theorem flash_program_sequence_witness:
  "flash_read_width 8
     (run flash_step \<lparr>g_backing = (\<lambda>_. 0), g_state = CYCLE_READ\<rparr> (program_cycles 2 0x4000 0xbeef))
     0x4000 2 = Some 0xbeef"
proof -
  have "flash_read_width 8
     (run flash_step \<lparr>g_backing = (\<lambda>_. 0), g_state = CYCLE_READ\<rparr> (program_cycles 2 0x4000 0xbeef))
     0x4000 2 = Some (take_bit 16 0xbeef)"
    using flash_program_sequence [of "\<lparr>g_backing = (\<lambda>_. 0), g_state = CYCLE_READ\<rparr>" 2 "0x4000" "0xbeef" 8]
    by simp
  then show ?thesis by (simp add: take_bit_eq_mask mask_eq_exp_minus_1)
qed

text \<open>
  C3.  The sector erase command.  The six-cycle erase sequence fills with 0xFF exactly the
  sector that contains the address (eight sectors of 8 KiB in the first 64 KiB, 64 KiB sectors
  above), changes no byte outside it and returns the chip to its read state.
\<close>

theorem flash_erase_sequence:
  fixes a :: u64
  assumes "g_state s = CYCLE_READ" and "w = 1 \<or> w = 2" and "unat a < FLASH_SIZE"
  shows "g_state (run flash_step s (erase_cycles w a)) = CYCLE_READ \<and>
    g_backing (run flash_step s (erase_cycles w a)) x =
      (if same_sector (unat a) x then 0xff else g_backing s x)"
  using assms
  by (simp add: run_erase_cycles EraseSector_same_sector unat_ucast_offset)

theorem flash_erase_sequence_witness:
  "g_backing (run flash_step \<lparr>g_backing = (\<lambda>_. 0), g_state = CYCLE_READ\<rparr> (erase_cycles 2 0x4000)) 0x5fff = 0xff
  \<and> g_backing (run flash_step \<lparr>g_backing = (\<lambda>_. 0), g_state = CYCLE_READ\<rparr> (erase_cycles 2 0x4000)) 0x6000 = 0"
  using flash_erase_sequence [of "\<lparr>g_backing = (\<lambda>_. 0), g_state = CYCLE_READ\<rparr>" 2 "0x4000" "0x5fff"]
    flash_erase_sequence [of "\<lparr>g_backing = (\<lambda>_. 0), g_state = CYCLE_READ\<rparr>" 2 "0x4000" "0x6000"]
  by (simp add: same_sector_def)

section \<open>The boot sector\<close>

text \<open>
  The cycles the memory map can deliver: offsets inside the registered window of
  \<open>FLASH_DEV_LEN\<close> bytes, and word accesses at even offsets (the soft MMU splits unaligned I/O
  accesses into bytes).
\<close>

definition bus_cycle :: "cycle \<Rightarrow> bool" where
  "bus_cycle c = (case c of (a, v, w) \<Rightarrow> unat a < FLASH_DEV_LEN \<and> (w = 2 \<longrightarrow> even (unat a)))"

definition boot_sector_is :: "bytes \<Rightarrow> flash \<Rightarrow> bool" where
  "boot_sector_is b s \<longleftrightarrow> (\<forall>x \<ge> FLASH_DEV_LEN. g_backing s x = b x)"

lemma same_sector_below:
  "same_sector a x \<Longrightarrow> a < FLASH_DEV_LEN \<Longrightarrow> x < FLASH_DEV_LEN"
  unfolding same_sector_def
  using div_less_iff_less_mult [of "0x10000" x "0x7f"] div_less_iff_less_mult [of "0x10000" a "0x7f"]
    div_less_iff_less_mult [of "0x2000" x "8"] div_less_iff_less_mult [of "0x2000" a "8"]
  by (auto split: if_splits)

lemma flash_step_boot_sector:
  assumes "boot_sector_is b s" and "bus_cycle c"
  shows "boot_sector_is b (flash_step s c)"
proof -
  obtain a v w where c: "c = (a, v, w)" by (cases c)
  have a: "unat a < FLASH_DEV_LEN" and even: "w = 2 \<Longrightarrow> even (unat a)"
    using assms(2) by (auto simp: bus_cycle_def c)
  then have u: "unat (ucast a :: u32) = unat a" by (simp add: unat_ucast_offset)
  have e: "EraseSector (ucast a) (g_backing s) x = b x" if "FLASH_DEV_LEN \<le> x" for x
    using assms(1) same_sector_below [of "unat a" x] a that
    by (auto simp: EraseSector_same_sector u boot_sector_is_def)
  have p: "mem_write (g_backing s) (unat a) [d] x = b x" if "FLASH_DEV_LEN \<le> x" for x d
    using assms(1) a that by (simp add: mem_write_outside boot_sector_is_def)
  have q: "mem_write (g_backing s) (unat a) (to_le 2 d) x = b x"
    if "FLASH_DEV_LEN \<le> x" "w = 2" for x and d :: u32
    using assms(1) a that even by (subst mem_write_outside) (auto simp: boot_sector_is_def)
  show ?thesis
    using assms(1) e p q
    by (cases "g_state s")
      (auto simp: c u flash_step_def flash_writes boot_sector_is_def ChipErase_def simp del: to_le.simps)
qed
interpretation boot: device flash_step bus_cycle "boot_sector_is b" for b
  by unfold_locales (rule flash_step_boot_sector)

text \<open>
  C4.  The top 64 KiB hold the boot loader and are never written: no sequence of cycles that
  the memory map can deliver changes a byte at or above \<open>FLASH_DEV_LEN\<close>.
\<close>

theorem flash_boot_sector_protected:
  assumes "list_all bus_cycle cs" and "FLASH_DEV_LEN \<le> x"
  shows "g_backing (run flash_step s cs) x = g_backing s x"
proof -
  have "boot_sector_is (g_backing s) s" by (simp add: boot_sector_is_def)
  from boot.run_inv [OF this assms(1)] assms(2) show ?thesis by (simp add: boot_sector_is_def)
qed

theorem flash_boot_sector_protected_witness:
  "g_backing (run flash_step \<lparr>g_backing = (\<lambda>_. 7), g_state = CYCLE_READ\<rparr>
     (erase_cycles 2 0x7e0000)) 0x7f0000 = 7"
  using flash_boot_sector_protected [of "erase_cycles 2 0x7e0000" "0x7f0000"
      "\<lparr>g_backing = (\<lambda>_. 7), g_state = CYCLE_READ\<rparr>"]
  by (simp add: erase_cycles_def bus_cycle_def)

section \<open>CFI query\<close>

lemma drop_concat_pairs:
  fixes xs :: "'a::len word list"
  shows "i < length xs \<Longrightarrow>
    drop (2 * i) (concat (map (to_le 2) xs)) = to_le 2 (xs ! i) @ concat (map (to_le 2) (drop (Suc i) xs))"
proof (induction xs arbitrary: i)
  case Nil
  then show ?case by simp
next
  case (Cons x xs)
  then show ?case
    by (cases i) (simp_all del: to_le.simps)
qed

lemma nth_concat_pairs:
  fixes xs :: "'a::len word list"
  assumes "i < length xs" and "j < 2"
  shows "concat (map (to_le 2) xs) ! (2 * i + j) = to_le 2 (xs ! i) ! j"
proof -
  have "length (concat (map (to_le 2) xs)) = 2 * length xs"
    by (simp add: length_concat comp_def sum_list_triv)
  then have "2 * i \<le> length (concat (map (to_le 2) xs))" using assms(1) by simp
  then have "concat (map (to_le 2) xs) ! (2 * i + j) = drop (2 * i) (concat (map (to_le 2) xs)) ! j"
    by simp
  also have "\<dots> = to_le 2 (xs ! i) ! j"
    using assms by (simp add: drop_concat_pairs nth_append)
  finally show ?thesis .
qed

lemma length_cfi_bytes: "length (concat (map (to_le 2) g_CFI)) = 160"
  by (simp add: length_concat comp_def sum_list_triv g_CFI_def)

lemma length_g_CFI: "length g_CFI = 80"
  by (simp add: g_CFI_def)

lemma flash_readw_CFI:
  assumes "g_state s = CYCLE_CFI" and "unat a = 2 * i" and "i < 80"
  shows "flash_readw lsz s a = Some (ucast (g_CFI ! i))"
proof -
  let ?cfi = "concat (map (to_le 2) g_CFI)"
  let ?m = "\<lambda>k. if k < 160 then ?cfi ! k else 0"
  have "mem_read ?m (2 * i) 2 = to_le 2 (g_CFI ! i)"
    using assms(3) by (intro nth_equalityI) (auto simp: nth_concat_pairs length_g_CFI simp del: to_le.simps)
  then have "of_le (mem_read ?m (2 * i) 2) = (ucast (g_CFI ! i) :: u32)"
    by (simp add: of_le_to_le_ucast take_bit_word_eq_self)
  then show ?thesis
    using assms
    by (simp add: flash_readw_def flash_read_width_def length_cfi_bytes array_read_def)
qed

text \<open>
  The query interface as a driver uses it: entry \<open>i\<close> of the CFI table, read with a word access,
  and the erase block regions the table announces (CFI publication 100: the number of blocks
  minus one at entry 0x2D + 4r, the block size in units of 256 bytes at entry 0x2F + 4r).
\<close>

definition cfi_query :: "flash \<Rightarrow> nat \<Rightarrow> nat" where
  "cfi_query s i = unat (the (flash_readw 8 s (of_nat (2 * i))))"

definition cfi_region :: "flash \<Rightarrow> nat \<Rightarrow> nat \<times> nat" where
  "cfi_region s r =
     (cfi_query s (0x2d + 4 * r) + 256 * cfi_query s (0x2e + 4 * r) + 1,
      256 * (cfi_query s (0x2f + 4 * r) + 256 * cfi_query s (0x30 + 4 * r)))"

lemma cfi_query_eq:
  assumes "g_state s = CYCLE_CFI" and "i < 80"
  shows "cfi_query s i = unat (g_CFI ! i)"
proof -
  have "unat (of_nat (2 * i) :: u64) = 2 * i"
    using assms(2) by (intro unat_of_nat_small) simp
  from flash_readw_CFI [OF assms(1) this assms(2)] show ?thesis
    unfolding cfi_query_def by (simp add: unat_ucast_up)
qed

text \<open>
  What the CFI query tells a driver is what the erase code does: in CFI mode the table
  reads \<open>QRY\<close> at entry 0x10, announces a device of \<open>FLASH_SIZE\<close> bytes with two erase
  regions whose blocks add up to the device size, and the block size announced for an address
  is the sector length \<open>ADDR_TO_SECLEN\<close> erases there.
\<close>

theorem flash_cfi_geometry:
  assumes "g_state s = CYCLE_CFI"
  shows "map (cfi_query s) [0x10, 0x11, 0x12] = map (of_char :: char \<Rightarrow> nat) ''QRY'' \<and>
    2 ^ cfi_query s 0x27 = FLASH_SIZE \<and>
    cfi_query s 0x2c = 2 \<and>
    fst (cfi_region s 0) * snd (cfi_region s 0) + fst (cfi_region s 1) * snd (cfi_region s 1)
      = FLASH_SIZE \<and>
    unat (ADDR_TO_SECLEN a) =
      (if unat a < fst (cfi_region s 0) * snd (cfi_region s 0)
       then snd (cfi_region s 0) else snd (cfi_region s 1))"
proof -
  have q: "cfi_query s i = unat (g_CFI ! i)" if "i < 80" for i
    using assms that by (rule cfi_query_eq)
  have r: "cfi_region s 0 = (8, 0x2000)" "cfi_region s 1 = (0x7f, 0x10000)"
    by (simp_all add: cfi_region_def q g_CFI_def)
  show ?thesis
    unfolding r by (simp add: q) (simp add: g_CFI_def ADDR_TO_SECLEN_def word_less_nat_alt)
qed

theorem flash_cfi_geometry_witness:
  "cfi_query \<lparr>g_backing = (\<lambda>_. 0), g_state = CYCLE_CFI\<rparr> 0x27 = 23"
proof -
  have "2 ^ cfi_query \<lparr>g_backing = (\<lambda>_. 0), g_state = CYCLE_CFI\<rparr> 0x27 = (2 :: nat) ^ 23"
    using flash_cfi_geometry [of "\<lparr>g_backing = (\<lambda>_. 0), g_state = CYCLE_CFI\<rparr>"] by simp
  then show ?thesis by (simp only: power_inject_exp)
qed

section \<open>The backing file\<close>

lemma flash_load_image_full_read:
  assumes "nread = int (min (length file) FLASH_SIZE)" and "x < FLASH_SIZE"
  shows "flash_load_image (Some file) nread b x = (if x < length file then file ! x else b x)"
  using assms by (auto simp: flash_load_image_def Let_def mem_write_def min_def)

text \<open>
  A backing file shorter than the chip is not padded with 0xFF: \<^verbatim>\<open>read\<close> returns the
  length of the file, so the test \<^verbatim>\<open>read(...) != len\<close> that guards the padding fails and the
  rest of the backing store keeps its initial zeros (an erased NOR flash reads 0xFF).
\<close>

theorem flash_short_image_not_padded:
  assumes "length file < FLASH_SIZE" and "length file \<le> x" and "x < FLASH_SIZE"
  shows "g_backing (en29lv640_register (Some file) (int (min (length file) FLASH_SIZE))) x = 0"
  using assms by (simp add: en29lv640_register_def flash_load_image_full_read)

theorem flash_short_image_not_padded_witness:
  "g_backing (en29lv640_register (Some [0x12, 0x34]) (int (min (length [0x12, 0x34 :: u8]) FLASH_SIZE))) 2 = 0"
  by (rule flash_short_image_not_padded) simp_all

text \<open>
  C5.  Saving the image at exit and loading it at the next start restores every byte of the
  writable part of the flash.
\<close>

theorem flash_save_load_roundtrip:
  assumes "file' = en29lv640_save_image (g_backing s) (int FLASH_DEV_LEN) file"
    and "nread = int (min (length file') FLASH_SIZE)" and "x < FLASH_DEV_LEN"
  shows "g_backing (en29lv640_register (Some file') nread) x = g_backing s x"
proof -
  have "x < length file'" and "file' ! x = g_backing s x"
    using assms(1,3) by (simp_all add: en29lv640_save_image_def nth_append)
  then show ?thesis
    using assms(2,3) by (simp add: en29lv640_register_def flash_load_image_full_read)
qed

theorem flash_save_load_roundtrip_witness:
  "\<exists>file' nread. g_backing (en29lv640_register (Some file') nread) 0x4000 = 0x5a"
proof -
  let ?s = "\<lparr>g_backing = (\<lambda>_. 0x5a), g_state = CYCLE_READ\<rparr>"
  let ?file = "en29lv640_save_image (g_backing ?s) (int FLASH_DEV_LEN) []"
  have "g_backing (en29lv640_register (Some ?file) (int (min (length ?file) FLASH_SIZE))) 0x4000
    = g_backing ?s 0x4000"
    by (rule flash_save_load_roundtrip [OF refl refl]) simp
  then show ?thesis by auto
qed

end
