(* ===== verification/Irq.thy ===== *)
theory Irq
  imports Prelude
begin

text \<open>
  Interrupt pins (\<^verbatim>\<open>hw/irq.c\<close>, \<^verbatim>\<open>hw/irq.h\<close>).  A pin calls a handler; what the handler changes
  (the interrupt controller, the CPU) is the world \<open>'w\<close>, passed through every call.  The
  \<^verbatim>\<open>opaque\<close> pointer of the C handler is the part of the world the handler works on, so the
  model's handler is the C handler applied to it.  A \<^verbatim>\<open>NULL\<close> pin is \<open>None\<close>.
\<close>

section \<open>Model\<close>

record 'w IRQState =
  handler :: "int \<Rightarrow> int \<Rightarrow> 'w \<Rightarrow> 'w"
  line_no :: int

type_synonym 'w qemu_irq = "'w IRQState option"

definition qemu_set_irq :: "'w qemu_irq \<Rightarrow> int \<Rightarrow> 'w \<Rightarrow> 'w" where
  "qemu_set_irq irq level w =
     (case irq of None \<Rightarrow> w | Some p \<Rightarrow> handler p (line_no p) level w)"

definition qemu_irq_raise :: "'w qemu_irq \<Rightarrow> 'w \<Rightarrow> 'w" where
  "qemu_irq_raise irq w = qemu_set_irq irq 1 w"

definition qemu_irq_lower :: "'w qemu_irq \<Rightarrow> 'w \<Rightarrow> 'w" where
  "qemu_irq_lower irq w = qemu_set_irq irq 0 w"

definition qemu_irq_pulse :: "'w qemu_irq \<Rightarrow> 'w \<Rightarrow> 'w" where
  "qemu_irq_pulse irq w = qemu_set_irq irq 0 (qemu_set_irq irq 1 w)"

definition qemu_allocate_irqs :: "(int \<Rightarrow> int \<Rightarrow> 'w \<Rightarrow> 'w) \<Rightarrow> nat \<Rightarrow> 'w qemu_irq list" where
  "qemu_allocate_irqs h n = map (\<lambda>i. Some \<lparr>handler = h, line_no = int i\<rparr>) [0..<n]"

definition qemu_notirq :: "'w IRQState \<Rightarrow> int \<Rightarrow> int \<Rightarrow> 'w \<Rightarrow> 'w" where
  "qemu_notirq irq line level = handler irq (line_no irq) (if level = 0 then 1 else 0)"

text \<open>The new pin, and the world after the output was raised.\<close>

definition qemu_irq_invert :: "'w IRQState \<Rightarrow> 'w \<Rightarrow> 'w qemu_irq \<times> 'w" where
  "qemu_irq_invert irq w =
     (let w' = qemu_irq_raise (Some irq) w
      in (qemu_allocate_irqs (qemu_notirq irq) 1 ! 0, w'))"

definition qemu_splitirq :: "'w IRQState \<times> 'w IRQState \<Rightarrow> int \<Rightarrow> int \<Rightarrow> 'w \<Rightarrow> 'w" where
  "qemu_splitirq irqs line level w =
     (case irqs of (irq0, irq1) \<Rightarrow>
        handler irq1 (line_no irq1) level (handler irq0 (line_no irq0) level w))"

definition qemu_irq_split :: "'w IRQState \<Rightarrow> 'w IRQState \<Rightarrow> 'w qemu_irq" where
  "qemu_irq_split irq1 irq2 = qemu_allocate_irqs (qemu_splitirq (irq1, irq2)) 1 ! 0"

section \<open>Properties\<close>

lemma qemu_set_irq_None [simp]: "qemu_set_irq None level w = w"
  by (simp add: qemu_set_irq_def)

lemma qemu_set_irq_allocated:
  "i < n \<Longrightarrow> qemu_set_irq (qemu_allocate_irqs h n ! i) level w = h (int i) level w"
  by (simp add: qemu_set_irq_def qemu_allocate_irqs_def)

lemma qemu_set_irq_invert:
  "qemu_set_irq (fst (qemu_irq_invert irq w0)) level w =
     qemu_set_irq (Some irq) (if level = 0 then 1 else 0) w"
  by (simp add: qemu_irq_invert_def Let_def qemu_allocate_irqs_def qemu_set_irq_def
      qemu_notirq_def)

lemma qemu_set_irq_split:
  "qemu_set_irq (qemu_irq_split p q) level w =
     qemu_set_irq (Some q) level (qemu_set_irq (Some p) level w)"
  by (simp add: qemu_irq_split_def qemu_allocate_irqs_def qemu_set_irq_def qemu_splitirq_def)

text \<open>
  The pins of an interrupt controller seen from the devices: for every line \<open>n\<close> a device may
  drive, the world keeps the level last driven on it, and driving one line leaves the level of
  the others.  The devices' update functions rest on this contract when they say what their pin
  shows after an access.
\<close>

locale irq_lines =
  fixes pin :: "nat \<Rightarrow> 'w qemu_irq"
    and level_of :: "nat \<Rightarrow> 'w \<Rightarrow> bool"
    and valid :: "nat \<Rightarrow> bool"
  assumes level_set: "valid n \<Longrightarrow> level_of n (qemu_set_irq (pin n) l w) \<longleftrightarrow> l \<noteq> 0"
    and level_other: "valid n \<Longrightarrow> valid m \<Longrightarrow> m \<noteq> n \<Longrightarrow>
          level_of m (qemu_set_irq (pin n) l w) = level_of m w"
begin

lemma level_raise: "valid n \<Longrightarrow> level_of n (qemu_irq_raise (pin n) w)"
  by (simp add: qemu_irq_raise_def level_set)

lemma level_lower: "valid n \<Longrightarrow> \<not> level_of n (qemu_irq_lower (pin n) w)"
  by (simp add: qemu_irq_lower_def level_set)

lemma level_pulse: "valid n \<Longrightarrow> \<not> level_of n (qemu_irq_pulse (pin n) w)"
  by (simp add: qemu_irq_pulse_def level_set)

lemma level_set_self:
  "valid n \<Longrightarrow> valid m \<Longrightarrow> level_of m (qemu_set_irq (pin n) l w) = (if m = n then l \<noteq> 0 else level_of m w)"
  by (simp add: level_set level_other)

end

end
