(* ===== verification/I8259.thy ===== *)
theory I8259
  imports Irq
begin

text \<open>
  The pair of 8259 interrupt controllers (\<^verbatim>\<open>hw/i8259.c\<close>).  \<open>PicState\<close> is one controller,
  \<open>PicState2\<close> the cascade; a pointer to a controller is its index in \<open>pics\<close> (0 the master, 1
  the slave), and the world \<open>'w\<close> is what the parent interrupt pin (the CPU) changes.
  \<^verbatim>\<open>hw_error\<close> aborts the emulator: the access returns \<open>None\<close>.
\<close>

section \<open>Model\<close>

record PicState =
  last_irr :: u8
  irr :: u8
  imr :: u8
  isr :: u8
  priority_add :: u8
  irq_base :: u8
  read_reg_select :: u8
  poll :: u8
  special_mask :: u8
  init_state :: u8
  auto_eoi :: u8
  rotate_on_auto_eoi :: u8
  special_fully_nested_mode :: u8
  init4 :: u8
  single_mode :: u8
  elcr :: u8
  elcr_mask :: u8

record 'w PicState2 =
  pics :: "nat \<Rightarrow> PicState"
  parent_irq :: "'w qemu_irq"

definition pic_set_irq1 :: "PicState \<Rightarrow> nat \<Rightarrow> int \<Rightarrow> PicState" where
  "pic_set_irq1 s irq level =
     (let mask = BIT irq in
      if elcr s AND mask \<noteq> 0 then
        (if level \<noteq> 0 then s\<lparr>irr := irr s OR mask, last_irr := last_irr s OR mask\<rparr>
         else s\<lparr>irr := irr s AND NOT mask, last_irr := last_irr s AND NOT mask\<rparr>)
      else
        (if level \<noteq> 0 then
           (let s1 = (if last_irr s AND mask = 0 then s\<lparr>irr := irr s OR mask\<rparr> else s)
            in s1\<lparr>last_irr := last_irr s1 OR mask\<rparr>)
         else s\<lparr>last_irr := last_irr s AND NOT mask\<rparr>))"

text \<open>
  The search loop of \<^verbatim>\<open>get_priority\<close> as it is written; \<open>None\<close> would be a loop that does not
  end.
\<close>

partial_function (option) get_priority_loop :: "u8 \<Rightarrow> nat \<Rightarrow> nat \<Rightarrow> nat option" where
  "get_priority_loop msk add priority =
     (if msk AND BIT ((priority + add) mod 8) = 0
      then get_priority_loop msk add (priority + 1)
      else Some priority)"

definition get_priority :: "PicState \<Rightarrow> u8 \<Rightarrow> nat" where
  "get_priority s msk =
     (if msk = 0 then 8 else the (get_priority_loop msk (unat (priority_add s)) 0))"

text \<open>\<open>i\<close> is the index of the controller, for the test \<^verbatim>\<open>s == &s->pics_state->pics[0]\<close>.\<close>

definition pic_get_irq :: "nat \<Rightarrow> PicState \<Rightarrow> nat option" where
  "pic_get_irq i s =
     (let mask = irr s AND NOT (imr s);
          priority = get_priority s mask
      in if priority = 8 then None
         else
           (let mask1 = isr s;
                mask2 = (if special_mask s \<noteq> 0 then mask1 AND NOT (imr s) else mask1);
                mask3 = (if special_fully_nested_mode s \<noteq> 0 \<and> i = 0
                         then mask2 AND NOT (BIT 2) else mask2);
                cur_priority = get_priority s mask3
            in if priority < cur_priority
               then Some ((priority + unat (priority_add s)) mod 8) else None))"

definition pic_update_irq :: "'w PicState2 \<Rightarrow> 'w \<Rightarrow> 'w PicState2 \<times> 'w" where
  "pic_update_irq s w =
     (let irq2 = pic_get_irq 1 (pics s 1);
          s1 = (if irq2 \<noteq> None
                then s\<lparr>pics := (pics s)(0 := pic_set_irq1 (pic_set_irq1 (pics s 0) 2 1) 2 0)\<rparr>
                else s);
          irq = pic_get_irq 0 (pics s1 0)
      in (s1, if irq \<noteq> None then qemu_irq_raise (parent_irq s1) w else w))"

definition i8259_set_irq :: "'w PicState2 \<Rightarrow> nat \<Rightarrow> int \<Rightarrow> 'w \<Rightarrow> 'w PicState2 \<times> 'w" where
  "i8259_set_irq s irq level w =
     (let i = irq div 8;
          s1 = s\<lparr>pics := (pics s)(i := pic_set_irq1 (pics s i) (irq mod 8) level)\<rparr>
      in pic_update_irq s1 w)"

definition pic_intack :: "PicState \<Rightarrow> nat \<Rightarrow> PicState" where
  "pic_intack s irq =
     (let s1 = (if auto_eoi s \<noteq> 0 then
                  (if rotate_on_auto_eoi s \<noteq> 0
                   then s\<lparr>priority_add := of_nat ((irq + 1) mod 8)\<rparr> else s)
                else s\<lparr>isr := isr s OR BIT irq\<rparr>)
      in if elcr s1 AND BIT irq = 0 then s1\<lparr>irr := irr s1 AND NOT (BIT irq)\<rparr> else s1)"

definition pic_read_irq :: "'w PicState2 \<Rightarrow> 'w \<Rightarrow> int \<times> 'w PicState2 \<times> 'w" where
  "pic_read_irq s w =
     (case pic_get_irq 0 (pics s 0) of
        Some irq \<Rightarrow>
          (let s1 = s\<lparr>pics := (pics s)(0 := pic_intack (pics s 0) irq)\<rparr> in
           if irq = 2 then
             (let (irq2, s2) =
                (case pic_get_irq 1 (pics s1 1) of
                   Some irq2 \<Rightarrow> (irq2, s1\<lparr>pics := (pics s1)(1 := pic_intack (pics s1 1) irq2)\<rparr>)
                 | None \<Rightarrow> (7, s1));
                  intno = uint (irq_base (pics s2 1)) + int irq2
              in (intno, pic_update_irq s2 w))
           else
             (let intno = uint (irq_base (pics s1 0)) + int irq in (intno, pic_update_irq s1 w)))
      | None \<Rightarrow>
          (let intno = uint (irq_base (pics s 0)) + 7 in (intno, pic_update_irq s w)))"

definition pic_reset :: "PicState \<Rightarrow> PicState" where
  "pic_reset s = s\<lparr>last_irr := 0, irr := 0, imr := 0, isr := 0, priority_add := 0,
     irq_base := 0, read_reg_select := 0, poll := 0, special_mask := 0, init_state := 0,
     auto_eoi := 0, rotate_on_auto_eoi := 0, special_fully_nested_mode := 0, init4 := 0,
     single_mode := 0\<rparr>"

definition put_pic :: "'w PicState2 \<Rightarrow> nat \<Rightarrow> PicState \<Rightarrow> 'w PicState2" where
  "put_pic ps i s = ps\<lparr>pics := (pics ps)(i := s)\<rparr>"

definition pic_ioport_write ::
  "'w PicState2 \<Rightarrow> nat \<Rightarrow> u32 \<Rightarrow> u32 \<Rightarrow> 'w \<Rightarrow> ('w PicState2 \<times> 'w) option" where
  "pic_ioport_write ps i addr val w =
     (let s = pics ps i in
      if addr AND 1 = 0 then
        (if val AND 0x10 \<noteq> 0 then
           (let s1 = pic_reset s;
                w1 = qemu_irq_lower (parent_irq ps) w;
                s2 = s1\<lparr>init_state := 1, init4 := ucast (val AND 1), single_mode := ucast (val AND 2)\<rparr>
            in if val AND 0x08 \<noteq> 0 then None else Some (put_pic ps i s2, w1))
         else if val AND 0x08 \<noteq> 0 then
           (let s1 = (if val AND 0x04 \<noteq> 0 then s\<lparr>poll := 1\<rparr> else s);
                s2 = (if val AND 0x02 \<noteq> 0 then s1\<lparr>read_reg_select := ucast (val AND 1)\<rparr> else s1);
                s3 = (if val AND 0x40 \<noteq> 0
                      then s2\<lparr>special_mask := ucast (drop_bit 5 val AND 1)\<rparr> else s2)
            in Some (put_pic ps i s3, w))
         else
           (let cmd = drop_bit 5 val in
            if cmd = 0 \<or> cmd = 4 then
              Some (put_pic ps i (s\<lparr>rotate_on_auto_eoi := ucast (drop_bit 2 cmd)\<rparr>), w)
            else if cmd = 1 \<or> cmd = 5 then
              (let priority = get_priority s (isr s) in
               if priority \<noteq> 8 then
                 (let irq = (priority + unat (priority_add s)) mod 8;
                      s1 = s\<lparr>isr := isr s AND NOT (BIT irq)\<rparr>;
                      s2 = (if cmd = 5 then s1\<lparr>priority_add := of_nat ((irq + 1) mod 8)\<rparr> else s1)
                  in Some (pic_update_irq (put_pic ps i s2) w))
               else Some (ps, w))
            else if cmd = 3 then
              (let irq = unat (val AND 7)
               in Some (pic_update_irq (put_pic ps i (s\<lparr>isr := isr s AND NOT (BIT irq)\<rparr>)) w))
            else if cmd = 6 then
              Some (pic_update_irq (put_pic ps i (s\<lparr>priority_add := ucast ((val + 1) AND 7)\<rparr>)) w)
            else if cmd = 7 then
              (let irq = unat (val AND 7);
                   s1 = s\<lparr>isr := isr s AND NOT (BIT irq)\<rparr>;
                   s2 = s1\<lparr>priority_add := of_nat ((irq + 1) mod 8)\<rparr>
               in Some (pic_update_irq (put_pic ps i s2) w))
            else Some (ps, w)))
      else
        (if init_state s = 0 then
           Some (pic_update_irq (put_pic ps i (s\<lparr>imr := ucast val\<rparr>)) w)
         else if init_state s = 1 then
           Some (put_pic ps i (s\<lparr>irq_base := ucast (val AND 0xf8),
             init_state := (if single_mode s \<noteq> 0 then (if init4 s \<noteq> 0 then 3 else 0) else 2)\<rparr>), w)
         else if init_state s = 2 then
           Some (put_pic ps i (s\<lparr>init_state := (if init4 s \<noteq> 0 then 3 else 0)\<rparr>), w)
         else if init_state s = 3 then
           Some (put_pic ps i (s\<lparr>special_fully_nested_mode := ucast (drop_bit 4 val AND 1),
             auto_eoi := ucast (drop_bit 1 val AND 1), init_state := 0\<rparr>), w)
         else Some (ps, w)))"

definition pic_poll_read :: "'w PicState2 \<Rightarrow> nat \<Rightarrow> u32 \<Rightarrow> 'w \<Rightarrow> u32 \<times> 'w PicState2 \<times> 'w" where
  "pic_poll_read ps i addr1 w =
     (case pic_get_irq i (pics ps i) of
        Some ret \<Rightarrow>
          (let ps1 = (if drop_bit 7 addr1 \<noteq> 0
                      then put_pic ps 0 ((pics ps 0)\<lparr>isr := isr (pics ps 0) AND NOT (BIT 2),
                             irr := irr (pics ps 0) AND NOT (BIT 2)\<rparr>)
                      else ps);
               s = pics ps1 i;
               ps2 = put_pic ps1 i (s\<lparr>irr := irr s AND NOT (BIT ret), isr := isr s AND NOT (BIT ret)\<rparr>)
           in (of_nat ret,
               if drop_bit 7 addr1 \<noteq> 0 \<or> ret \<noteq> 2 then pic_update_irq ps2 w else (ps2, w)))
      | None \<Rightarrow> (7, pic_update_irq ps w))"

definition pic_ioport_read :: "'w PicState2 \<Rightarrow> nat \<Rightarrow> u32 \<Rightarrow> 'w \<Rightarrow> u32 \<times> 'w PicState2 \<times> 'w" where
  "pic_ioport_read ps i addr1 w =
     (let s = pics ps i in
      if poll s \<noteq> 0 then
        (let (ret, ps1, w1) = pic_poll_read ps i addr1 w
         in (ret, put_pic ps1 i ((pics ps1 i)\<lparr>poll := 0\<rparr>), w1))
      else if addr1 AND 1 = 0 then
        (if read_reg_select s \<noteq> 0 then (ucast (isr s), ps, w) else (ucast (irr s), ps, w))
      else (ucast (imr s), ps, w))"

definition pic_intack_read :: "'w PicState2 \<Rightarrow> 'w \<Rightarrow> u32 \<times> 'w PicState2 \<times> 'w" where
  "pic_intack_read ps w =
     (let (ret, ps1, w1) = pic_poll_read ps 0 0x00 w;
          (ret', ps2, w2) =
            (if ret = 2 then (let (r, p, v) = pic_poll_read ps1 1 0x80 w1 in (r + 8, p, v))
             else (ret, ps1, w1))
      in (ret', put_pic ps2 0 ((pics ps2 0)\<lparr>read_reg_select := 1\<rparr>), w2))"

definition elcr_ioport_write :: "'w PicState2 \<Rightarrow> nat \<Rightarrow> u32 \<Rightarrow> 'w PicState2" where
  "elcr_ioport_write ps i val =
     put_pic ps i ((pics ps i)\<lparr>elcr := ucast val AND elcr_mask (pics ps i)\<rparr>)"

definition elcr_ioport_read :: "'w PicState2 \<Rightarrow> nat \<Rightarrow> u32" where
  "elcr_ioport_read ps i = ucast (elcr (pics ps i))"

text \<open>
  \<^verbatim>\<open>i8259_init\<close>: a zeroed pair with the two ELCR masks and the parent pin (the registration of
  the ports, the reset handler and the VM state is done by \<^verbatim>\<open>pic_init1\<close>).
\<close>

definition pic_zero :: PicState where
  "pic_zero = \<lparr>last_irr = 0, irr = 0, imr = 0, isr = 0, priority_add = 0, irq_base = 0,
     read_reg_select = 0, poll = 0, special_mask = 0, init_state = 0, auto_eoi = 0,
     rotate_on_auto_eoi = 0, special_fully_nested_mode = 0, init4 = 0, single_mode = 0,
     elcr = 0, elcr_mask = 0\<rparr>"

definition i8259_init :: "'w qemu_irq \<Rightarrow> 'w PicState2" where
  "i8259_init parent =
     \<lparr>pics = (\<lambda>i. if i = 0 then pic_zero\<lparr>elcr_mask := 0xf8\<rparr>
                  else if i = 1 then pic_zero\<lparr>elcr_mask := 0xde\<rparr> else pic_zero),
      parent_irq = parent\<rparr>"

section \<open>Specification\<close>

text \<open>
  The rank of a line: its distance from the line that currently has the highest priority.
\<close>

definition line_rank :: "PicState \<Rightarrow> nat \<Rightarrow> nat" where
  "line_rank s k = (k + 8 - unat (priority_add s) mod 8) mod 8"

definition wanted :: "PicState \<Rightarrow> nat \<Rightarrow> bool" where
  "wanted s k \<longleftrightarrow> bit (irr s) k \<and> \<not> bit (imr s) k"

definition in_service :: "nat \<Rightarrow> PicState \<Rightarrow> nat \<Rightarrow> bool" where
  "in_service i s k \<longleftrightarrow> bit (isr s) k \<and> \<not> (special_mask s \<noteq> 0 \<and> bit (imr s) k) \<and>
     \<not> (special_fully_nested_mode s \<noteq> 0 \<and> i = 0 \<and> k = 2)"

definition deliverable :: "nat \<Rightarrow> PicState \<Rightarrow> nat \<Rightarrow> bool" where
  "deliverable i s r \<longleftrightarrow> r < 8 \<and> wanted s r \<and>
     (\<forall>k<8. wanted s k \<longrightarrow> line_rank s r \<le> line_rank s k) \<and>
     (\<forall>k<8. in_service i s k \<longrightarrow> line_rank s r < line_rank s k)"

definition pic_wf :: "PicState \<Rightarrow> bool" where
  "pic_wf s \<longleftrightarrow> priority_add s < 8 \<and> init_state s \<le> 3 \<and> elcr s AND NOT (elcr_mask s) = 0 \<and>
     irq_base s AND 7 = 0"

definition pics_wf :: "'w PicState2 \<Rightarrow> bool" where
  "pics_wf ps \<longleftrightarrow> (\<forall>i. pic_wf (pics ps i)) \<and> elcr_mask (pics ps 0) = 0xf8"

datatype pic_op = SetIrq nat int | ReadIrq | PortWrite nat u32 u32 | PortRead nat u32
  | IntackRead | ElcrWrite nat u32

text \<open>One access of the machine; \<open>None\<close> is the emulator aborted by \<^verbatim>\<open>hw_error\<close>.\<close>

fun pic_step :: "('w PicState2 \<times> 'w) option \<Rightarrow> pic_op \<Rightarrow> ('w PicState2 \<times> 'w) option" where
  "pic_step None op = None"
| "pic_step (Some (ps, w)) (SetIrq n l) = Some (i8259_set_irq ps n l w)"
| "pic_step (Some (ps, w)) ReadIrq = Some (snd (pic_read_irq ps w))"
| "pic_step (Some (ps, w)) (PortWrite i a v) = pic_ioport_write ps i a v w"
| "pic_step (Some (ps, w)) (PortRead i a) = Some (snd (pic_ioport_read ps i a w))"
| "pic_step (Some (ps, w)) IntackRead = Some (snd (pic_intack_read ps w))"
| "pic_step (Some (ps, w)) (ElcrWrite i v) = Some (elcr_ioport_write ps i v, w)"

definition pic_inv :: "('w PicState2 \<times> 'w) option \<Rightarrow> bool" where
  "pic_inv r = (case r of None \<Rightarrow> True | Some (ps, w) \<Rightarrow> pics_wf ps)"

text \<open>
  The sixteen pins that \<^verbatim>\<open>i8259_init\<close> returns: the world a device drives is the controller pair
  together with the CPU behind it.
\<close>

definition i8259_pin :: "nat \<Rightarrow> ('w PicState2 \<times> 'w) qemu_irq" where
  "i8259_pin n = qemu_allocate_irqs (\<lambda>k l (ps, w). i8259_set_irq ps (nat k) l w) 16 ! n"

definition i8259_level :: "nat \<Rightarrow> 'w PicState2 \<times> 'w \<Rightarrow> bool" where
  "i8259_level n pw \<longleftrightarrow> bit (last_irr (pics (fst pw) (n div 8))) (n mod 8)"

abbreviation i8259_line :: "nat \<Rightarrow> bool" where
  "i8259_line n \<equiv> n < 16 \<and> n \<noteq> 2"

definition pic_quiet :: "PicState \<Rightarrow> bool" where
  "pic_quiet s \<longleftrightarrow> irr s = 0 \<and> isr s = 0 \<and> last_irr s = 0"

definition irq_enabled :: "'w PicState2 \<Rightarrow> nat \<Rightarrow> bool" where
  "irq_enabled ps n \<longleftrightarrow> \<not> bit (imr (pics ps (n div 8))) (n mod 8) \<and>
     (8 \<le> n \<longrightarrow> \<not> bit (imr (pics ps 0)) 2)"

section \<open>Priority resolution\<close>

lemma get_priority_loop_finds:
  assumes "bit msk ((p + add) mod 8)" and "q \<le> p"
    and "\<And>k. q \<le> k \<Longrightarrow> k < p \<Longrightarrow> \<not> bit msk ((k + add) mod 8)"
  shows "get_priority_loop msk add q = Some p"
  using assms(2,3)
proof (induction "p - q" arbitrary: q)
  case 0
  then have "q = p" by simp
  with assms(1) show ?case by (simp add: get_priority_loop.simps)
next
  case (Suc d)
  then have "\<not> bit msk ((q + add) mod 8)" by simp
  moreover have "get_priority_loop msk add (q + 1) = Some p"
    using Suc.hyps Suc.prems by (intro Suc.hyps(1)) auto
  ultimately show ?case by (simp add: get_priority_loop.simps [of msk add q])
qed

lemma line_rank_less [simp]: "line_rank s k < 8"
  by (simp add: line_rank_def)

lemma line_of_rank:
  assumes "k < 8"
  shows "(line_rank s k + unat (priority_add s)) mod 8 = k"
proof -
  let ?a = "unat (priority_add s)"
  have "(line_rank s k + ?a) mod 8 = (k + 8 - ?a mod 8 + ?a mod 8) mod 8"
    unfolding line_rank_def by (simp only: mod_add_left_eq mod_add_right_eq)
  moreover have "?a mod 8 \<le> k + 8" by (rule order.trans [of _ 8]) simp_all
  ultimately show ?thesis using assms by simp
qed

lemma rank_of_line:
  assumes "p < 8"
  shows "line_rank s ((p + unat (priority_add s)) mod 8) = p"
proof -
  let ?a = "unat (priority_add s) mod 8"
  have a: "?a < 8" by simp
  have "line_rank s ((p + unat (priority_add s)) mod 8) = ((p + ?a) mod 8 + (8 - ?a)) mod 8"
    unfolding line_rank_def using a by (simp add: mod_add_right_eq)
  also have "\<dots> = (p + ?a + (8 - ?a)) mod 8"
    by (simp only: mod_add_left_eq)
  also have "\<dots> = p" using a assms by simp
  finally show ?thesis .
qed

lemma u8_nonzero_bit: "(m :: u8) \<noteq> 0 \<Longrightarrow> \<exists>k<8. bit m k"
  using word_eq_0_iff_bit [of m] by auto

lemma get_priority_nonzero:
  assumes "m \<noteq> 0"
  shows "get_priority s m < 8" (is ?A)
    and "bit m ((get_priority s m + unat (priority_add s)) mod 8)" (is ?B)
    and "k < 8 \<Longrightarrow> bit m k \<Longrightarrow> get_priority s m \<le> line_rank s k"
    and "get_priority_loop m (unat (priority_add s)) 0 = Some (get_priority s m)"
proof -
  let ?P = "\<lambda>p. bit m ((p + unat (priority_add s)) mod 8)"
  obtain k where k: "k < 8" "bit m k" using u8_nonzero_bit [OF assms] by blast
  define p where "p = (LEAST p. ?P p)"
  have ex: "?P (line_rank s k)" if "k < 8" "bit m k" for k
    using that by (simp add: line_of_rank)
  have P: "?P p" unfolding p_def using ex [OF k] by (rule LeastI)
  have least: "p \<le> line_rank s k" if "k < 8" "bit m k" for k
    unfolding p_def using ex [OF that] by (rule Least_le)
  have loop: "get_priority_loop m (unat (priority_add s)) 0 = Some p"
    using P not_less_Least unfolding p_def by (intro get_priority_loop_finds) auto
  have gp: "get_priority s m = p" using assms loop by (simp add: get_priority_def)
  show ?A unfolding gp using least [OF k] line_rank_less by (rule le_less_trans)
  show ?B using P by (simp add: gp)
  show "get_priority s m \<le> line_rank s k" if "k < 8" "bit m k" for k
    using least [OF that] by (simp add: gp)
  show "get_priority_loop m (unat (priority_add s)) 0 = Some (get_priority s m)"
    using loop by (simp add: gp)
qed

lemma get_priority_eq_8 [simp]: "get_priority s m = 8 \<longleftrightarrow> m = 0"
  using get_priority_nonzero(1) [of m s] by (cases "m = 0") (auto simp: get_priority_def)

lemma get_priority_zero [simp]: "get_priority s 0 = 8"
  by (simp add: get_priority_def)

lemma get_priority_unique:
  assumes "k < 8" and "bit m k" and "\<And>j. j < 8 \<Longrightarrow> bit m j \<Longrightarrow> line_rank s k \<le> line_rank s j"
  shows "get_priority s m = line_rank s k"
proof -
  have m: "m \<noteq> 0" using assms(2) by auto
  let ?j = "(get_priority s m + unat (priority_add s)) mod 8"
  have "line_rank s ?j = get_priority s m"
    using get_priority_nonzero(1) [OF m] by (rule rank_of_line)
  then have "line_rank s k \<le> get_priority s m"
    using assms(3) [of ?j] get_priority_nonzero(2) [OF m, of s] by simp
  with get_priority_nonzero(3) [OF m assms(1,2), of s] show ?thesis by simp
qed

lemma line_rank_inj: "j < 8 \<Longrightarrow> k < 8 \<Longrightarrow> line_rank s j = line_rank s k \<Longrightarrow> j = k"
  by (metis line_of_rank)

lemma get_priority_gt:
  assumes "p < 8"
  shows "p < get_priority s m \<longleftrightarrow> (\<forall>k<8. bit m k \<longrightarrow> p < line_rank s k)"
proof (cases "m = 0")
  case True
  with assms show ?thesis by simp
next
  case False
  let ?j = "(get_priority s m + unat (priority_add s)) mod 8"
  have "line_rank s ?j = get_priority s m"
    using get_priority_nonzero(1) [OF False] by (rule rank_of_line)
  then show ?thesis
    using get_priority_nonzero(2,3) [OF False] by (metis mod_less_divisor order_less_le_trans zero_less_numeral)
qed

lemma pic_get_irq_deliverable:
  "pic_get_irq i s = Some r \<longleftrightarrow> deliverable i s r"
proof -
  define req where "req = irr s AND NOT (imr s)"
  define srv where "srv = (let mask2 = (if special_mask s \<noteq> 0 then isr s AND NOT (imr s) else isr s)
     in if special_fully_nested_mode s \<noteq> 0 \<and> i = 0 then mask2 AND NOT (BIT 2) else mask2)"
  have req: "bit req k \<longleftrightarrow> wanted s k" for k
    unfolding req_def wanted_def by (auto simp: bit_simps dest: bit_imp_le_length)
  have srv: "bit srv k \<longleftrightarrow> in_service i s k" for k
    unfolding srv_def in_service_def Let_def by (auto simp: bit_simps dest: bit_imp_le_length)
  have eq: "pic_get_irq i s = (if req \<noteq> 0 \<and> get_priority s req < get_priority s srv
      then Some ((get_priority s req + unat (priority_add s)) mod 8) else None)"
    unfolding pic_get_irq_def req_def srv_def by (simp add: Let_def)
  show ?thesis
  proof
    assume "pic_get_irq i s = Some r"
    then have r: "r = (get_priority s req + unat (priority_add s)) mod 8" and nz: "req \<noteq> 0"
      and lt: "get_priority s req < get_priority s srv"
      by (auto simp: eq split: if_splits)
    have p8: "get_priority s req < 8" using nz by (rule get_priority_nonzero)
    have "line_rank s r = get_priority s req" unfolding r using p8 by (rule rank_of_line)
    then show "deliverable i s r"
      using get_priority_nonzero(2,3) [OF nz, where s = s] lt get_priority_gt [OF p8, of s srv]
      unfolding deliverable_def by (auto simp: r req srv)
  next
    assume d: "deliverable i s r"
    then have gp: "get_priority s req = line_rank s r"
      unfolding deliverable_def by (intro get_priority_unique) (auto simp: req)
    have "req \<noteq> 0" using d req [of r] by (auto simp: deliverable_def)
    moreover have "get_priority s req < get_priority s srv"
      using d unfolding gp get_priority_gt [OF line_rank_less] by (simp add: deliverable_def srv)
    ultimately show "pic_get_irq i s = Some r"
      using d by (simp add: eq gp line_of_rank deliverable_def)
  qed
qed

text \<open>
  C6.  A controller offers line \<open>r\<close> to its output exactly when the rotating-priority arbitration
  of the 8259 says so: the line is requested and not masked, no unmasked requested line has a
  better rank, and every line that counts as in service (special mask mode hides the masked
  ones, special fully nested mode hides the master's cascade line) has a strictly worse rank.
\<close>

theorem pic_get_irq_iff_deliverable:
  "pic_get_irq i s = Some r \<longleftrightarrow> deliverable i s r"
  by (rule pic_get_irq_deliverable)

text \<open>
  The unbounded search loop of \<^verbatim>\<open>get_priority\<close> ends for every non-zero request mask, at a
  priority below 8, whatever \<^verbatim>\<open>priority_add\<close> holds; the zero mask, on which it would run forever,
  is the case the function tests first.
\<close>

theorem get_priority_terminates:
  assumes "m \<noteq> 0"
  shows "get_priority_loop m (unat (priority_add s)) 0 = Some (get_priority s m) \<and> get_priority s m < 8"
  using get_priority_nonzero(1,4) [OF assms] by simp

theorem get_priority_terminates_witness:
  "\<exists>p < 8. get_priority_loop 0x90 (unat (priority_add (pic_zero\<lparr>priority_add := 5\<rparr>))) 0 = Some p"
  using get_priority_terminates [of "0x90" "pic_zero\<lparr>priority_add := 5\<rparr>"] by auto

lemma pic_get_irq_less: "pic_get_irq i s = Some r \<Longrightarrow> r < 8"
  by (simp add: pic_get_irq_deliverable deliverable_def)

lemma pic_get_irq_idle: "irr s = 0 \<Longrightarrow> pic_get_irq i s = None"
  by (simp add: pic_get_irq_def)

lemma pic_get_irq_single:
  assumes "k < 8" and "irr s = BIT k" and "\<not> bit (imr s) k" and "isr s = 0"
  shows "pic_get_irq i s = Some k"
  using assms
  by (auto simp: pic_get_irq_deliverable deliverable_def wanted_def in_service_def)

section \<open>Invariant\<close>

lemma pic_wf_request [simp]:
  "pic_wf (s\<lparr>irr := a\<rparr>) = pic_wf s" "pic_wf (s\<lparr>last_irr := a\<rparr>) = pic_wf s"
  "pic_wf (s\<lparr>imr := a\<rparr>) = pic_wf s" "pic_wf (s\<lparr>isr := a\<rparr>) = pic_wf s"
  "pic_wf (s\<lparr>poll := a\<rparr>) = pic_wf s" "pic_wf (s\<lparr>read_reg_select := a\<rparr>) = pic_wf s"
  "pic_wf (s\<lparr>special_mask := a\<rparr>) = pic_wf s" "pic_wf (s\<lparr>rotate_on_auto_eoi := a\<rparr>) = pic_wf s"
  "pic_wf (s\<lparr>auto_eoi := a\<rparr>) = pic_wf s"
  "pic_wf (s\<lparr>special_fully_nested_mode := a\<rparr>) = pic_wf s"
  "pic_wf (s\<lparr>init4 := a\<rparr>) = pic_wf s" "pic_wf (s\<lparr>single_mode := a\<rparr>) = pic_wf s"
  by (simp_all add: pic_wf_def)

lemma of_nat_mod_8: "(of_nat (k mod 8) :: u8) < 8"
  by (simp add: word_less_nat_alt unat_of_nat)

lemma and_7_less: "((v :: u32) AND 7) < 8" "(ucast ((v :: u32) AND 7) :: u8) < 8"
proof -
  have "unat (v AND 7) \<le> 7" using unat_and_le [of v 7] by simp
  then show "v AND 7 < 8" "(ucast (v AND 7) :: u8) < 8"
    by (simp_all add: word_less_nat_alt unat_ucast_small)
qed

lemma pic_set_irq1_wf [dev_inv]: "pic_wf (pic_set_irq1 s irq l) = pic_wf s"
  by (simp add: pic_set_irq1_def Let_def pic_wf_def)

lemma pic_set_irq1_frame [simp]:
  "elcr_mask (pic_set_irq1 s irq l) = elcr_mask s" "elcr (pic_set_irq1 s irq l) = elcr s"
  "imr (pic_set_irq1 s irq l) = imr s" "isr (pic_set_irq1 s irq l) = isr s"
  "irq_base (pic_set_irq1 s irq l) = irq_base s"
  by (simp_all add: pic_set_irq1_def Let_def)

lemma pic_intack_wf [dev_inv]: "pic_wf s \<Longrightarrow> pic_wf (pic_intack s irq)"
  by (simp add: pic_intack_def Let_def pic_wf_def of_nat_mod_8)

lemma pic_intack_frame [simp]:
  "elcr_mask (pic_intack s irq) = elcr_mask s" "elcr (pic_intack s irq) = elcr s"
  "irq_base (pic_intack s irq) = irq_base s" "imr (pic_intack s irq) = imr s"
  by (simp_all add: pic_intack_def Let_def)

lemma pic_reset_wf [dev_inv]: "pic_wf s \<Longrightarrow> pic_wf (pic_reset s)"
  by (simp add: pic_reset_def pic_wf_def)

lemma pics_wf_put [dev_inv]:
  "pics_wf ps \<Longrightarrow> pic_wf s \<Longrightarrow> elcr_mask s = elcr_mask (pics ps i) \<Longrightarrow> pics_wf (put_pic ps i s)"
  by (auto simp: pics_wf_def put_pic_def)

lemma pics_wf_upd [dev_inv]:
  "pics_wf (ps\<lparr>pics := f\<rparr>) \<longleftrightarrow> (\<forall>i. pic_wf (f i)) \<and> elcr_mask (f 0) = 0xf8"
  by (simp add: pics_wf_def)

lemma pics_wf_mask [dev_inv]: "pics_wf ps \<Longrightarrow> elcr_mask (pics ps 0) = 0xf8"
  by (simp add: pics_wf_def)

lemma pics_wf_get [dev_inv]: "pics_wf ps \<Longrightarrow> pic_wf (pics ps i)"
  by (simp add: pics_wf_def)

lemma pic_update_irq_wf [dev_inv]: "pics_wf ps \<Longrightarrow> pics_wf (fst (pic_update_irq ps w))"
  by (auto simp: pics_wf_def pic_update_irq_def Let_def pic_set_irq1_wf)

lemma i8259_set_irq_wf [dev_inv]: "pics_wf ps \<Longrightarrow> pics_wf (fst (i8259_set_irq ps n l w))"
  by (simp add: i8259_set_irq_def Let_def dev_inv)

lemma pic_read_irq_wf [dev_inv]: "pics_wf ps \<Longrightarrow> pics_wf (fst (snd (pic_read_irq ps w)))"
  by (simp add: pic_read_irq_def Let_def dev_inv split: option.split)

lemma pic_poll_read_wf [dev_inv]: "pics_wf ps \<Longrightarrow> pics_wf (fst (snd (pic_poll_read ps i a w)))"
  by (simp add: pic_poll_read_def Let_def dev_inv split: option.split)

lemma pic_ioport_read_wf [dev_inv]: "pics_wf ps \<Longrightarrow> pics_wf (fst (snd (pic_ioport_read ps i a w)))"
  by (simp add: pic_ioport_read_def Let_def dev_inv case_prod_beta)

lemma pic_intack_read_wf [dev_inv]: "pics_wf ps \<Longrightarrow> pics_wf (fst (snd (pic_intack_read ps w)))"
  by (simp add: pic_intack_read_def Let_def dev_inv case_prod_beta)

lemma elcr_ioport_write_wf [dev_inv]: "pics_wf ps \<Longrightarrow> pics_wf (elcr_ioport_write ps i v)"
  unfolding elcr_ioport_write_def
  by (rule pics_wf_put) (auto simp: pics_wf_def pic_wf_def bit_eq_iff bit_simps)

lemma irq_base_mask: "(ucast ((v :: u32) AND 0xf8) :: u8) AND 7 = 0"
proof -
  have 7: "(7 :: u8) = mask 3" and f8: "(0xf8 :: u32) = mask 8 AND NOT (mask 3)"
    by (simp_all add: mask_eq_exp_minus_1)
  show ?thesis unfolding 7 f8 by (auto simp: bit_eq_iff bit_simps)
qed

lemma pic_ioport_write_wf [dev_inv]:
  assumes "pics_wf ps" and "pic_ioport_write ps i a v w = Some (ps', w')"
  shows "pics_wf ps'"
proof -
  have i: "pic_wf (pics ps i)" using assms(1) by (rule pics_wf_get)
  have u: "pics_wf ps'" if "pic_update_irq (put_pic ps i s) w = (ps', w')"
    "pic_wf s" "elcr_mask s = elcr_mask (pics ps i)" for s
    using pic_update_irq_wf [of "put_pic ps i s" w] pics_wf_put [OF assms(1) that(2,3)] that(1)
    by simp
  have p: "pics_wf (put_pic ps i s)"
    if "pic_wf s" "elcr_mask s = elcr_mask (pics ps i)" for s
    using assms(1) that by (rule pics_wf_put)
  show ?thesis
    using assms i
    by (auto simp: pic_ioport_write_def Let_def pic_wf_def pic_reset_def of_nat_mod_8 and_7_less
        irq_base_mask split: if_splits intro!: p dest!: u)
qed

lemma pic_inv_Some: "pic_inv (Some r) = pics_wf (fst r)"
  by (simp add: pic_inv_def case_prod_beta)

lemma pic_inv_init: "pic_inv (Some (i8259_init parent, w))"
  by (simp add: pic_inv_Some pics_wf_def i8259_init_def pic_wf_def pic_zero_def)

lemma pic_step_inv: "pic_inv r \<Longrightarrow> pic_inv (pic_step r op)"
proof (cases "(r, op)" rule: pic_step.cases)
  case (4 ps w i a v)
  assume "pic_inv r"
  with 4 show ?thesis
    using pic_ioport_write_wf [of ps i a v w]
    by (cases "pic_ioport_write ps i a v w") (auto simp: pic_inv_def)
qed (simp_all add: pic_inv_Some dev_inv pic_inv_def [of None])

interpretation picm: device pic_step "\<lambda>_. True" pic_inv
  by unfold_locales (rule pic_step_inv)

lemma pic_reachable_wf:
  assumes "run pic_step (Some (i8259_init parent, w)) ops = Some (ps, w')"
  shows "pics_wf ps"
proof -
  have "pic_inv (run pic_step (Some (i8259_init parent, w)) ops)"
    by (rule picm.run_inv [OF pic_inv_init]) (simp add: list_all_iff)
  then show ?thesis using assms by (simp add: pic_inv_def)
qed

lemma uint_base_mod_8:
  assumes "(b :: u8) AND 7 = 0" shows "uint b mod 8 = 0" "uint b + 7 < 256"
proof -
  have "unat (b AND mask 3) = unat b mod 8" using unat_and_mask [of b 3] by simp
  moreover have "b AND mask 3 = 0" using assms by (simp add: mask_eq_exp_minus_1)
  ultimately have m: "unat b mod 8 = 0" by simp
  then obtain q where q: "unat b = 8 * q" by auto
  have u: "uint b = int (unat b)" by simp
  show "uint b mod 8 = 0" unfolding u q by simp
  have "unat b < 256" using unat_less [of b] by simp
  then show "uint b + 7 < 256" unfolding u q by simp
qed

text \<open>
  C8.  Whatever the guest and the devices did since \<^verbatim>\<open>i8259_init\<close> (as long as the emulator did
  not abort), the vector that \<^verbatim>\<open>pic_read_irq\<close> hands to the CPU lies in the eight-vector block
  that ICW2 programmed for one of the two controllers, and that block is aligned and fits in
  the 256 vectors.
\<close>

theorem pic_vector_in_block:
  assumes "run pic_step (Some (i8259_init parent, w)) ops = Some (ps, w')"
  shows "\<exists>i \<le> 1. uint (irq_base (pics ps i)) mod 8 = 0 \<and>
    uint (irq_base (pics ps i)) \<le> fst (pic_read_irq ps w') \<and>
    fst (pic_read_irq ps w') \<le> uint (irq_base (pics ps i)) + 7 \<and> fst (pic_read_irq ps w') < 256"
proof -
  have b: "uint (irq_base (pics ps i)) mod 8 = 0" "uint (irq_base (pics ps i)) + 7 < 256" for i
    using pics_wf_get [OF pic_reachable_wf [OF assms], of i] uint_base_mod_8 [of "irq_base (pics ps i)"]
    by (simp_all add: pic_wf_def)
  have r: "\<exists>i \<le> 1. \<exists>k \<le> 7. fst (pic_read_irq ps w') = uint (irq_base (pics ps i)) + int k"
  proof (cases "pic_get_irq 0 (pics ps 0)")
    case None
    then have "fst (pic_read_irq ps w') = uint (irq_base (pics ps 0)) + int 7"
      by (simp add: pic_read_irq_def)
    then show ?thesis using zero_le_one by blast
  next
    case (Some m)
    then have "m \<le> 7" using pic_get_irq_less by fastforce
    show ?thesis
    proof (cases "m = 2")
      case False
      then have "fst (pic_read_irq ps w') = uint (irq_base (pics ps 0)) + int m" using Some
        by (simp add: pic_read_irq_def Let_def)
      then show ?thesis using \<open>m \<le> 7\<close> zero_le_one by blast
    next
      case True
      have "\<exists>k \<le> 7. fst (pic_read_irq ps w') = uint (irq_base (pics ps 1)) + int k"
        using Some True pic_get_irq_less [of 1 "pics ps 1"]
        by (cases "pic_get_irq 1 (pics ps 1)")
           (auto simp: pic_read_irq_def Let_def intro!: exI [of _ "7::nat"])
      then show ?thesis by blast
    qed
  qed
  then obtain i k where i: "i \<le> 1" and k: "k \<le> 7"
    and v: "fst (pic_read_irq ps w') = uint (irq_base (pics ps i)) + int k" by blast
  show ?thesis by (rule exI [of _ i]) (use i k v b [of i] in simp)
qed

theorem pic_vector_in_block_witness:
  "\<exists>ps w'. run pic_step (Some (i8259_init None, ()))
      [PortWrite 0 0 0x11, PortWrite 0 1 0x08, PortWrite 0 1 0x04, PortWrite 0 1 0x01] = Some (ps, w') \<and>
    (\<exists>i \<le> 1. uint (irq_base (pics ps i)) mod 8 = 0 \<and>
      uint (irq_base (pics ps i)) \<le> fst (pic_read_irq ps w') \<and>
      fst (pic_read_irq ps w') \<le> uint (irq_base (pics ps i)) + 7 \<and> fst (pic_read_irq ps w') < 256)"
proof -
  have "\<exists>r. run pic_step (Some (i8259_init None, ()))
      [PortWrite 0 0 0x11, PortWrite 0 1 0x08, PortWrite 0 1 0x04, PortWrite 0 1 0x01] = Some r"
    by (simp add: pic_ioport_write_def put_pic_def Let_def)
  then obtain ps w' where r: "run pic_step (Some (i8259_init None, ()))
      [PortWrite 0 0 0x11, PortWrite 0 1 0x08, PortWrite 0 1 0x04, PortWrite 0 1 0x01] = Some (ps, w')"
    by auto
  show ?thesis
    by (rule exI [of _ ps], rule exI [of _ w'], rule conjI, rule r, rule pic_vector_in_block [OF r])
qed

lemma and_not_bit_2: "(e :: u8) AND NOT 0xf8 = 0 \<Longrightarrow> \<not> bit e 2"
proof -
  assume e: "e AND NOT 0xf8 = 0"
  have "bit (e AND NOT 0xf8) 2 = bit e 2" by (simp add: bit_simps)
  with e show ?thesis by simp
qed

lemma set_i8259_pin:
  "n < 16 \<Longrightarrow> qemu_set_irq (i8259_pin n) l (ps, w) = i8259_set_irq ps n l w"
  by (simp add: i8259_pin_def qemu_set_irq_allocated)

lemma last_irr_set_irq1:
  "k < 8 \<Longrightarrow> bit (last_irr (pic_set_irq1 s k l)) j \<longleftrightarrow> (if j = k then l \<noteq> 0 else bit (last_irr s) j)"
  by (auto simp: pic_set_irq1_def Let_def)

lemma last_irr_update:
  "\<not> (i = 0 \<and> j = 2) \<Longrightarrow>
     bit (last_irr (pics (fst (pic_update_irq ps w)) i)) j = bit (last_irr (pics ps i)) j"
  by (auto simp: pic_update_irq_def Let_def last_irr_set_irq1)

lemma i8259_level_set:
  assumes "i8259_line n" and "i8259_line m"
  shows "i8259_level m (qemu_set_irq (i8259_pin n) l pw) = (if m = n then l \<noteq> 0 else i8259_level m pw)"
proof -
  have m: "\<not> (m div 8 = 0 \<and> m mod 8 = 2)" using assms by presburger
  have eq: "m = n \<longleftrightarrow> m div 8 = n div 8 \<and> m mod 8 = n mod 8" by (metis div_mult_mod_eq)
  obtain ps w where "pw = (ps, w)" by force
  then show ?thesis using assms m eq
    by (auto simp: set_i8259_pin i8259_level_def i8259_set_irq_def last_irr_update last_irr_set_irq1 Let_def)
qed

interpretation isa: irq_lines i8259_pin i8259_level i8259_line
  by unfold_locales (simp_all add: i8259_level_set)

lemma irr_set_irq1_raise:
  assumes "k < 8" and "irr s = 0" and "last_irr s = 0"
  shows "irr (pic_set_irq1 s k 1) = BIT k"
  using assms by (simp add: pic_set_irq1_def Let_def)

lemma irr_set_irq1_pulse:
  assumes "k < 8" and "irr s = 0" and "last_irr s = 0" and "\<not> bit (elcr s) k"
  shows "irr (pic_set_irq1 (pic_set_irq1 s k 1) k 0) = BIT k"
  using assms by (simp add: pic_set_irq1_def Let_def and_BIT_eq_0)

lemma deliver_master:
  assumes "n < 8" and "n \<noteq> 2" and "pic_quiet (pics ps 0)" and "pic_quiet (pics ps 1)"
    and "\<not> bit (imr (pics ps 0)) n"
  shows "snd (i8259_set_irq ps n 1 w) = qemu_irq_raise (parent_irq ps) w"
    and "fst (pic_read_irq (fst (i8259_set_irq ps n 1 w)) w') = uint (irq_base (pics ps 0)) + int n"
proof -
  let ?s = "pic_set_irq1 (pics ps 0) n 1"
  have g: "pic_get_irq 0 ?s = Some n"
    using assms by (intro pic_get_irq_single) (simp_all add: pic_quiet_def irr_set_irq1_raise)
  have s: "pic_get_irq 1 (pics ps 1) = None"
    using assms by (simp add: pic_get_irq_idle pic_quiet_def)
  show "snd (i8259_set_irq ps n 1 w) = qemu_irq_raise (parent_irq ps) w"
    using assms g s by (simp add: i8259_set_irq_def pic_update_irq_def Let_def)
  show "fst (pic_read_irq (fst (i8259_set_irq ps n 1 w)) w') = uint (irq_base (pics ps 0)) + int n"
    using assms g s by (simp add: i8259_set_irq_def pic_update_irq_def pic_read_irq_def Let_def)
qed

lemma deliver_slave:
  assumes "k < 8" and "pic_quiet (pics ps 0)" and "pic_quiet (pics ps 1)"
    and "\<not> bit (imr (pics ps 1)) k" and "\<not> bit (imr (pics ps 0)) 2" and "\<not> bit (elcr (pics ps 0)) 2"
  shows "snd (i8259_set_irq ps (8 + k) 1 w) = qemu_irq_raise (parent_irq ps) w"
    and "fst (pic_read_irq (fst (i8259_set_irq ps (8 + k) 1 w)) w') = uint (irq_base (pics ps 1)) + int k"
proof -
  let ?s = "pic_set_irq1 (pics ps 1) k 1"
  let ?m = "pic_set_irq1 (pic_set_irq1 (pics ps 0) 2 1) 2 0"
  have g: "pic_get_irq 1 ?s = Some k"
    using assms by (intro pic_get_irq_single) (simp_all add: pic_quiet_def irr_set_irq1_raise)
  have m: "pic_get_irq 0 ?m = Some 2"
    using assms by (intro pic_get_irq_single) (simp_all add: pic_quiet_def irr_set_irq1_pulse)
  have d: "(8 + k) div 8 = 1" "(8 + k) mod 8 = k" using assms(1) by auto
  show "snd (i8259_set_irq ps (8 + k) 1 w) = qemu_irq_raise (parent_irq ps) w"
    using g m d by (simp add: i8259_set_irq_def pic_update_irq_def Let_def)
  show "fst (pic_read_irq (fst (i8259_set_irq ps (8 + k) 1 w)) w') = uint (irq_base (pics ps 1)) + int k"
    using g m d by (simp add: i8259_set_irq_def pic_update_irq_def pic_read_irq_def Let_def)
qed

lemma i8259_raise_delivers:
  assumes "run pic_step (Some (i8259_init parent, w0)) ops = Some (ps, w)"
    and "pic_quiet (pics ps 0)" and "pic_quiet (pics ps 1)"
    and "n < 16" and "n \<noteq> 2" and "irq_enabled ps n"
  shows "snd (i8259_set_irq ps n 1 w) = qemu_irq_raise (parent_irq ps) w \<and>
    fst (pic_read_irq (fst (i8259_set_irq ps n 1 w)) w') =
      uint (irq_base (pics ps (n div 8))) + int (n mod 8)"
proof (cases "n < 8")
  case True
  then show ?thesis using deliver_master(1) [of n ps w] deliver_master(2) [of n ps w w'] assms by (simp add: irq_enabled_def)
next
  case False
  define k where "k = n - 8"
  have k: "n = 8 + k" "k < 8" using False assms(4) by (simp_all add: k_def)
  have "elcr (pics ps 0) AND NOT 0xf8 = 0"
    using pic_reachable_wf [OF assms(1)] pics_wf_get [of ps 0] by (auto simp: pic_wf_def pics_wf_def)
  then have "\<not> bit (elcr (pics ps 0)) 2"
    by (simp add: and_not_bit_2)
  moreover have d: "n div 8 = 1" "n mod 8 = k" using k by auto
  ultimately show ?thesis
    using deliver_slave(1) [of k ps w] deliver_slave(2) [of k ps w w'] assms k d by (simp add: irq_enabled_def)
qed

text \<open>
  C7.  End to end: in a machine reached by any accesses, when nothing is requested or in service
  and line \<open>n\<close> (not the cascade line 2) is unmasked, raising it raises the CPU's pin, and the
  acknowledge then returns the vector of exactly that line: the base of the controller that
  serves it plus its number there.  The lines of the slave pass through the cascade, which the
  ELCR write cannot turn into a level-triggered line.
\<close>

theorem i8259_delivers:
  assumes "run pic_step (Some (i8259_init parent, w0)) ops = Some (ps, w)"
    and "pic_quiet (pics ps 0)" and "pic_quiet (pics ps 1)"
    and "n < 16" and "n \<noteq> 2" and "irq_enabled ps n"
  shows "snd (i8259_set_irq ps n 1 w) = qemu_irq_raise (parent_irq ps) w \<and>
    fst (pic_read_irq (fst (i8259_set_irq ps n 1 w)) w') =
      uint (irq_base (pics ps (n div 8))) + int (n mod 8)"
  using assms by (rule i8259_raise_delivers)

theorem i8259_delivers_witness:
  "snd (i8259_set_irq (i8259_init (Some \<lparr>handler = \<lambda>n l w. l, line_no = 0\<rparr>)) 12 1 0) = 1 \<and>
   fst (pic_read_irq (fst (i8259_set_irq (i8259_init (Some \<lparr>handler = \<lambda>n l w. l, line_no = 0\<rparr>)) 12 1 0)) 1) = 4"
proof -
  let ?p = "Some \<lparr>handler = \<lambda>n l w. l, line_no = 0\<rparr> :: int qemu_irq"
  have r: "run pic_step (Some (i8259_init ?p, 0)) [] = Some (i8259_init ?p, 0)" by simp
  have "snd (i8259_set_irq (i8259_init ?p) 12 1 0) = qemu_irq_raise (parent_irq (i8259_init ?p)) 0 \<and>
    fst (pic_read_irq (fst (i8259_set_irq (i8259_init ?p) 12 1 0)) 1) =
      uint (irq_base (pics (i8259_init ?p) (12 div 8))) + int (12 mod 8)"
    by (rule i8259_delivers [OF r])
       (simp_all add: pic_quiet_def irq_enabled_def i8259_init_def pic_zero_def)
  then show ?thesis
    by (simp add: i8259_init_def pic_zero_def qemu_irq_raise_def qemu_set_irq_def)
qed

text \<open>
  The acknowledge consumes the request of an edge-triggered line: a line that stays high is
  not requested again, and only its falling and rising again requests it.  A level-triggered
  line stays requested as long as it is high, and drops its request when it falls.
\<close>

theorem pic_edge_level_request:
  "k < 8 \<Longrightarrow>
   (\<not> bit (elcr s) k \<longrightarrow>
      bit (last_irr s) k \<longrightarrow>
      (let s1 = pic_set_irq1 (pic_intack s k) k 1;
           s2 = pic_set_irq1 s1 k 0
       in \<not> bit (irr s1) k \<and> \<not> bit (irr s2) k \<and> bit (irr (pic_set_irq1 s2 k 1)) k)) \<and>
   (bit (elcr s) k \<longrightarrow>
      (let s1 = pic_set_irq1 s k 1
       in bit (irr (pic_intack s1 k)) k \<and> \<not> bit (irr (pic_set_irq1 (pic_intack s1 k) k 0)) k))"
  by (auto simp: pic_set_irq1_def pic_intack_def Let_def and_BIT_eq_0)

theorem pic_edge_level_request_witness:
  "let s = pic_zero\<lparr>last_irr := 1, irr := 1, elcr := 2\<rparr>;
       s1 = pic_set_irq1 (pic_intack s 0) 0 1;
       s2 = pic_set_irq1 s1 0 0;
       t1 = pic_set_irq1 s 1 1
   in \<not> bit (irr s1) 0 \<and> \<not> bit (irr s2) 0 \<and> bit (irr (pic_set_irq1 s2 0 1)) 0 \<and>
      bit (irr (pic_intack t1 1)) 1 \<and> \<not> bit (irr (pic_set_irq1 (pic_intack t1 1) 1 0)) 1"
  using pic_edge_level_request [of 0 "pic_zero\<lparr>last_irr := 1, irr := 1, elcr := 2\<rparr>"]
    pic_edge_level_request [of 1 "pic_zero\<lparr>last_irr := 1, irr := 1, elcr := 2\<rparr>"]
  by (simp add: Let_def bit_simps bit_numeral_rec)

lemma isr_update [simp]: "isr (pics (fst (pic_update_irq ps w)) i) = isr (pics ps i)"
  by (simp add: pic_update_irq_def Let_def)

text \<open>
  The non-specific end of interrupt (OCW2 0x20) ends the interrupt of the highest-priority
  line in service and no other, so that of nested interrupts the innermost is ended first; when
  nothing is in service it changes nothing.
\<close>

theorem pic_nonspecific_eoi:
  assumes "pic_ioport_write ps i addr 0x20 w = Some (ps', w')" and "addr AND 1 = 0"
  shows "(isr (pics ps i) = 0 \<longrightarrow> ps' = ps \<and> w' = w) \<and>
    (isr (pics ps i) \<noteq> 0 \<longrightarrow>
      (\<exists>k < 8. bit (isr (pics ps i)) k \<and>
         (\<forall>j < 8. bit (isr (pics ps i)) j \<longrightarrow> line_rank (pics ps i) k \<le> line_rank (pics ps i) j) \<and>
         isr (pics ps' i) = isr (pics ps i) AND NOT (BIT k)))"
proof -
  let ?s = "pics ps i"
  let ?p = "get_priority ?s (isr ?s)"
  let ?k = "(?p + unat (priority_add ?s)) mod 8"
  have w: "pic_ioport_write ps i addr 0x20 w =
      (if ?p \<noteq> 8 then Some (pic_update_irq (put_pic ps i (?s\<lparr>isr := isr ?s AND NOT (BIT ?k)\<rparr>)) w)
       else Some (ps, w))"
    using assms(2) by (simp add: pic_ioport_write_def Let_def)
  show ?thesis
  proof (cases "isr ?s = 0")
    case True
    then show ?thesis using w assms(1) by simp
  next
    case False
    then have "pic_update_irq (put_pic ps i (?s\<lparr>isr := isr ?s AND NOT (BIT ?k)\<rparr>)) w = (ps', w')"
      using w assms(1) by simp
    then have "ps' = fst (pic_update_irq (put_pic ps i (?s\<lparr>isr := isr ?s AND NOT (BIT ?k)\<rparr>)) w)" by simp
    then have "isr (pics ps' i) = isr ?s AND NOT (BIT ?k)" by (simp add: put_pic_def)
    moreover have "line_rank ?s ?k = ?p" using get_priority_nonzero(1) [OF False] by (rule rank_of_line)
    ultimately show ?thesis
      using False get_priority_nonzero(2,3) [OF False, where s = ?s]
      by (auto intro!: exI [of _ ?k])
  qed
qed

theorem pic_nonspecific_eoi_witness:
  "\<exists>ps' w'. pic_ioport_write ((i8259_init None)\<lparr>pics := \<lambda>_. pic_zero\<lparr>isr := 0x12\<rparr>\<rparr>) 0 0x20 0x20 () = Some (ps', w') \<and>
     (\<exists>k < 8. bit (0x12 :: u8) k \<and> isr (pics ps' 0) = 0x12 AND NOT (BIT k))"
proof -
  let ?ps = "(i8259_init None)\<lparr>pics := \<lambda>_. pic_zero\<lparr>isr := 0x12\<rparr>\<rparr> :: unit PicState2"
  have "pic_ioport_write ?ps 0 0x20 0x20 () \<noteq> None"
    by (simp add: pic_ioport_write_def Let_def)
  then obtain ps' w' where r: "pic_ioport_write ?ps 0 0x20 0x20 () = Some (ps', w')" by auto
  have "\<exists>k < 8. bit (0x12 :: u8) k \<and> isr (pics ps' 0) = 0x12 AND NOT (BIT k)"
    using pic_nonspecific_eoi [OF r] by (auto simp: pic_zero_def)
  then show ?thesis by (intro exI [of _ ps'] exI [of _ w']) (use r in simp)
qed

text \<open>
  The initialisation sequence: ICW1 (0x11, edge triggered, cascade, ICW4 needed), ICW2, ICW3
  and ICW4 written to one controller program the vector base with its three low bits cleared and
  the automatic end of interrupt, leave every request, mask and service bit and the priority
  rotation reset, return to the operational state and do not touch the other controller or the
  ELCR; the CPU's pin is lowered by ICW1 and not touched by the rest.
\<close>

theorem pic_icw_sequence:
  assumes "a AND 1 = 0" and "b AND 1 \<noteq> 0"
  shows "\<exists>ps'. run pic_step (Some (ps, w))
      [PortWrite i a 0x11, PortWrite i b icw2, PortWrite i b icw3, PortWrite i b icw4] =
        Some (ps', qemu_irq_lower (parent_irq ps) w) \<and>
      (\<forall>j. j \<noteq> i \<longrightarrow> pics ps' j = pics ps j) \<and> parent_irq ps' = parent_irq ps \<and>
      pics ps' i = (pic_reset (pics ps i))\<lparr>irq_base := ucast (icw2 AND 0xf8), init4 := 1,
        special_fully_nested_mode := ucast (drop_bit 4 icw4 AND 1),
        auto_eoi := ucast (drop_bit 1 icw4 AND 1)\<rparr>"
  using assms by (simp add: pic_ioport_write_def put_pic_def Let_def pic_reset_def)

theorem pic_icw_sequence_witness:
  "\<exists>ps'. run pic_step (Some (i8259_init None, ()))
      [PortWrite 1 0xa0 0x11, PortWrite 1 0xa1 0x73, PortWrite 1 0xa1 2, PortWrite 1 0xa1 3] =
        Some (ps', ()) \<and> irq_base (pics ps' 1) = 0x70 \<and> auto_eoi (pics ps' 1) = 1"
  using pic_icw_sequence [of "0xa0" "0xa1" "i8259_init None" "()" 1 "0x73" 2 3] by auto

end
