(* ===== verification/Ioport.thy ===== *)
theory Ioport
  imports Prelude
begin

text \<open>
  The I/O port dispatcher (\<^verbatim>\<open>ioport.c\<close>, \<^verbatim>\<open>ioport.h\<close>, \<^verbatim>\<open>iorange.h\<close>).  The handlers work on a world
  \<open>'w\<close> (the devices); an \<^verbatim>\<open>opaque\<close> pointer is a value of \<open>'o\<close>, \<^verbatim>\<open>NULL\<close> being \<open>None\<close>.  A handler
  that calls \<^verbatim>\<open>hw_error\<close> aborts the emulator (\<open>HwError\<close>); an index beyond the static tables is
  \<open>OutOfBounds\<close>, undefined behaviour in C.  The tables are the state of this component, the
  handlers do not change them.
\<close>

section \<open>Model\<close>

datatype io_error = HwError | OutOfBounds

type_synonym 'a io = "io_error + 'a"

type_synonym ('o, 'w) IOPortReadFunc = "'o option \<Rightarrow> u32 \<Rightarrow> 'w \<Rightarrow> (u32 \<times> 'w) io"

type_synonym ('o, 'w) IOPortWriteFunc = "'o option \<Rightarrow> u32 \<Rightarrow> u32 \<Rightarrow> 'w \<Rightarrow> 'w io"

record ('o, 'w) ioports =
  ioport_opaque :: "nat \<Rightarrow> 'o option"
  ioport_read_table :: "nat \<Rightarrow> nat \<Rightarrow> ('o, 'w) IOPortReadFunc option"
  ioport_write_table :: "nat \<Rightarrow> nat \<Rightarrow> ('o, 'w) IOPortWriteFunc option"

definition ioports_zero :: "('o, 'w) ioports" where
  "ioports_zero = \<lparr>ioport_opaque = \<lambda>_. None, ioport_read_table = \<lambda>_ _. None,
     ioport_write_table = \<lambda>_ _. None\<rparr>"

abbreviation MAX_IOPORTS :: nat where
  "MAX_IOPORTS \<equiv> 65536"

abbreviation IOPORTS_MASK :: u32 where
  "IOPORTS_MASK \<equiv> 0xffff"

definition default_ioport_readb :: "('o, 'w) IOPortReadFunc" where
  "default_ioport_readb p address w = Inr (0xff, w)"

definition default_ioport_writeb :: "('o, 'w) IOPortWriteFunc" where
  "default_ioport_writeb p address data w = Inr w"

definition default_ioport_readl :: "('o, 'w) IOPortReadFunc" where
  "default_ioport_readl p address w = Inr (0xffffffff, w)"

definition default_ioport_writel :: "('o, 'w) IOPortWriteFunc" where
  "default_ioport_writel p address data w = Inr w"

text \<open>
  \<^verbatim>\<open>ioport_read\<close> and \<^verbatim>\<open>default_ioport_readw\<close> call each other; the index falls from 1 to 0 on
  the way.
\<close>

function ioport_read :: "('o, 'w) ioports \<Rightarrow> nat \<Rightarrow> u32 \<Rightarrow> 'w \<Rightarrow> (u32 \<times> 'w) io"
  and default_ioport_readw :: "('o, 'w) ioports \<Rightarrow> u32 \<Rightarrow> 'w \<Rightarrow> (u32 \<times> 'w) io"
where
  "ioport_read P idx address w =
     (if unat address \<ge> MAX_IOPORTS then Inl OutOfBounds
      else case ioport_read_table P idx (unat address) of
        Some func \<Rightarrow> func (ioport_opaque P (unat address)) address w
      | None \<Rightarrow>
          (if idx = 0 then default_ioport_readb (ioport_opaque P (unat address)) address w
           else if idx = 1 then default_ioport_readw P address w
           else default_ioport_readl (ioport_opaque P (unat address)) address w))"
| "default_ioport_readw P address w =
     (case ioport_read P 0 address w of
        Inl e \<Rightarrow> Inl e
      | Inr (data, w1) \<Rightarrow>
          (let address' = (address + 1) AND IOPORTS_MASK in
           case ioport_read P 0 address' w1 of
             Inl e \<Rightarrow> Inl e
           | Inr (hi, w2) \<Rightarrow> Inr (data OR push_bit 8 hi, w2)))"
  by pat_completeness auto
termination
  by (relation "measure (case_sum (\<lambda>(P, i, a, w). 2 * i) (\<lambda>_. 1))") auto

function ioport_write :: "('o, 'w) ioports \<Rightarrow> nat \<Rightarrow> u32 \<Rightarrow> u32 \<Rightarrow> 'w \<Rightarrow> 'w io"
  and default_ioport_writew :: "('o, 'w) ioports \<Rightarrow> u32 \<Rightarrow> u32 \<Rightarrow> 'w \<Rightarrow> 'w io"
where
  "ioport_write P idx address data w =
     (if unat address \<ge> MAX_IOPORTS then Inl OutOfBounds
      else case ioport_write_table P idx (unat address) of
        Some func \<Rightarrow> func (ioport_opaque P (unat address)) address data w
      | None \<Rightarrow>
          (if idx = 0 then default_ioport_writeb (ioport_opaque P (unat address)) address data w
           else if idx = 1 then default_ioport_writew P address data w
           else default_ioport_writel (ioport_opaque P (unat address)) address data w))"
| "default_ioport_writew P address data w =
     (case ioport_write P 0 address (data AND 0xff) w of
        Inl e \<Rightarrow> Inl e
      | Inr w1 \<Rightarrow>
          ioport_write P 0 ((address + 1) AND IOPORTS_MASK) (drop_bit 8 data AND 0xff) w1)"
  by pat_completeness auto
termination
  by (relation "measure (case_sum (\<lambda>(P, i, a, d, w). 2 * i) (\<lambda>_. 1))") auto

text \<open>The index of the table for an access size; \<open>None\<close> is the result -1.\<close>

definition ioport_bsize :: "int \<Rightarrow> nat option" where
  "ioport_bsize sz = (if sz = 1 then Some 0 else if sz = 2 then Some 1
     else if sz = 4 then Some 2 else None)"

text \<open>
  The registration loops.  The loop variable starts at \<^verbatim>\<open>start\<close> and is compared, as an unsigned
  number, with \<^verbatim>\<open>start + length\<close> computed in 32 bits; it cannot wrap, because an index of
  65536 or more is outside the tables.
\<close>

function register_read_loop ::
  "nat \<Rightarrow> ('o, 'w) IOPortReadFunc \<Rightarrow> 'o option \<Rightarrow> nat \<Rightarrow> nat \<Rightarrow> ('o, 'w) ioports \<Rightarrow> ('o, 'w) ioports io"
where
  "register_read_loop b func opq i e P =
     (if i < e then
        (if i \<ge> MAX_IOPORTS then Inl OutOfBounds
         else
           (let P1 = P\<lparr>ioport_read_table := (ioport_read_table P)
                         (b := (ioport_read_table P b)(i := Some func))\<rparr>
            in if ioport_opaque P1 i \<noteq> None \<and> ioport_opaque P1 i \<noteq> opq then Inl HwError
               else register_read_loop b func opq (i + 2 ^ b) e
                      (P1\<lparr>ioport_opaque := (ioport_opaque P1)(i := opq)\<rparr>)))
      else Inr P)"
  by pat_completeness auto
termination
  by (relation "measure (\<lambda>(b, func, opq, i, e, P). e - i)") (auto intro: diff_less_mono2)

function register_write_loop ::
  "nat \<Rightarrow> ('o, 'w) IOPortWriteFunc \<Rightarrow> 'o option \<Rightarrow> nat \<Rightarrow> nat \<Rightarrow> ('o, 'w) ioports \<Rightarrow> ('o, 'w) ioports io"
where
  "register_write_loop b func opq i e P =
     (if i < e then
        (if i \<ge> MAX_IOPORTS then Inl OutOfBounds
         else
           (let P1 = P\<lparr>ioport_write_table := (ioport_write_table P)
                         (b := (ioport_write_table P b)(i := Some func))\<rparr>
            in if ioport_opaque P1 i \<noteq> None \<and> ioport_opaque P1 i \<noteq> opq then Inl HwError
               else register_write_loop b func opq (i + 2 ^ b) e
                      (P1\<lparr>ioport_opaque := (ioport_opaque P1)(i := opq)\<rparr>)))
      else Inr P)"
  by pat_completeness auto
termination
  by (relation "measure (\<lambda>(b, func, opq, i, e, P). e - i)") (auto intro: diff_less_mono2)

declare register_read_loop.simps [simp del] register_write_loop.simps [simp del]
  ioport_read.simps [simp del] default_ioport_readw.simps [simp del]
  ioport_write.simps [simp del] default_ioport_writew.simps [simp del]

definition register_ioport_read ::
  "u32 \<Rightarrow> int \<Rightarrow> int \<Rightarrow> ('o, 'w) IOPortReadFunc \<Rightarrow> 'o option \<Rightarrow> ('o, 'w) ioports \<Rightarrow> ('o, 'w) ioports io"
where
  "register_ioport_read start n sz func opq P =
     (case ioport_bsize sz of
        None \<Rightarrow> Inl HwError
      | Some b \<Rightarrow> register_read_loop b func opq (unat start) (unat (start + of_int n)) P)"

definition register_ioport_write ::
  "u32 \<Rightarrow> int \<Rightarrow> int \<Rightarrow> ('o, 'w) IOPortWriteFunc \<Rightarrow> 'o option \<Rightarrow> ('o, 'w) ioports \<Rightarrow> ('o, 'w) ioports io"
where
  "register_ioport_write start n sz func opq P =
     (case ioport_bsize sz of
        None \<Rightarrow> Inl HwError
      | Some b \<Rightarrow> register_write_loop b func opq (unat start) (unat (start + of_int n)) P)"

text \<open>An I/O range and its operations; the thunks are registered with a pointer to the range.\<close>

record 'w IORange =
  ops_read :: "u64 \<Rightarrow> nat \<Rightarrow> 'w \<Rightarrow> u64 \<times> 'w"
  ops_write :: "u64 \<Rightarrow> nat \<Rightarrow> u64 \<Rightarrow> 'w \<Rightarrow> 'w"
  base :: u64
  len :: u64

definition ioport_readb_thunk :: "'w IORange \<Rightarrow> ('o, 'w) IOPortReadFunc" where
  "ioport_readb_thunk r p addr w =
     (let (data, w1) = ops_read r (ucast addr - base r) 1 w in Inr (ucast data, w1))"

definition ioport_readw_thunk :: "'w IORange \<Rightarrow> ('o, 'w) IOPortReadFunc" where
  "ioport_readw_thunk r p addr w =
     (let (data, w1) = ops_read r (ucast addr - base r) 2 w in Inr (ucast data, w1))"

definition ioport_readl_thunk :: "'w IORange \<Rightarrow> ('o, 'w) IOPortReadFunc" where
  "ioport_readl_thunk r p addr w =
     (let (data, w1) = ops_read r (ucast addr - base r) 4 w in Inr (ucast data, w1))"

definition ioport_writeb_thunk :: "'w IORange \<Rightarrow> ('o, 'w) IOPortWriteFunc" where
  "ioport_writeb_thunk r p addr data w = Inr (ops_write r (ucast addr - base r) 1 (ucast data) w)"

definition ioport_writew_thunk :: "'w IORange \<Rightarrow> ('o, 'w) IOPortWriteFunc" where
  "ioport_writew_thunk r p addr data w = Inr (ops_write r (ucast addr - base r) 2 (ucast data) w)"

definition ioport_writel_thunk :: "'w IORange \<Rightarrow> ('o, 'w) IOPortWriteFunc" where
  "ioport_writel_thunk r p addr data w = Inr (ops_write r (ucast addr - base r) 4 (ucast data) w)"

text \<open>
  \<^verbatim>\<open>ioport->base\<close> and \<^verbatim>\<open>ioport->len\<close> are converted to \<^verbatim>\<open>uint32_t\<close> and \<^verbatim>\<open>int\<close> by the call.
\<close>

definition bind_io :: "'a io \<Rightarrow> ('a \<Rightarrow> 'b io) \<Rightarrow> 'b io" where
  "bind_io x f = (case x of Inl e \<Rightarrow> Inl e | Inr a \<Rightarrow> f a)"

definition ioport_register :: "'o \<Rightarrow> 'w IORange \<Rightarrow> ('o, 'w) ioports \<Rightarrow> ('o, 'w) ioports io" where
  "ioport_register p r P =
     (let b = ucast (base r); l = sint (ucast (len r) :: u32) in
      bind_io (register_ioport_read b l 1 (ioport_readb_thunk r) (Some p) P) (\<lambda>P1.
      bind_io (register_ioport_read b l 2 (ioport_readw_thunk r) (Some p) P1) (\<lambda>P2.
      bind_io (register_ioport_read b l 4 (ioport_readl_thunk r) (Some p) P2) (\<lambda>P3.
      bind_io (register_ioport_write b l 1 (ioport_writeb_thunk r) (Some p) P3) (\<lambda>P4.
      bind_io (register_ioport_write b l 2 (ioport_writew_thunk r) (Some p) P4) (\<lambda>P5.
      register_ioport_write b l 4 (ioport_writel_thunk r) (Some p) P5))))))"

fun unassign_loop :: "nat \<Rightarrow> nat \<Rightarrow> ('o, 'w) ioports \<Rightarrow> ('o, 'w) ioports io" where
  "unassign_loop i 0 P = Inr P"
| "unassign_loop i (Suc n) P =
     (if i \<ge> MAX_IOPORTS then Inl OutOfBounds
      else unassign_loop (i + 1) n
        (P\<lparr>ioport_read_table := (\<lambda>b. if b < 3 then (ioport_read_table P b)(i := None) else ioport_read_table P b),
           ioport_write_table := (\<lambda>b. if b < 3 then (ioport_write_table P b)(i := None) else ioport_write_table P b),
           ioport_opaque := (ioport_opaque P)(i := None)\<rparr>))"

definition isa_unassign_ioport :: "u32 \<Rightarrow> int \<Rightarrow> ('o, 'w) ioports \<Rightarrow> ('o, 'w) ioports io" where
  "isa_unassign_ioport start n P =
     unassign_loop (unat start) (unat (start + of_int n) - unat start) P"

definition isa_is_ioport_assigned :: "('o, 'w) ioports \<Rightarrow> u32 \<Rightarrow> bool io" where
  "isa_is_ioport_assigned P start =
     (if unat start \<ge> MAX_IOPORTS then Inl OutOfBounds
      else Inr (ioport_read_table P 0 (unat start) \<noteq> None \<or> ioport_write_table P 0 (unat start) \<noteq> None \<or>
                ioport_read_table P 1 (unat start) \<noteq> None \<or> ioport_write_table P 1 (unat start) \<noteq> None \<or>
                ioport_read_table P 2 (unat start) \<noteq> None \<or> ioport_write_table P 2 (unat start) \<noteq> None))"

definition cpu_outb :: "('o, 'w) ioports \<Rightarrow> u32 \<Rightarrow> u8 \<Rightarrow> 'w \<Rightarrow> 'w io" where
  "cpu_outb P addr val w = ioport_write P 0 addr (ucast val) w"

definition cpu_outw :: "('o, 'w) ioports \<Rightarrow> u32 \<Rightarrow> u16 \<Rightarrow> 'w \<Rightarrow> 'w io" where
  "cpu_outw P addr val w = ioport_write P 1 addr (ucast val) w"

definition cpu_outl :: "('o, 'w) ioports \<Rightarrow> u32 \<Rightarrow> u32 \<Rightarrow> 'w \<Rightarrow> 'w io" where
  "cpu_outl P addr val w = ioport_write P 2 addr val w"

definition cpu_inb :: "('o, 'w) ioports \<Rightarrow> u32 \<Rightarrow> 'w \<Rightarrow> (u8 \<times> 'w) io" where
  "cpu_inb P addr w = bind_io (ioport_read P 0 addr w) (\<lambda>(val, w1). Inr (ucast val, w1))"

definition cpu_inw :: "('o, 'w) ioports \<Rightarrow> u32 \<Rightarrow> 'w \<Rightarrow> (u16 \<times> 'w) io" where
  "cpu_inw P addr w = bind_io (ioport_read P 1 addr w) (\<lambda>(val, w1). Inr (ucast val, w1))"

definition cpu_inl :: "('o, 'w) ioports \<Rightarrow> u32 \<Rightarrow> 'w \<Rightarrow> (u32 \<times> 'w) io" where
  "cpu_inl P addr w = bind_io (ioport_read P 2 addr w) (\<lambda>(val, w1). Inr (val, w1))"

section \<open>Specification\<close>

text \<open>The ports that a registration of access size \<open>2 ^ b\<close> over \<open>i ..< e\<close> sets.\<close>

definition port_range :: "nat \<Rightarrow> nat \<Rightarrow> nat \<Rightarrow> nat \<Rightarrow> bool" where
  "port_range i e b a \<longleftrightarrow> i \<le> a \<and> a < e \<and> 2 ^ b dvd a - i"

definition register_ok :: "nat \<Rightarrow> nat \<Rightarrow> nat \<Rightarrow> 'o option \<Rightarrow> ('o, 'w) ioports \<Rightarrow> bool" where
  "register_ok i e b opq P \<longleftrightarrow>
     (\<forall>a. port_range i e b a \<longrightarrow> a < MAX_IOPORTS \<and> (ioport_opaque P a = None \<or> ioport_opaque P a = opq))"

definition with_reads ::
  "nat \<Rightarrow> nat \<Rightarrow> nat \<Rightarrow> ('o, 'w) IOPortReadFunc \<Rightarrow> 'o option \<Rightarrow> ('o, 'w) ioports \<Rightarrow> ('o, 'w) ioports" where
  "with_reads i e b f opq P = P\<lparr>
     ioport_read_table := (\<lambda>c a. if c = b \<and> port_range i e b a then Some f else ioport_read_table P c a),
     ioport_opaque := (\<lambda>a. if port_range i e b a then opq else ioport_opaque P a)\<rparr>"

definition with_writes ::
  "nat \<Rightarrow> nat \<Rightarrow> nat \<Rightarrow> ('o, 'w) IOPortWriteFunc \<Rightarrow> 'o option \<Rightarrow> ('o, 'w) ioports \<Rightarrow> ('o, 'w) ioports" where
  "with_writes i e b f opq P = P\<lparr>
     ioport_write_table := (\<lambda>c a. if c = b \<and> port_range i e b a then Some f else ioport_write_table P c a),
     ioport_opaque := (\<lambda>a. if port_range i e b a then opq else ioport_opaque P a)\<rparr>"

section \<open>Registration\<close>

lemma port_range_step:
  "port_range i e b a \<longleftrightarrow> i < e \<and> a = i \<or> port_range (i + 2 ^ b) e b a"
proof (cases "i + 2 ^ b \<le> a")
  case True
  then have "a - i = (a - (i + 2 ^ b)) + 2 ^ b" by simp
  then have "2 ^ b dvd a - i \<longleftrightarrow> 2 ^ b dvd a - (i + 2 ^ b)" by (metis dvd_add_left_iff dvd_refl)
  moreover have "a \<noteq> i"
  proof
    assume "a = i"
    with True have "(2 :: nat) ^ b \<le> 0" by simp
    then show False by simp
  qed
  ultimately show ?thesis using True by (auto simp: port_range_def)
next
  case False
  then have "\<not> 2 ^ b dvd a - i" if "i < a" using that by (auto dest: dvd_imp_le)
  with False show ?thesis by (fastforce simp: port_range_def)
qed

lemma port_range_beyond: "\<not> i < e \<Longrightarrow> \<not> port_range i e b a"
  by (simp add: port_range_def)

lemma port_range_next: "port_range (i + 2 ^ b) e b a \<Longrightarrow> a \<noteq> i"
  by (auto simp: port_range_def)

lemma register_ok_step:
  "register_ok i e b opq P \<longleftrightarrow> (i < e \<longrightarrow> i < MAX_IOPORTS \<and> (ioport_opaque P i = None \<or> ioport_opaque P i = opq))
     \<and> register_ok (i + 2 ^ b) e b opq P"
  unfolding register_ok_def by (subst port_range_step) auto

lemma register_ok_upd:
  "register_ok (i + 2 ^ b) e b opq (P\<lparr>ioport_read_table := t, ioport_opaque := (ioport_opaque P)(i := opq)\<rparr>) =
     register_ok (i + 2 ^ b) e b opq P"
  "register_ok (i + 2 ^ b) e b opq (P\<lparr>ioport_write_table := u, ioport_opaque := (ioport_opaque P)(i := opq)\<rparr>) =
     register_ok (i + 2 ^ b) e b opq P"
  unfolding register_ok_def by (auto dest: port_range_next)

lemma register_read_loop_eq:
  "(register_ok i e b opq P \<longrightarrow> register_read_loop b f opq i e P = Inr (with_reads i e b f opq P)) \<and>
   (\<not> register_ok i e b opq P \<longrightarrow> (\<exists>err. register_read_loop b f opq i e P = Inl err))"
proof (induction b f opq i e P rule: register_read_loop.induct)
  case (1 b f opq i e P)
  let ?P = "P\<lparr>ioport_read_table := (ioport_read_table P)(b := (ioport_read_table P b)(i := Some f)),
     ioport_opaque := (ioport_opaque P)(i := opq)\<rparr>"
  consider "\<not> i < e" | "i < e" "\<not> (i < MAX_IOPORTS \<and> (ioport_opaque P i = None \<or> ioport_opaque P i = opq))"
    | "i < e" "i < MAX_IOPORTS" "ioport_opaque P i = None \<or> ioport_opaque P i = opq" by blast
  then show ?case
  proof cases
    case 1
    then show ?thesis
      by (simp add: register_read_loop.simps register_ok_def with_reads_def port_range_beyond)
  next
    case 2
    then show ?thesis
      by (subst (1 2) register_ok_step, subst (1 2) register_read_loop.simps) (auto simp: Let_def)
  next
    case 3
    have w: "with_reads (i + 2 ^ b) e b f opq ?P = with_reads i e b f opq P"
      using 3 by (auto simp: with_reads_def fun_eq_iff port_range_step [of i])
    have l: "register_read_loop b f opq i e P = register_read_loop b f opq (i + 2 ^ b) e ?P"
      using 3 by (subst register_read_loop.simps) (auto simp: Let_def)
    have o: "register_ok i e b opq P = register_ok (i + 2 ^ b) e b opq ?P"
      using 3 by (subst register_ok_step) (simp add: register_ok_upd)
    show ?thesis unfolding l o using "1.IH" 3 by (auto simp: Let_def w)
  qed
qed

lemma register_write_loop_eq:
  "(register_ok i e b opq P \<longrightarrow> register_write_loop b f opq i e P = Inr (with_writes i e b f opq P)) \<and>
   (\<not> register_ok i e b opq P \<longrightarrow> (\<exists>err. register_write_loop b f opq i e P = Inl err))"
proof (induction b f opq i e P rule: register_write_loop.induct)
  case (1 b f opq i e P)
  let ?P = "P\<lparr>ioport_write_table := (ioport_write_table P)(b := (ioport_write_table P b)(i := Some f)),
     ioport_opaque := (ioport_opaque P)(i := opq)\<rparr>"
  consider "\<not> i < e" | "i < e" "\<not> (i < MAX_IOPORTS \<and> (ioport_opaque P i = None \<or> ioport_opaque P i = opq))"
    | "i < e" "i < MAX_IOPORTS" "ioport_opaque P i = None \<or> ioport_opaque P i = opq" by blast
  then show ?case
  proof cases
    case 1
    then show ?thesis
      by (simp add: register_write_loop.simps register_ok_def with_writes_def port_range_beyond)
  next
    case 2
    then show ?thesis
      by (subst (1 2) register_ok_step, subst (1 2) register_write_loop.simps) (auto simp: Let_def)
  next
    case 3
    have w: "with_writes (i + 2 ^ b) e b f opq ?P = with_writes i e b f opq P"
      using 3 by (auto simp: with_writes_def fun_eq_iff port_range_step [of i])
    have l: "register_write_loop b f opq i e P = register_write_loop b f opq (i + 2 ^ b) e ?P"
      using 3 by (subst register_write_loop.simps) (auto simp: Let_def)
    have o: "register_ok i e b opq P = register_ok (i + 2 ^ b) e b opq ?P"
      using 3 by (subst register_ok_step) (simp add: register_ok_upd)
    show ?thesis unfolding l o using "1.IH" 3 by (auto simp: Let_def w)
  qed
qed

lemma register_ioport_read_eq:
  assumes "ioport_bsize sz = Some b"
  shows "register_ioport_read start n sz f opq P = Inr P' \<longleftrightarrow>
    register_ok (unat start) (unat (start + of_int n)) b opq P \<and>
    P' = with_reads (unat start) (unat (start + of_int n)) b f opq P"
  using register_read_loop_eq [of "unat start" "unat (start + of_int n)" b opq P f] assms
  by (auto simp: register_ioport_read_def)

lemma register_ioport_write_eq:
  assumes "ioport_bsize sz = Some b"
  shows "register_ioport_write start n sz f opq P = Inr P' \<longleftrightarrow>
    register_ok (unat start) (unat (start + of_int n)) b opq P \<and>
    P' = with_writes (unat start) (unat (start + of_int n)) b f opq P"
  using register_write_loop_eq [of "unat start" "unat (start + of_int n)" b opq P f] assms
  by (auto simp: register_ioport_write_def)

lemma register_ok_with_reads:
  "register_ok i e b opq (with_reads i e b f opq P) \<longleftrightarrow> (\<forall>a. port_range i e b a \<longrightarrow> a < MAX_IOPORTS)"
  by (auto simp: register_ok_def with_reads_def)

lemma ioport_dispatch:
  "unat a < MAX_IOPORTS \<Longrightarrow> ioport_read_table P b (unat a) = Some f \<Longrightarrow>
     ioport_read P b a w = f (ioport_opaque P (unat a)) a w"
  "unat a < MAX_IOPORTS \<Longrightarrow> ioport_write_table P b (unat a) = Some g \<Longrightarrow>
     ioport_write P b a d w = g (ioport_opaque P (unat a)) a d w"
  by (simp_all add: ioport_read.simps ioport_write.simps)

text \<open>
  C9.  Registering a read and a write handler of one access size succeeds exactly when the size
  is 1, 2 or 4, every port of the range that is a multiple of the size away from its start is
  in the port space, and none of them belongs to another device; then an access of that size
  to such a port calls the registered handler with its opaque pointer, and the handlers and
  owners of all other ports and sizes are as before.
\<close>

theorem register_ioport_access:
  "(\<exists>P1 P2. register_ioport_read start n sz f opq P = Inr P1 \<and>
      register_ioport_write start n sz g opq P1 = Inr P2 \<and>
      (\<forall>a w d. port_range (unat start) (unat (start + of_int n)) (the (ioport_bsize sz)) (unat a) \<longrightarrow>
         ioport_read P2 (the (ioport_bsize sz)) a w = f opq a w \<and>
         ioport_write P2 (the (ioport_bsize sz)) a d w = g opq a d w) \<and>
      (\<forall>a c. \<not> (c = the (ioport_bsize sz) \<and>
           port_range (unat start) (unat (start + of_int n)) (the (ioport_bsize sz)) a) \<longrightarrow>
         ioport_read_table P2 c a = ioport_read_table P c a \<and>
         ioport_write_table P2 c a = ioport_write_table P c a) \<and>
      (\<forall>a. \<not> port_range (unat start) (unat (start + of_int n)) (the (ioport_bsize sz)) a \<longrightarrow>
         ioport_opaque P2 a = ioport_opaque P a)) \<longleftrightarrow>
   sz \<in> {1, 2, 4} \<and>
   register_ok (unat start) (unat (start + of_int n)) (the (ioport_bsize sz)) opq P"
proof (cases "ioport_bsize sz")
  case None
  then show ?thesis by (auto simp: register_ioport_read_def ioport_bsize_def split: if_splits)
next
  case (Some b)
  let ?i = "unat start" and ?e = "unat (start + of_int n)"
  have sz: "sz \<in> {1, 2, 4}" using Some by (auto simp: ioport_bsize_def split: if_splits)
  show ?thesis
  proof (cases "register_ok ?i ?e b opq P")
    case False
    then show ?thesis using Some by (simp add: register_ioport_read_eq)
  next
    case True
    let ?P1 = "with_reads ?i ?e b f opq P"
    let ?P2 = "with_writes ?i ?e b g opq ?P1"
    have mx: "port_range ?i ?e b a \<Longrightarrow> a < MAX_IOPORTS" for a using True by (simp add: register_ok_def)
    then have ok: "register_ok ?i ?e b opq ?P1" by (simp add: register_ok_with_reads)
    have acc: "ioport_read ?P2 b a w = f opq a w \<and> ioport_write ?P2 b a d w = g opq a d w"
      if "port_range ?i ?e b (unat a)" for a w d
      using that mx [OF that] by (simp add: ioport_dispatch with_reads_def with_writes_def)
    show ?thesis using Some True ok acc sz
      by (simp add: register_ioport_read_eq register_ioport_write_eq)
         (auto simp: with_reads_def with_writes_def)
  qed
qed

theorem register_ioport_access_witness:
  "\<exists>P1 P2. register_ioport_read 0x20 2 1 (\<lambda>p a w. Inr (a, w)) (Some ()) (ioports_zero :: (unit, u32) ioports) = Inr P1 \<and>
      register_ioport_write 0x20 2 1 (\<lambda>p a d w. Inr d) (Some ()) P1 = Inr P2 \<and>
      ioport_write P2 0 0x21 7 0 = Inr 7 \<and> ioport_read P2 0 0x21 0 = Inr (0x21, 0)"
proof -
  have "register_ok (unat (0x20 :: u32)) (unat (0x20 + of_int 2 :: u32)) (the (ioport_bsize 1)) (Some ())
      (ioports_zero :: (unit, u32) ioports)"
    by (auto simp: register_ok_def ioports_zero_def port_range_def)
  moreover have "port_range (unat (0x20 :: u32)) (unat (0x20 + of_int 2 :: u32)) (the (ioport_bsize 1)) (unat (0x21 :: u32))"
    by (simp add: port_range_def ioport_bsize_def)
  moreover have "(1 :: int) \<in> {1, 2, 4}" "the (ioport_bsize 1) = 0" by (simp_all add: ioport_bsize_def)
  ultimately show ?thesis
    using register_ioport_access [of "0x20" 2 1 "\<lambda>p a w. Inr (a, w)" "Some ()"
        "ioports_zero :: (unit, u32) ioports" "\<lambda>p a d w. Inr d"]
    by (metis (no_types, lifting))
qed

lemma word_of_bytes:
  fixes lo hi :: u32
  assumes "lo \<le> 0xff"
  shows "(ucast (lo OR push_bit 8 hi) :: u16) = ucast (ucast lo :: u8) OR push_bit 8 (ucast (ucast hi :: u8))"
proof -
  have "unat lo < 2 ^ 8" using assms by (simp add: word_le_nat_alt)
  then have "\<not> bit lo k" if "8 \<le> k" for k using that by (rule not_bit_small)
  then show ?thesis
    by (auto simp: bit_eq_iff bit_simps)
qed

text \<open>
  A word access to a port without a word handler is two byte accesses, the low byte first,
  to the port and to its successor modulo 65536; on the way in, the bytes are combined little
  endian, provided the low handler returns a byte (its result is not masked).
\<close>

theorem word_access_is_two_bytes:
  assumes "unat a < MAX_IOPORTS"
    and "ioport_read_table P 1 (unat a) = None" and "ioport_write_table P 1 (unat a) = None"
    and "\<And>x w1. ioport_read P 0 a w = Inr (x, w1) \<Longrightarrow> x \<le> 0xff"
  shows "cpu_outw P a v w = bind_io (cpu_outb P a (ucast v) w)
      (cpu_outb P ((a + 1) AND IOPORTS_MASK) (ucast (drop_bit 8 v))) \<and>
    cpu_inw P a w = bind_io (cpu_inb P a w) (\<lambda>(lo, w1).
      bind_io (cpu_inb P ((a + 1) AND IOPORTS_MASK) w1) (\<lambda>(hi, w2).
        Inr (ucast lo OR push_bit 8 (ucast hi), w2)))"
proof
  have b: "(ucast v :: u32) AND 0xff = ucast (ucast v :: u8)"
    "drop_bit 8 (ucast v :: u32) AND 0xff = ucast (ucast (drop_bit 8 v) :: u8)"
  proof -
    have 255: "(0xff :: u32) = mask 8" by (simp add: mask_eq_exp_minus_1)
    show "(ucast v :: u32) AND 0xff = ucast (ucast v :: u8)"
      "drop_bit 8 (ucast v :: u32) AND 0xff = ucast (ucast (drop_bit 8 v) :: u8)"
      unfolding 255 by (auto simp: bit_eq_iff bit_simps)
  qed
  show "cpu_outw P a v w = bind_io (cpu_outb P a (ucast v) w)
      (cpu_outb P ((a + 1) AND IOPORTS_MASK) (ucast (drop_bit 8 v)))"
    using assms(1,3)
    by (simp add: cpu_outw_def cpu_outb_def [abs_def] ioport_write.simps [of P "Suc 0"] default_ioport_writew.simps b bind_io_def
        split: sum.split)
  show "cpu_inw P a w = bind_io (cpu_inb P a w) (\<lambda>(lo, w1).
      bind_io (cpu_inb P ((a + 1) AND IOPORTS_MASK) w1) (\<lambda>(hi, w2).
        Inr (ucast lo OR push_bit 8 (ucast hi), w2)))"
    using assms(1,2,4)
    by (simp add: cpu_inw_def cpu_inb_def ioport_read.simps [of P "Suc 0"] default_ioport_readw.simps bind_io_def Let_def
        word_of_bytes split: sum.split prod.split)
qed
theorem word_access_is_two_bytes_witness:
  "let P = with_writes 0 1 0 (\<lambda>p a d w. Inr (w @ [(a, d)])) None
             (with_writes 0xffff 0x10000 0 (\<lambda>p a d w. Inr (w @ [(a, d)])) None ioports_zero)
   in cpu_outw (P :: (unit, (u32 \<times> u32) list) ioports) 0xffff 0x1234 [] = Inr [(0xffff, 0x34), (0, 0x12)] \<and>
      cpu_inw P 0xffff [] = Inr (0xffff, [])"
proof -
  let ?h = "\<lambda>p a d w. Inr (w @ [(a, d)]) :: (u32 \<times> u32) list io"
  let ?P = "with_writes 0 1 0 ?h None (with_writes 0xffff 0x10000 0 ?h None ioports_zero)
    :: (unit, (u32 \<times> u32) list) ioports"
  have "cpu_outw ?P 0xffff 0x1234 [] = bind_io (cpu_outb ?P 0xffff (ucast (0x1234 :: u16)) [])
      (cpu_outb ?P ((0xffff + 1) AND IOPORTS_MASK) (ucast (drop_bit 8 (0x1234 :: u16)))) \<and>
    cpu_inw ?P 0xffff [] = bind_io (cpu_inb ?P 0xffff []) (\<lambda>(lo, w1).
      bind_io (cpu_inb ?P ((0xffff + 1) AND IOPORTS_MASK) w1) (\<lambda>(hi, w2).
        Inr (ucast lo OR push_bit 8 (ucast hi), w2)))"
    by (rule word_access_is_two_bytes)
       (auto simp: with_writes_def ioports_zero_def ioport_read.simps default_ioport_readb_def)
  then show ?thesis
    by (simp add: with_writes_def ioports_zero_def bind_io_def cpu_outb_def cpu_inb_def
        ioport_read.simps ioport_write.simps default_ioport_readb_def port_range_def)
qed

lemma unassign_loop_eq:
  "unassign_loop i n P =
     (if n = 0 \<or> i + n \<le> MAX_IOPORTS
      then Inr (P\<lparr>ioport_read_table := (\<lambda>b a. if b < 3 \<and> i \<le> a \<and> a < i + n then None else ioport_read_table P b a),
        ioport_write_table := (\<lambda>b a. if b < 3 \<and> i \<le> a \<and> a < i + n then None else ioport_write_table P b a),
        ioport_opaque := (\<lambda>a. if i \<le> a \<and> a < i + n then None else ioport_opaque P a)\<rparr>)
      else Inl OutOfBounds)"
proof (induction n arbitrary: i P)
  case 0
  show ?case by (auto simp: fun_eq_iff intro!: ioports.equality)
next
  case (Suc n)
  show ?case
  proof (cases "i < MAX_IOPORTS")
    case True
    then show ?thesis by (auto simp: Suc.IH fun_eq_iff intro!: ioports.equality)
  next
    case False
    then show ?thesis by simp
  qed
qed

text \<open>
  Unassigning a range inside the port space always succeeds and gives every port of the
  range back: it is not assigned any more, accesses of every size read all ones and write
  nothing until it is registered again, any device may then register it, and no other port
  changes.
\<close>

theorem isa_unassign_ioport_resets:
  assumes "unat start + k \<le> MAX_IOPORTS"
  shows "\<exists>P'. isa_unassign_ioport start (int k) P = Inr P' \<and>
    (\<forall>a. unat start \<le> unat a \<and> unat a < unat start + k \<longrightarrow>
       isa_is_ioport_assigned P' a = Inr False \<and>
       cpu_inb P' a w = Inr (0xff, w) \<and> cpu_inl P' a w = Inr (0xffffffff, w) \<and>
       cpu_outb P' a v w = Inr w \<and> cpu_outl P' a u w = Inr w) \<and>
    (\<forall>b opq. register_ok (unat start) (unat start + k) b opq P') \<and>
    (\<forall>a. \<not> (unat start \<le> a \<and> a < unat start + k) \<longrightarrow>
       ioport_opaque P' a = ioport_opaque P a \<and>
       (\<forall>b. ioport_read_table P' b a = ioport_read_table P b a \<and>
            ioport_write_table P' b a = ioport_write_table P b a))"
proof -
  have "unat (start + of_int (int k)) = unat start + k"
    using assms by (simp add: unat_word_ariths unat_of_nat)
  then have e: "isa_unassign_ioport start (int k) P = unassign_loop (unat start) k P"
    by (simp add: isa_unassign_ioport_def)
  show ?thesis unfolding e unassign_loop_eq using assms
    by (auto simp: isa_is_ioport_assigned_def cpu_inb_def cpu_inl_def cpu_outb_def cpu_outl_def
        ioport_read.simps ioport_write.simps bind_io_def default_ioport_readb_def
        default_ioport_readl_def default_ioport_writeb_def default_ioport_writel_def
        register_ok_def port_range_def)
qed

theorem isa_unassign_ioport_resets_witness:
  "\<exists>P'. isa_unassign_ioport 0xfff8 8 (with_reads 0xfff0 0x10000 0 (\<lambda>p a w. Inr (1, w)) (Some ()) ioports_zero) = Inr P' \<and>
     cpu_inb P' 0xffff () = Inr (0xff, ()) \<and> isa_is_ioport_assigned P' 0xfff9 = Inr False"
proof -
  let ?P = "with_reads 0xfff0 0x10000 0 (\<lambda>p a w. Inr (1, w)) (Some ()) ioports_zero :: (unit, unit) ioports"
  obtain P' where P': "isa_unassign_ioport 0xfff8 (int 8) ?P = Inr P'"
    "\<forall>a. unat (0xfff8 :: u32) \<le> unat a \<and> unat a < unat (0xfff8 :: u32) + 8 \<longrightarrow>
       isa_is_ioport_assigned P' a = Inr False \<and> cpu_inb P' a () = Inr (0xff, ())"
    using isa_unassign_ioport_resets [of "0xfff8" 8 ?P "()" 0 0] by auto
  have "cpu_inb P' 0xffff () = Inr (0xff, ())" "isa_is_ioport_assigned P' 0xfff9 = Inr False"
    using P'(2) [rule_format, of "0xffff"] P'(2) [rule_format, of "0xfff9"] by simp_all
  then show ?thesis using P'(1) by (intro exI [of _ P']) simp
qed

end
