(* ===== verification/Exec_Mem.thy ===== *)
theory Exec_Mem
  imports Prelude
begin

text \<open>
  Guest physical memory as the devices reach it (\<^verbatim>\<open>cpu_physical_memory_rw\<close> of \<^verbatim>\<open>exec.c\<close>).  The
  page table of the emulator maps a guest page to host memory (the offset of the page in the
  RAM block, with \<^verbatim>\<open>IO_MEM_RAM\<close>, \<^verbatim>\<open>IO_MEM_ROM\<close> or an I/O index in the low bits); it does not
  change during an access.  The I/O memory handlers, other devices, work on the world \<open>'w\<close>.
  The translated code that a write to RAM invalidates belongs to the CPU: the requests for it
  are recorded in order.  Buffers are lists whose length is the argument \<^verbatim>\<open>len\<close>.
\<close>

section \<open>Model\<close>

record PhysPageDesc =
  phys_offset :: u64
  region_offset :: u64

record 'w mem_map =
  phys_page_find :: "u64 \<Rightarrow> PhysPageDesc option"
  io_mem_read :: "nat \<Rightarrow> nat \<Rightarrow> u64 \<Rightarrow> 'w \<Rightarrow> u32 \<times> 'w"
  io_mem_write :: "nat \<Rightarrow> nat \<Rightarrow> u64 \<Rightarrow> u32 \<Rightarrow> 'w \<Rightarrow> 'w"

record phys_mem =
  ram :: bytes
  phys_dirty :: "nat \<Rightarrow> u8"
  tb_invalidated :: "(u64 \<times> u64) list"

abbreviation PAGE_OFFSET_MASK :: u64 where
  "PAGE_OFFSET_MASK \<equiv> 0xfff"

abbreviation TARGET_PAGE_MASK :: u64 where
  "TARGET_PAGE_MASK \<equiv> NOT PAGE_OFFSET_MASK"

abbreviation TARGET_PAGE_SIZE :: u64 where
  "TARGET_PAGE_SIZE \<equiv> 4096"

abbreviation IO_MEM_RAM :: u64 where "IO_MEM_RAM \<equiv> 0"

abbreviation IO_MEM_ROM :: u64 where "IO_MEM_ROM \<equiv> 8"

abbreviation IO_MEM_UNASSIGNED :: u64 where "IO_MEM_UNASSIGNED \<equiv> 16"

abbreviation IO_MEM_ROMD :: u64 where "IO_MEM_ROMD \<equiv> 1"

definition page_pd :: "PhysPageDesc option \<Rightarrow> u64" where
  "page_pd p = (case p of None \<Rightarrow> IO_MEM_UNASSIGNED | Some d \<Rightarrow> phys_offset d)"

definition set_dirty :: "u64 \<Rightarrow> nat \<Rightarrow> phys_mem \<Rightarrow> phys_mem" where
  "set_dirty addr1 l m =
     (let k = unat (drop_bit 12 addr1) in
      if phys_dirty m k \<noteq> 0xff
      then m\<lparr>tb_invalidated := tb_invalidated m @ [(addr1, addr1 + of_nat l)],
             phys_dirty := (phys_dirty m)(k := phys_dirty m k OR 0xfd)\<rparr>
      else m)"

text \<open>The number of the page of an address, and the bytes from the address to its end.\<close>

definition page_index :: "u64 \<Rightarrow> u64" where
  "page_index addr = drop_bit 12 (addr AND TARGET_PAGE_MASK)"

definition page_left :: "u64 \<Rightarrow> nat" where
  "page_left addr = unat (((addr AND TARGET_PAGE_MASK) + TARGET_PAGE_SIZE) - addr)"

text \<open>
  One turn of the loop, for the rest \<open>buf\<close> of the buffer: the number of bytes done, the bytes
  read (or the bytes written, unchanged), the memory and the world.
\<close>

definition rw_chunk ::
  "'w mem_map \<Rightarrow> u64 \<Rightarrow> u8 list \<Rightarrow> bool \<Rightarrow> phys_mem \<Rightarrow> 'w \<Rightarrow> nat \<times> u8 list \<times> phys_mem \<times> 'w" where
  "rw_chunk M addr buf is_write m w =
     (let l = (if page_left addr > length buf then length buf else page_left addr);
          p = phys_page_find M (page_index addr);
          pd = page_pd p;
          io_index = unat (drop_bit 3 pd AND 511);
          addr1 = (case p of None \<Rightarrow> addr | Some d \<Rightarrow> (addr AND PAGE_OFFSET_MASK) + region_offset d)
      in if is_write then
           (if pd AND PAGE_OFFSET_MASK \<noteq> IO_MEM_RAM then
              (if l \<ge> 4 \<and> addr1 AND 3 = 0 then
                 (4, take 4 buf, m, io_mem_write M io_index 2 addr1 (of_le (take 4 buf)) w)
               else if l \<ge> 2 \<and> addr1 AND 1 = 0 then
                 (2, take 2 buf, m, io_mem_write M io_index 1 addr1 (of_le (take 2 buf)) w)
               else (1, take 1 buf, m, io_mem_write M io_index 0 addr1 (of_le (take 1 buf)) w))
            else
              (let a = (pd AND TARGET_PAGE_MASK) + (addr AND PAGE_OFFSET_MASK);
                   m1 = m\<lparr>ram := mem_write (ram m) (unat a) (take l buf)\<rparr>
               in (l, take l buf, set_dirty a l m1, w)))
         else
           (if pd AND PAGE_OFFSET_MASK > IO_MEM_ROM \<and> pd AND IO_MEM_ROMD = 0 then
              (if l \<ge> 4 \<and> addr1 AND 3 = 0 then
                 (let (val, w1) = io_mem_read M io_index 2 addr1 w in (4, to_le 4 val, m, w1))
               else if l \<ge> 2 \<and> addr1 AND 1 = 0 then
                 (let (val, w1) = io_mem_read M io_index 1 addr1 w in (2, to_le 2 val, m, w1))
               else (let (val, w1) = io_mem_read M io_index 0 addr1 w in (1, to_le 1 val, m, w1)))
            else (l, mem_read (ram m) (unat (pd AND TARGET_PAGE_MASK) + unat (addr AND PAGE_OFFSET_MASK)) l, m, w)))"

lemma unat_page: "unat (addr AND TARGET_PAGE_MASK) = unat addr div 4096 * 4096"
proof -
  have "PAGE_OFFSET_MASK = mask 12" by (simp add: mask_eq_exp_minus_1)
  then show ?thesis using unat_and_not_mask [of addr 12] by simp
qed

lemma unat_offset: "unat (addr AND PAGE_OFFSET_MASK) = unat addr mod 4096"
proof -
  have "PAGE_OFFSET_MASK = mask 12" by (simp add: mask_eq_exp_minus_1)
  then show ?thesis using unat_and_mask [of addr 12] by simp
qed

lemma page_split: "(addr AND TARGET_PAGE_MASK) + (addr AND PAGE_OFFSET_MASK) = addr"
proof -
  have "unat (addr AND TARGET_PAGE_MASK) + unat (addr AND PAGE_OFFSET_MASK) = unat addr"
    unfolding unat_page unat_offset by simp
  then have "of_nat (unat (addr AND TARGET_PAGE_MASK) + unat (addr AND PAGE_OFFSET_MASK)) = (of_nat (unat addr) :: u64)"
    by (rule arg_cong)
  then show ?thesis by simp
qed

lemma page_left: "page_left addr = 4096 - unat addr mod 4096"
proof -
  have eq: "(addr AND TARGET_PAGE_MASK) + TARGET_PAGE_SIZE - addr = TARGET_PAGE_SIZE - (addr AND PAGE_OFFSET_MASK)"
    by (subst (2) page_split [symmetric, of addr]) (simp only: add_diff_cancel_left)
  have "addr AND PAGE_OFFSET_MASK \<le> TARGET_PAGE_SIZE"
    by (simp add: word_le_nat_alt unat_offset)
  then show ?thesis unfolding page_left_def eq by (simp add: unat_sub unat_offset)
qed

lemma page_left_pos [simp]: "0 < page_left addr"
  by (simp add: page_left)

lemma page_index: "page_index addr = of_nat (unat addr div 4096)"
proof -
  have "unat (page_index addr) = unat addr div 4096"
    unfolding page_index_def unat_drop_bit_eq unat_page by (simp add: drop_bit_eq_div)
  then have "of_nat (unat (page_index addr)) = (of_nat (unat addr div 4096) :: u64)"
    by (rule arg_cong)
  then show ?thesis by simp
qed

lemma rw_chunk_len:
  "buf \<noteq> [] \<Longrightarrow> 0 < fst (rw_chunk M addr buf is_write m w)"
  by (auto simp: rw_chunk_def Let_def case_prod_beta)

function cpu_physical_memory_rw ::
  "'w mem_map \<Rightarrow> u64 \<Rightarrow> u8 list \<Rightarrow> bool \<Rightarrow> phys_mem \<Rightarrow> 'w \<Rightarrow> u8 list \<times> phys_mem \<times> 'w" where
  "cpu_physical_memory_rw M addr buf is_write m w =
     (if length buf > 0 then
        (let (l, out, m1, w1) = rw_chunk M addr buf is_write m w;
             (rest, m2, w2) = cpu_physical_memory_rw M (addr + of_nat l) (drop l buf) is_write m1 w1
         in (out @ rest, m2, w2))
      else ([], m, w))"
  by pat_completeness auto
termination
proof (relation "measure (\<lambda>(M, addr, buf, is_write, m, w). length buf)", goal_cases)
  case (2 M addr buf is_write m w x l y out z m1 w1)
  then have "l = fst (rw_chunk M addr buf is_write m w)" by (metis fst_conv)
  then show ?case using 2 rw_chunk_len [of buf M addr is_write m w] by simp
qed simp

declare cpu_physical_memory_rw.simps [simp del]

definition cpu_physical_memory_read ::
  "'w mem_map \<Rightarrow> u64 \<Rightarrow> nat \<Rightarrow> phys_mem \<Rightarrow> 'w \<Rightarrow> u8 list \<times> phys_mem \<times> 'w" where
  "cpu_physical_memory_read M addr n m w = cpu_physical_memory_rw M addr (replicate n 0) False m w"

definition cpu_physical_memory_write ::
  "'w mem_map \<Rightarrow> u64 \<Rightarrow> u8 list \<Rightarrow> phys_mem \<Rightarrow> 'w \<Rightarrow> phys_mem \<times> 'w" where
  "cpu_physical_memory_write M addr buf m w = snd (cpu_physical_memory_rw M addr buf True m w)"

section \<open>Specification\<close>

text \<open>
  The page of an address is RAM, mapped at the RAM offset equal to its address (as the PC
  machine maps its main memory), or is ROM.
\<close>

definition ram_page :: "'w mem_map \<Rightarrow> nat \<Rightarrow> bool" where
  "ram_page M k \<longleftrightarrow> map_option phys_offset (phys_page_find M (of_nat k)) = Some (of_nat (k * 4096))"

definition rom_page :: "'w mem_map \<Rightarrow> nat \<Rightarrow> bool" where
  "rom_page M k \<longleftrightarrow> map_option phys_offset (phys_page_find M (of_nat k)) = Some (of_nat (k * 4096) OR IO_MEM_ROM)"

definition ram_range :: "'w mem_map \<Rightarrow> nat \<Rightarrow> nat \<Rightarrow> bool" where
  "ram_range M a n \<longleftrightarrow> a + n < 2 ^ 64 \<and> (\<forall>x. a \<le> x \<and> x < a + n \<longrightarrow> ram_page M (x div 4096))"

definition rom_range :: "'w mem_map \<Rightarrow> nat \<Rightarrow> nat \<Rightarrow> bool" where
  "rom_range M a n \<longleftrightarrow> a + n < 2 ^ 64 \<and> (\<forall>x. a \<le> x \<and> x < a + n \<longrightarrow> rom_page M (x div 4096))"

text \<open>Backed by memory, RAM or ROM: what a read needs.\<close>

definition mem_range :: "'w mem_map \<Rightarrow> nat \<Rightarrow> nat \<Rightarrow> bool" where
  "mem_range M a n \<longleftrightarrow> a + n < 2 ^ 64 \<and>
     (\<forall>x. a \<le> x \<and> x < a + n \<longrightarrow> ram_page M (x div 4096) \<or> rom_page M (x div 4096))"

text \<open>Writes to ROM pages reach the handler of I/O index 1, which ignores them.\<close>

definition rom_ignored :: "'w mem_map \<Rightarrow> bool" where
  "rom_ignored M \<longleftrightarrow> (\<forall>sz a v w. io_mem_write M 1 sz a v w = w)"

text \<open>A map for the examples: pages 0 to 255 are RAM, page 256 is ROM, the rest is unassigned.\<close>

definition sample_map :: "unit mem_map" where
  "sample_map = \<lparr>phys_page_find = (\<lambda>k. if k < 256 then Some \<lparr>phys_offset = push_bit 12 k, region_offset = 0\<rparr>
       else if k = 256 then Some \<lparr>phys_offset = 0x100008, region_offset = 0\<rparr> else None),
     io_mem_read = \<lambda>i sz a w. (0, w), io_mem_write = \<lambda>i sz a v w. w\<rparr>"

definition sample_mem :: phys_mem where
  "sample_mem = \<lparr>ram = \<lambda>_. 0, phys_dirty = \<lambda>_. 0xff, tb_invalidated = []\<rparr>"

section \<open>Accesses to RAM and ROM\<close>

lemma page_base_and:
  "of_nat (k * 4096) AND PAGE_OFFSET_MASK = 0"
  "of_nat (k * 4096) AND TARGET_PAGE_MASK = of_nat (k * 4096)"
proof -
  have "of_nat (k * 4096) = (push_bit 12 (of_nat k) :: u64)" by (simp add: push_bit_eq_mult)
  moreover have "PAGE_OFFSET_MASK = mask 12" by (simp add: mask_eq_exp_minus_1)
  ultimately show "of_nat (k * 4096) AND PAGE_OFFSET_MASK = 0"
    "of_nat (k * 4096) AND TARGET_PAGE_MASK = of_nat (k * 4096)"
    by (simp_all only:) (auto simp: bit_eq_iff bit_simps)
qed

lemma page_pd_ram:
  assumes "ram_page M (unat addr div 4096)"
  shows "page_pd (phys_page_find M (page_index addr)) = of_nat (unat addr div 4096 * 4096)"
  using assms by (auto simp: ram_page_def page_pd_def page_index split: option.splits)

lemma of_nat_page: "of_nat (unat addr div 4096 * 4096) = addr AND TARGET_PAGE_MASK"
  unfolding unat_page [symmetric] by simp

lemma rw_chunk_ram:
  assumes "ram_page M (unat addr div 4096)"
  shows "rw_chunk M addr buf True m w =
      (min (page_left addr) (length buf), take (page_left addr) buf,
       set_dirty addr (min (page_left addr) (length buf))
         (m\<lparr>ram := mem_write (ram m) (unat addr) (take (page_left addr) buf)\<rparr>), w)"
    and "rw_chunk M addr buf False m w =
      (min (page_left addr) (length buf), mem_read (ram m) (unat addr) (min (page_left addr) (length buf)), m, w)"
  unfolding rw_chunk_def Let_def page_pd_ram [OF assms] page_base_and
  unfolding of_nat_page page_split unat_page unat_offset
  by (auto simp: min_def)

lemma ram_range_page: "ram_range M a n \<Longrightarrow> 0 < n \<Longrightarrow> ram_page M (a div 4096)"
  by (auto simp: ram_range_def)

lemma ram_range_drop: "ram_range M a n \<Longrightarrow> k \<le> n \<Longrightarrow> ram_range M (a + k) (n - k)"
  by (auto simp: ram_range_def)

lemma unat_add_small: "unat (a :: u64) + k < 2 ^ 64 \<Longrightarrow> unat (a + of_nat k) = unat a + k"
  by (simp add: unat_word_ariths unat_of_nat)

lemma set_dirty_ram [simp]: "ram (set_dirty a l m) = ram m"
  by (simp add: set_dirty_def Let_def)

lemma rw_ram_write:
  assumes "ram_range M (unat a) (length bs)"
  shows "\<exists>m'. cpu_physical_memory_rw M a bs True m w = (bs, m', w) \<and> ram m' = mem_write (ram m) (unat a) bs"
  using assms
proof (induction "length bs" arbitrary: a bs m rule: less_induct)
  case less
  show ?case
  proof (cases "bs = []")
    case True
    then show ?thesis by (simp add: cpu_physical_memory_rw.simps)
  next
    case False
    let ?l = "min (page_left a) (length bs)"
    let ?m = "set_dirty a ?l (m\<lparr>ram := mem_write (ram m) (unat a) (take (page_left a) bs)\<rparr>)"
    have pg: "ram_page M (unat a div 4096)" using less.prems False by (intro ram_range_page) auto
    have ua: "unat (a + of_nat ?l) = unat a + ?l"
      using less.prems by (intro unat_add_small) (simp add: ram_range_def min_def)
    have rr: "ram_range M (unat (a + of_nat ?l)) (length (drop ?l bs))"
      unfolding ua using ram_range_drop [OF less.prems, of ?l] by simp
    obtain m' where m': "cpu_physical_memory_rw M (a + of_nat ?l) (drop ?l bs) True ?m w = (drop ?l bs, m', w)"
      "ram m' = mem_write (ram ?m) (unat (a + of_nat ?l)) (drop ?l bs)"
      using less.hyps [OF _ rr, of ?m] False by auto
    have tk: "take (page_left a) bs = take ?l bs" by (simp add: min_def)
    have "cpu_physical_memory_rw M a bs True m w = (bs, m', w)"
      unfolding cpu_physical_memory_rw.simps [of M a bs] rw_chunk_ram(1) [OF pg]
      using False m'(1) tk by simp
    moreover have "ram m' = mem_write (ram m) (unat a) bs"
      using mem_write_append [of "ram m" "unat a" "take ?l bs" "drop ?l bs"]
      unfolding m'(2) ua by (simp add: tk)
    ultimately show ?thesis by blast
  qed
qed

lemma rom_pd:
  assumes "rom_page M (unat addr div 4096)"
  defines "pd \<equiv> page_pd (phys_page_find M (page_index addr))"
  shows "pd AND PAGE_OFFSET_MASK = IO_MEM_ROM" "pd AND TARGET_PAGE_MASK = addr AND TARGET_PAGE_MASK"
proof -
  have pd: "pd = of_nat (unat addr div 4096 * 4096) OR IO_MEM_ROM"
    using assms(1) unfolding pd_def rom_page_def page_pd_def page_index by (auto split: option.splits)
  show "pd AND PAGE_OFFSET_MASK = IO_MEM_ROM"
    unfolding pd bit.conj_disj_distrib2 page_base_and by simp
  show "pd AND TARGET_PAGE_MASK = addr AND TARGET_PAGE_MASK"
    unfolding pd bit.conj_disj_distrib2 page_base_and of_nat_page by simp
qed

lemma rw_chunk_rom:
  assumes "rom_page M (unat addr div 4096)"
  shows "rw_chunk M addr buf False m w =
      (min (page_left addr) (length buf), mem_read (ram m) (unat addr) (min (page_left addr) (length buf)), m, w)"
    and "rom_ignored M \<Longrightarrow> buf \<noteq> [] \<Longrightarrow>
      (\<exists>l. 0 < l \<and> l \<le> length buf \<and> rw_chunk M addr buf True m w = (l, take l buf, m, w))"
proof -
  let ?pd = "page_pd (phys_page_find M (page_index addr))"
  have "drop_bit 3 ?pd AND 511 = drop_bit 3 (?pd AND PAGE_OFFSET_MASK)"
    by (simp add: drop_bit_and)
  then have io: "unat (drop_bit 3 ?pd AND 511) = 1" unfolding rom_pd [OF assms] by simp
  show "rw_chunk M addr buf False m w =
      (min (page_left addr) (length buf), mem_read (ram m) (unat addr) (min (page_left addr) (length buf)), m, w)"
    unfolding rw_chunk_def Let_def rom_pd [OF assms]
    unfolding of_nat_page page_split unat_page unat_offset
    by (auto simp: min_def)
  show "\<exists>l. 0 < l \<and> l \<le> length buf \<and> rw_chunk M addr buf True m w = (l, take l buf, m, w)"
    if ign: "rom_ignored M" and ne: "buf \<noteq> []"
    unfolding rw_chunk_def Let_def rom_pd [OF assms] io
    using ne ign [unfolded rom_ignored_def] by (auto simp: Suc_le_eq)
qed

lemma rw_chunk_mem:
  assumes "ram_page M (unat addr div 4096) \<or> rom_page M (unat addr div 4096)"
  shows "rw_chunk M addr buf False m w =
      (min (page_left addr) (length buf), mem_read (ram m) (unat addr) (min (page_left addr) (length buf)), m, w)"
  using assms by (auto simp: rw_chunk_ram(2) rw_chunk_rom(1))

lemma rw_rom_write:
  assumes "rom_range M (unat a) (length bs)" and ign: "rom_ignored M"
  shows "cpu_physical_memory_rw M a bs True m w = (bs, m, w)"
  using assms(1)
proof (induction "length bs" arbitrary: a bs rule: less_induct)
  case less
  show ?case
  proof (cases "bs = []")
    case True
    then show ?thesis by (simp add: cpu_physical_memory_rw.simps)
  next
    case False
    have pg: "rom_page M (unat a div 4096)" using less.prems False by (auto simp: rom_range_def)
    obtain l where l: "0 < l" "l \<le> length bs" "rw_chunk M a bs True m w = (l, take l bs, m, w)"
      using rw_chunk_rom(2) [OF pg ign False] by blast
    have ua: "unat (a + of_nat l) = unat a + l"
      using less.prems l by (intro unat_add_small) (simp add: rom_range_def)
    have "rom_range M (unat (a + of_nat l)) (length (drop l bs))"
      unfolding ua using less.prems l by (auto simp: rom_range_def)
    then have "cpu_physical_memory_rw M (a + of_nat l) (drop l bs) True m w = (drop l bs, m, w)"
      using l False by (intro less.hyps) auto
    then show ?thesis unfolding cpu_physical_memory_rw.simps [of M a bs] l(3) using False by simp
  qed
qed

lemma mem_range_drop: "mem_range M a n \<Longrightarrow> k \<le> n \<Longrightarrow> mem_range M (a + k) (n - k)"
  by (auto simp: mem_range_def)

lemma mem_range_ram [simp, intro]: "ram_range M a n \<Longrightarrow> mem_range M a n"
  by (simp add: mem_range_def ram_range_def)

lemma mem_range_rom [simp, intro]: "rom_range M a n \<Longrightarrow> mem_range M a n"
  by (simp add: mem_range_def rom_range_def)

lemma rw_mem_read:
  assumes "mem_range M (unat a) (length bs)"
  shows "cpu_physical_memory_rw M a bs False m w = (mem_read (ram m) (unat a) (length bs), m, w)"
  using assms
proof (induction "length bs" arbitrary: a bs rule: less_induct)
  case less
  show ?case
  proof (cases "bs = []")
    case True
    then show ?thesis by (simp add: cpu_physical_memory_rw.simps)
  next
    case False
    let ?l = "min (page_left a) (length bs)"
    have pg: "ram_page M (unat a div 4096) \<or> rom_page M (unat a div 4096)"
      using less.prems False by (auto simp: mem_range_def)
    have ua: "unat (a + of_nat ?l) = unat a + ?l"
      using less.prems by (intro unat_add_small) (simp add: mem_range_def min_def)
    have rr: "mem_range M (unat (a + of_nat ?l)) (length (drop ?l bs))"
      unfolding ua using mem_range_drop [OF less.prems, of ?l] by simp
    have m': "cpu_physical_memory_rw M (a + of_nat ?l) (drop ?l bs) False m w =
        (mem_read (ram m) (unat a + ?l) (length bs - ?l), m, w)"
      using less.hyps [OF _ rr] False ua by auto
    show ?thesis
      unfolding cpu_physical_memory_rw.simps [of M a bs] rw_chunk_mem [OF pg]
      using False m' mem_read_add [of "ram m" "unat a" ?l "length bs - ?l"] by simp
  qed
qed

lemma cpu_physical_memory_write_ram:
  assumes "ram_range M (unat a) (length bs)"
  obtains m' where "cpu_physical_memory_write M a bs m w = (m', w)"
    and "ram m' = mem_write (ram m) (unat a) bs"
  using rw_ram_write [OF assms, of m w] by (auto simp: cpu_physical_memory_write_def)

lemma cpu_physical_memory_read_mem:
  assumes "mem_range M (unat a) n"
  shows "cpu_physical_memory_read M a n m w = (mem_read (ram m) (unat a) n, m, w)"
  using rw_mem_read [of M a "replicate n 0"] assms by (simp add: cpu_physical_memory_read_def)

lemma cpu_physical_memory_write_rom_ignored:
  "rom_range M (unat a) (length bs) \<Longrightarrow> rom_ignored M \<Longrightarrow> cpu_physical_memory_write M a bs m w = (m, w)"
  by (simp add: cpu_physical_memory_write_def rw_rom_write)

text \<open>
  C10.  Device access to guest memory page by page: a buffer written to a range of RAM pages, over
  any number of page borders, is read back by the same range, leaves every other byte of the
  memory and the other devices alone, and terminates; written to ROM pages it changes nothing.
\<close>

theorem cpu_physical_memory_roundtrip:
  "(ram_range M (unat a) (length bs) \<longrightarrow>
     (\<exists>m'. cpu_physical_memory_write M a bs m w = (m', w) \<and>
        cpu_physical_memory_read M a (length bs) m' w = (bs, m', w) \<and>
        (\<forall>x. x < unat a \<or> unat a + length bs \<le> x \<longrightarrow> ram m' x = ram m x))) \<and>
   (rom_range M (unat a) (length bs) \<and> rom_ignored M \<longrightarrow>
     cpu_physical_memory_write M a bs m w = (m, w) \<and>
     cpu_physical_memory_read M a (length bs) m w = (mem_read (ram m) (unat a) (length bs), m, w))"
proof (intro conjI impI)
  assume rr: "ram_range M (unat a) (length bs)"
  then obtain m' where "cpu_physical_memory_write M a bs m w = (m', w)"
    "ram m' = mem_write (ram m) (unat a) bs" by (rule cpu_physical_memory_write_ram)
  then show "\<exists>m'. cpu_physical_memory_write M a bs m w = (m', w) \<and>
        cpu_physical_memory_read M a (length bs) m' w = (bs, m', w) \<and>
        (\<forall>x. x < unat a \<or> unat a + length bs \<le> x \<longrightarrow> ram m' x = ram m x)"
    using rr by (auto simp: cpu_physical_memory_read_mem mem_write_outside)
qed (simp_all add: cpu_physical_memory_write_rom_ignored cpu_physical_memory_read_mem)

lemma sample_ram: "a + n \<le> 0x100000 \<Longrightarrow> ram_range sample_map a n"
proof -
  have "ram_page sample_map k" if "k < 256" for k
  proof -
    have "of_nat k < (256 :: u64)" using that by (simp add: word_less_nat_alt unat_of_nat)
    then show ?thesis by (simp add: ram_page_def sample_map_def push_bit_eq_mult)
  qed
  then show "a + n \<le> 0x100000 \<Longrightarrow> ram_range sample_map a n"
    by (auto simp: ram_range_def div_less_iff_less_mult)
qed

lemma sample_rom: "0x100000 \<le> a \<Longrightarrow> a + n \<le> 0x101000 \<Longrightarrow> rom_range sample_map a n"
proof -
  have p: "rom_page sample_map 256" by (simp add: rom_page_def sample_map_def)
  assume a: "0x100000 \<le> a" "a + n \<le> 0x101000"
  have "x div 4096 = 256" if "a \<le> x" "x < a + n" for x
    using a that by (intro div_nat_eqI) auto
  with a p show "rom_range sample_map a n" by (auto simp: rom_range_def)
qed

theorem cpu_physical_memory_roundtrip_witness:
  "\<exists>m'. cpu_physical_memory_write sample_map 0x1ffe [1, 2, 3, 4] sample_mem () = (m', ()) \<and>
     cpu_physical_memory_read sample_map 0x1ffe (length [1, 2, 3, 4 :: u8]) m' () = ([1, 2, 3, 4], m', ()) \<and>
     cpu_physical_memory_write sample_map 0x100004 [1, 2, 3, 4] sample_mem () = (sample_mem, ())"
proof -
  have "ram_range sample_map (unat (0x1ffe :: u64)) (length [1, 2, 3, 4 :: u8])"
    by (rule sample_ram) simp
  then obtain m' where "cpu_physical_memory_write sample_map 0x1ffe [1, 2, 3, 4] sample_mem () = (m', ())"
    "cpu_physical_memory_read sample_map 0x1ffe (length [1, 2, 3, 4 :: u8]) m' () = ([1, 2, 3, 4], m', ())"
    using cpu_physical_memory_roundtrip [of sample_map "0x1ffe" "[1, 2, 3, 4]" sample_mem "()"] by blast
  moreover have "rom_range sample_map (unat (0x100004 :: u64)) (length [1, 2, 3, 4 :: u8])"
    by (rule sample_rom) simp_all
  moreover have "rom_ignored sample_map" by (simp add: rom_ignored_def sample_map_def)
  ultimately show ?thesis
    using cpu_physical_memory_roundtrip [of sample_map "0x100004" "[1, 2, 3, 4]" sample_mem "()"] by auto
qed

end
