(* ===== verification/R6040.thy ===== *)
theory R6040
  imports Irq Exec_Mem
begin

text \<open>
  The R6040 ethernet controller (\<^verbatim>\<open>hw/r6040.c\<close>).  The register file is used through its word view
  \<open>regs_w\<close> only.  An operation works on the system the device sits in: its own state, the guest
  memory and the world \<open>'w\<close> of the other devices; the environment holds what the device is
  wired to: the memory map, its interrupt pin, and \<^verbatim>\<open>qemu_send_packet\<close>, the network behind it,
  which is free to change the whole system (a peer may answer while a packet is being sent).
  The transmit loop has no bound in the code: \<open>None\<close> is a transmission that never returns.
\<close>

section \<open>Model\<close>

abbreviation MPSCCR_W :: nat where "MPSCCR_W \<equiv> 0x88 div 2"
abbreviation MAC0_W :: nat where "MAC0_W \<equiv> 0x68 div 2"
abbreviation MAC1_W :: nat where "MAC1_W \<equiv> 0x6a div 2"
abbreviation MAC2_W :: nat where "MAC2_W \<equiv> 0x6c div 2"
abbreviation TX_PKT_COUNT_W :: nat where "TX_PKT_COUNT_W \<equiv> 0x5a div 2"
abbreviation RX_PKT_COUNT_W :: nat where "RX_PKT_COUNT_W \<equiv> 0x50 div 2"
abbreviation MCR0_W :: nat where "MCR0_W \<equiv> 0x00 div 2"
abbreviation MCR1_W :: nat where "MCR1_W \<equiv> 0x04 div 2"
abbreviation MTPR_W :: nat where "MTPR_W \<equiv> 0x14 div 2"
abbreviation MRBSR_W :: nat where "MRBSR_W \<equiv> 0x18 div 2"
abbreviation MISR_W :: nat where "MISR_W \<equiv> 0x3c div 2"
abbreviation MIER_W :: nat where "MIER_W \<equiv> 0x40 div 2"
abbreviation MMDIO_W :: nat where "MMDIO_W \<equiv> 0x20 div 2"
abbreviation MDIO_READ_W :: nat where "MDIO_READ_W \<equiv> 0x24 div 2"
abbreviation MDIO_WRITE_W :: nat where "MDIO_WRITE_W \<equiv> 0x28 div 2"
abbreviation MRCNT_W :: nat where "MRCNT_W \<equiv> 0x50 div 2"
abbreviation MTCNT_W :: nat where "MTCNT_W \<equiv> 0x5c div 2"

record R6040State =
  regs_w :: "nat \<Rightarrow> u16"
  phy_regs :: "nat \<Rightarrow> u16"
  phy_op_in_progress :: u32
  macaddr :: "u8 list"
  pci_config :: "nat \<Rightarrow> u8"

record 'w r6040_sys =
  r_dev :: R6040State
  r_mem :: phys_mem
  r_world :: 'w

record 'w r6040_env =
  r_map :: "'w mem_map"
  r_irq :: "'w qemu_irq"
  r_send :: "u8 list \<Rightarrow> 'w r6040_sys \<Rightarrow> 'w r6040_sys"

definition set_reg :: "nat \<Rightarrow> u16 \<Rightarrow> R6040State \<Rightarrow> R6040State" where
  "set_reg i v s = s\<lparr>regs_w := (regs_w s)(i := v)\<rparr>"

definition on_dev :: "(R6040State \<Rightarrow> R6040State) \<Rightarrow> 'w r6040_sys \<Rightarrow> 'w r6040_sys" where
  "on_dev f y = y\<lparr>r_dev := f (r_dev y)\<rparr>"

definition TX_START :: "R6040State \<Rightarrow> u32" where
  "TX_START s = ucast (regs_w s (0x2c div 2)) OR push_bit 16 (ucast (regs_w s (0x30 div 2)))"

definition TX_START_SET :: "u32 \<Rightarrow> R6040State \<Rightarrow> R6040State" where
  "TX_START_SET start s =
     set_reg (0x30 div 2) (ucast (drop_bit 16 start AND 0xffff)) (set_reg (0x2c div 2) (ucast (start AND 0xffff)) s)"

definition RX_START :: "R6040State \<Rightarrow> u32" where
  "RX_START s = ucast (regs_w s (0x34 div 2)) OR push_bit 16 (ucast (regs_w s (0x38 div 2)))"

definition RX_START_SET :: "u32 \<Rightarrow> R6040State \<Rightarrow> R6040State" where
  "RX_START_SET start s =
     set_reg (0x38 div 2) (ucast (drop_bit 16 start AND 0xffff)) (set_reg (0x34 div 2) (ucast (start AND 0xffff)) s)"

definition r6040_update_irq :: "'w r6040_env \<Rightarrow> 'w r6040_sys \<Rightarrow> 'w r6040_sys" where
  "r6040_update_irq E y =
     (let isr = regs_w (r_dev y) MISR_W AND regs_w (r_dev y) MIER_W
      in y\<lparr>r_world := qemu_set_irq (r_irq E) (if isr \<noteq> 0 then 1 else 0) (r_world y)\<rparr>)"

definition PhysicalLinkUp :: "R6040State \<Rightarrow> R6040State" where
  "PhysicalLinkUp s = s\<lparr>phy_regs := (phy_regs s)(1 := phy_regs s 1 OR push_bit 2 1)\<rparr>"

text \<open>
  The descriptor as it lies in guest memory: 18 bytes of fields and two bytes of padding, which
  the device copies along.
\<close>

record Descriptor =
  dst :: u16
  dlen :: u16
  dbp :: u32
  dnx :: u32
  hidx :: u16
  reserved_1 :: u16
  reserved_2 :: u16
  padding :: u16

definition desc_of_bytes :: "u8 list \<Rightarrow> Descriptor" where
  "desc_of_bytes bs = \<lparr>dst = of_le (take 2 bs), dlen = of_le (take 2 (drop 2 bs)),
     dbp = of_le (take 4 (drop 4 bs)), dnx = of_le (take 4 (drop 8 bs)),
     hidx = of_le (take 2 (drop 12 bs)), reserved_1 = of_le (take 2 (drop 14 bs)),
     reserved_2 = of_le (take 2 (drop 16 bs)), padding = of_le (take 2 (drop 18 bs))\<rparr>"

definition bytes_of_desc :: "Descriptor \<Rightarrow> u8 list" where
  "bytes_of_desc d = to_le 2 (dst d) @ to_le 2 (dlen d) @ to_le 4 (dbp d) @ to_le 4 (dnx d) @
     to_le 2 (hidx d) @ to_le 2 (reserved_1 d) @ to_le 2 (reserved_2 d) @ to_le 2 (padding d)"

definition mem_get :: "'w r6040_env \<Rightarrow> u32 \<Rightarrow> nat \<Rightarrow> 'w r6040_sys \<Rightarrow> u8 list \<times> 'w r6040_sys" where
  "mem_get E addr n y =
     (let (bs, m, w) = cpu_physical_memory_read (r_map E) (ucast addr) n (r_mem y) (r_world y)
      in (bs, y\<lparr>r_mem := m, r_world := w\<rparr>))"

definition mem_put :: "'w r6040_env \<Rightarrow> u32 \<Rightarrow> u8 list \<Rightarrow> 'w r6040_sys \<Rightarrow> 'w r6040_sys" where
  "mem_put E addr bs y =
     (let (m, w) = cpu_physical_memory_write (r_map E) (ucast addr) bs (r_mem y) (r_world y)
      in y\<lparr>r_mem := m, r_world := w\<rparr>)"

definition TryToSendOnePacket :: "'w r6040_env \<Rightarrow> 'w r6040_sys \<Rightarrow> bool \<times> 'w r6040_sys" where
  "TryToSendOnePacket E y =
     (let (bs, y1) = mem_get E (TX_START (r_dev y)) 20 y;
          d = desc_of_bytes bs
      in if dst d AND 0x8000 \<noteq> 0 then
           (let tocopy = (ucast (dlen d) :: u32);
                tocopy' = (if tocopy > 2000 then 2000 else tocopy);
                (pkt, y2) = mem_get E (dbp d) (unat tocopy') y1;
                y3 = r_send E pkt y2;
                y4 = on_dev (\<lambda>s. set_reg TX_PKT_COUNT_W (regs_w s TX_PKT_COUNT_W + 1) s) y3;
                d' = d\<lparr>dst := dst d AND NOT 0x8000\<rparr>;
                y5 = mem_put E (TX_START (r_dev y4)) (bytes_of_desc d') y4;
                y6 = on_dev (TX_START_SET (dnx d')) y5
            in (True, y6))
         else (False, y1))"

partial_function (option) transmit_loop :: "'w r6040_env \<Rightarrow> nat \<Rightarrow> 'w r6040_sys \<Rightarrow> (nat \<times> 'w r6040_sys) option" where
  "transmit_loop E count y =
     (let (sent, y') = TryToSendOnePacket E y
      in if sent then transmit_loop E (count + 1) y' else Some (count, y'))"

definition r6040_transmit :: "'w r6040_env \<Rightarrow> 'w r6040_sys \<Rightarrow> 'w r6040_sys option" where
  "r6040_transmit E y =
     (case transmit_loop E 0 y of
        None \<Rightarrow> None
      | Some (count, y1) \<Rightarrow>
          (if count \<noteq> 0
           then Some (r6040_update_irq E (on_dev (\<lambda>s. set_reg MISR_W (regs_w s MISR_W OR 0x10) s) y1))
           else Some y1))"

definition r6040_can_receive :: "R6040State \<Rightarrow> bool" where
  "r6040_can_receive s \<longleftrightarrow> regs_w s 0 AND BIT 1 \<noteq> 0"

text \<open>
  The length of the copy, \<^verbatim>\<open>tocopy-4\<close>, is computed in 32 bits and passed as an \<^verbatim>\<open>int\<close>; the memory
  write does nothing when it is negative.
\<close>

definition ReceiveOnePacket :: "'w r6040_env \<Rightarrow> u8 list \<Rightarrow> 'w r6040_sys \<Rightarrow> int \<times> 'w r6040_sys" where
  "ReceiveOnePacket E buf y =
     (let tocopy = (of_nat (length buf) + 4 :: u32);
          (bs, y1) = mem_get E (RX_START (r_dev y)) 20 y;
          d = desc_of_bytes bs
      in if dst d AND 0x8000 \<noteq> 0 then
           (let max_buffer = regs_w (r_dev y1) MRBSR_W AND 0x07fc;
                tocopy' = (if tocopy > ucast max_buffer then ucast max_buffer else tocopy);
                y2 = mem_put E (dbp d) (take (nat (sint (tocopy' - 4))) buf) y1;
                d1 = d\<lparr>dst := (dst d OR push_bit 14 1), dlen := ucast tocopy'\<rparr>;
                d2 = d1\<lparr>dst := dst d1 AND NOT 0x8000\<rparr>;
                y3 = mem_put E (RX_START (r_dev y2)) (bytes_of_desc d2) y2;
                y4 = on_dev (\<lambda>s. set_reg RX_PKT_COUNT_W (regs_w s RX_PKT_COUNT_W + 1) s) y3;
                y5 = on_dev (\<lambda>s. set_reg MISR_W (regs_w s MISR_W OR 1) s) y4;
                y6 = r6040_update_irq E y5;
                y7 = on_dev (RX_START_SET (dnx d2)) y6
            in (0, y7))
         else (-1, y1))"

definition r6040_receive :: "'w r6040_env \<Rightarrow> u8 list \<Rightarrow> 'w r6040_sys \<Rightarrow> int \<times> 'w r6040_sys" where
  "r6040_receive E buf y =
     (let (r, y1) = ReceiveOnePacket E buf y
      in if 0 = r then (int (length buf), y1) else (0, y1))"

definition BIT_SET :: "u16 \<Rightarrow> u16 \<Rightarrow> nat \<Rightarrow> bool" where
  "BIT_SET old new b \<longleftrightarrow> (let before = old AND BIT b; after = new AND BIT b in before = 0 \<and> after \<noteq> 0)"

definition mdio_op :: "u32 \<Rightarrow> R6040State \<Rightarrow> R6040State" where
  "mdio_op val s =
     (let phy_exists = (val AND 0x1f00 = 0x100);
          phy = unat (val AND 0x1f)
      in if val AND BIT 13 \<noteq> 0 then
           (if phy_exists then set_reg MDIO_READ_W (phy_regs s phy) s else set_reg MDIO_READ_W 0xffff s)
         else if val AND BIT 14 \<noteq> 0 then
           (if phy_exists then s\<lparr>phy_regs := (phy_regs s)(phy := regs_w s MDIO_WRITE_W)\<rparr> else s)
         else s)"

definition r6040_ioport_writew :: "'w r6040_env \<Rightarrow> u32 \<Rightarrow> u32 \<Rightarrow> 'w r6040_sys \<Rightarrow> 'w r6040_sys option" where
  "r6040_ioport_writew E addr val y =
     (let a = unat (addr AND 0xff) div 2;
          old = regs_w (r_dev y) a;
          store = (\<lambda>v y. Some (on_dev (set_reg a (ucast (v AND (0xFFFF :: u32)))) y))
      in if a = MCR0_W then
           (if BIT_SET old (ucast val) 12
            then (case r6040_transmit E y of None \<Rightarrow> None | Some y1 \<Rightarrow> store val y1)
            else store val y)
         else if a = MCR1_W then store (if val AND 1 \<noteq> 0 then 0x0010 else val) y
         else if a = MTPR_W then
           (if val AND 1 \<noteq> 0
            then (case r6040_transmit E y of None \<Rightarrow> None | Some y1 \<Rightarrow> store (val AND NOT 1) y1)
            else store val y)
         else if a = MMDIO_W then
           store (val OR 0x6000) (on_dev (\<lambda>s. (mdio_op val s)\<lparr>phy_op_in_progress := 1\<rparr>) y)
         else if a = MISR_W then Some y
         else if a = MIER_W then Some (r6040_update_irq E (on_dev (set_reg MIER_W (ucast val)) y))
         else if a = MRCNT_W \<or> a = MTCNT_W then Some y
         else store val y)"

definition r6040_ioport_readw :: "u32 \<Rightarrow> R6040State \<Rightarrow> u32 \<times> R6040State" where
  "r6040_ioport_readw addr s =
     (let a = unat (addr AND 0xff) div 2;
          tmp = ucast (regs_w s a);
          s1 = (if a = MMDIO_W then
                  (if phy_op_in_progress s \<noteq> 0
                   then (set_reg a (regs_w s a AND NOT 0x6000) s)\<lparr>phy_op_in_progress := 0\<rparr> else s)
                else if a = MISR_W then set_reg a 0 s
                else if a = MIER_W then s
                else if a = MRCNT_W \<or> a = MTCNT_W then set_reg a 0 s
                else s)
      in (tmp, s1))"

definition r6040_ioport_writeb :: "'w r6040_env \<Rightarrow> u32 \<Rightarrow> u32 \<Rightarrow> 'w r6040_sys \<Rightarrow> 'w r6040_sys option" where
  "r6040_ioport_writeb E addr val y =
     (let addr' = addr AND 0xFF;
          val' = val AND 0xFF;
          old = regs_w (r_dev y) (unat addr' div 2);
          old' = (if addr' AND 1 \<noteq> 0 then (old AND 0xff) OR ucast (push_bit 8 val')
                  else (old AND 0xff00) OR ucast val')
      in r6040_ioport_writew E addr' (ucast old') y)"

definition r6040_ioport_writel :: "'w r6040_env \<Rightarrow> u32 \<Rightarrow> u32 \<Rightarrow> 'w r6040_sys \<Rightarrow> 'w r6040_sys option" where
  "r6040_ioport_writel E addr val y =
     (case r6040_ioport_writew E addr (val AND 0xffff) y of
        None \<Rightarrow> None
      | Some y1 \<Rightarrow> r6040_ioport_writew E (addr + 2) (drop_bit 16 val AND 0xffff) y1)"

definition r6040_ioport_readb :: "u32 \<Rightarrow> R6040State \<Rightarrow> u32 \<times> R6040State" where
  "r6040_ioport_readb addr s =
     (let (tmp, s1) = r6040_ioport_readw (addr AND NOT 1) s
      in if addr AND 1 \<noteq> 0 then (drop_bit 8 (tmp AND 0xff00), s1) else (tmp AND 0xff, s1))"

definition r6040_ioport_readl :: "u32 \<Rightarrow> R6040State \<Rightarrow> u32 \<times> R6040State" where
  "r6040_ioport_readl addr s =
     (let (tmp, s1) = r6040_ioport_readw addr s;
          (hi, s2) = r6040_ioport_readw (addr + 2) s1
      in (tmp OR push_bit 16 hi, s2))"

text \<open>
  The initial registers, the MAC address and the configuration space; the device and the expiry
  time of the link timer, for the clock in milliseconds.  The registration of the BAR, the
  ports and the network client belongs to the PCI, I/O port and network layers.
\<close>

definition r6040_init_pci :: "int \<Rightarrow> R6040State \<Rightarrow> R6040State \<times> int" where
  "r6040_init_pci clock_ms s =
     (let s1 = set_reg MPSCCR_W 0x9f07 s;
          s2 = set_reg MRBSR_W 0x600 s1;
          s3 = set_reg MAC2_W 0x5734 (set_reg MAC1_W 0x1200 (set_reg MAC0_W 0x5452 s2));
          s4 = s3\<lparr>macaddr := [ucast (regs_w s3 MAC0_W AND 0xff), ucast (drop_bit 8 (regs_w s3 MAC0_W) AND 0xff),
                 ucast (regs_w s3 MAC1_W AND 0xff), ucast (drop_bit 8 (regs_w s3 MAC1_W) AND 0xff),
                 ucast (regs_w s3 MAC2_W AND 0xff), ucast (drop_bit 8 (regs_w s3 MAC2_W) AND 0xff)]\<rparr>;
          s5 = s4\<lparr>phy_op_in_progress := 0\<rparr>;
          s6 = s5\<lparr>phy_regs := (phy_regs s5)(1 := 0x786d AND NOT (push_bit 2 1), 2 := 0x0243, 3 := 0x0c54)\<rparr>;
          s7 = s6\<lparr>pci_config := (pci_config s6)(0x0e := 0, 0x3c := 0xa, 0x3d := 1)\<rparr>
      in (s7, clock_ms + 1500000000))"

section \<open>Specification\<close>

definition desc_at :: "bytes \<Rightarrow> nat \<Rightarrow> Descriptor" where
  "desc_at m a = desc_of_bytes (mem_read m a 20)"

definition tx_owned :: "bytes \<Rightarrow> nat \<Rightarrow> bool" where
  "tx_owned m a \<longleftrightarrow> bit (m (a + 1)) 7"

definition tx_release :: "bytes \<Rightarrow> nat \<Rightarrow> bytes" where
  "tx_release m a = m(a + 1 := m (a + 1) AND 0x7f)"

definition tx_packet :: "bytes \<Rightarrow> nat \<Rightarrow> u8 list" where
  "tx_packet m a = mem_read m (unat (dbp (desc_at m a))) (min 2000 (unat (dlen (desc_at m a))))"

text \<open>
  The chain of descriptors that the device owns, from address \<open>a\<close>: the packets in the order they
  are sent, the memory with every visited descriptor given back, and the address of the first
  descriptor the device does not own.
\<close>

inductive tx_chain :: "'w mem_map \<Rightarrow> bytes \<Rightarrow> u32 \<Rightarrow> u8 list list \<Rightarrow> bytes \<Rightarrow> u32 \<Rightarrow> bool" for M where
  stop: "mem_range M (unat a) 20 \<Longrightarrow> \<not> tx_owned m (unat a) \<Longrightarrow> tx_chain M m a [] m a"
| send: "ram_range M (unat a) 20 \<Longrightarrow>
     mem_range M (unat (dbp (desc_at m (unat a)))) (length (tx_packet m (unat a))) \<Longrightarrow>
     tx_owned m (unat a) \<Longrightarrow>
     tx_chain M (tx_release m (unat a)) (dnx (desc_at m (unat a))) ps m' a' \<Longrightarrow>
     tx_chain M m a (tx_packet m (unat a) # ps) m' a'"

text \<open>A network behind the device that takes the packet and does not call back into it.\<close>

definition quiet_net :: "'w r6040_env \<Rightarrow> (u8 list \<Rightarrow> 'w \<Rightarrow> 'w) \<Rightarrow> bool" where
  "quiet_net E g \<longleftrightarrow> (\<forall>p y. r_send E p y = y\<lparr>r_world := g p (r_world y)\<rparr>)"

definition tx_done :: "u32 \<Rightarrow> u16 \<Rightarrow> R6040State \<Rightarrow> R6040State" where
  "tx_done a n s = TX_START_SET a (set_reg TX_PKT_COUNT_W (regs_w s TX_PKT_COUNT_W + n) s)"


definition flat_map :: "'w mem_map" where
  "flat_map = \<lparr>phys_page_find = (\<lambda>k. Some \<lparr>phys_offset = push_bit 12 k, region_offset = 0\<rparr>),
     io_mem_read = \<lambda>i sz a w. (0, w), io_mem_write = \<lambda>i sz a v w. w\<rparr>"

definition log_env :: "'w mem_map \<Rightarrow> (u8 list \<Rightarrow> 'w \<Rightarrow> 'w) \<Rightarrow> 'w r6040_env" where
  "log_env M g = \<lparr>r_map = M, r_irq = None, r_send = \<lambda>p y. y\<lparr>r_world := g p (r_world y)\<rparr>\<rparr>"

definition r6040_zero :: R6040State where
  "r6040_zero = \<lparr>regs_w = \<lambda>_. 0, phy_regs = \<lambda>_. 0, phy_op_in_progress = 0, macaddr = [], pci_config = \<lambda>_. 0\<rparr>"

definition rom_trap :: "'w r6040_env \<Rightarrow> u32 \<Rightarrow> 'w r6040_sys \<Rightarrow> bool" where
  "rom_trap E a y \<longleftrightarrow> TX_START (r_dev y) = a \<and>
     (let m = ram (r_mem y) in
      tx_owned m (unat a) \<and> dnx (desc_at m (unat a)) = a \<and>
      mem_range (r_map E) (unat (dbp (desc_at m (unat a)))) (length (tx_packet m (unat a))))"

definition rx_len :: "R6040State \<Rightarrow> u8 list \<Rightarrow> nat" where
  "rx_len s buf = min (length buf + 4) (unat (regs_w s MRBSR_W AND 0x07fc))"

definition mdio_addr :: "u32 \<Rightarrow> u32 \<Rightarrow> u32" where
  "mdio_addr phy reg = push_bit 8 phy OR reg"

section \<open>Descriptors in memory\<close>

lemma not_bit_of_le: "8 * length bs \<le> k \<Longrightarrow> \<not> bit (of_le bs :: 'a::len word) k"
  by (induction bs arbitrary: k) (auto simp: bit_simps dest: bit_imp_le_length)

lemma to_le_of_le:
  "length bs = n \<Longrightarrow> 8 * n \<le> LENGTH('a) \<Longrightarrow> to_le n (of_le bs :: 'a::len word) = bs"
proof (induction bs arbitrary: n)
  case Nil
  then show ?case by simp
next
  case (Cons b bs)
  then obtain k where n: "n = Suc k" "length bs = k" by auto
  have "ucast (ucast b OR push_bit 8 (of_le bs :: 'a word)) = b"
    using Cons.prems n by (auto simp: bit_eq_iff bit_simps dest: bit_imp_le_length)
  moreover have "drop_bit 8 (ucast b OR push_bit 8 (of_le bs :: 'a word)) = of_le bs"
  proof (rule bit_word_eqI)
    fix i assume i: "i < LENGTH('a)"
    have "\<not> bit (of_le bs :: 'a word) i" if "\<not> 8 + i < LENGTH('a)"
      using that Cons.prems n by (intro not_bit_of_le) auto
    with i show "bit (drop_bit 8 (ucast b OR push_bit 8 (of_le bs :: 'a word))) i = bit (of_le bs :: 'a word) i"
      by (auto simp: bit_simps dest: bit_imp_le_length)
  qed
  ultimately show ?case using Cons n by simp
qed

lemma bytes_of_desc_dst:
  assumes "length bs = 20"
  shows "bytes_of_desc ((desc_of_bytes bs)\<lparr>dst := x\<rparr>) = to_le 2 x @ drop 2 bs"
proof -
  have "bytes_of_desc ((desc_of_bytes bs)\<lparr>dst := x\<rparr>) = to_le 2 x @ take 2 (drop 2 bs) @ take 4 (drop 4 bs) @
      take 4 (drop 8 bs) @ take 2 (drop 12 bs) @ take 2 (drop 14 bs) @ take 2 (drop 16 bs) @ take 2 (drop 18 bs)"
    using assms by (simp add: bytes_of_desc_def desc_of_bytes_def to_le_of_le)
  also have "\<dots> = to_le 2 x @ drop 2 bs"
    using assms append_take_drop_id [of 2 "drop 2 bs"] append_take_drop_id [of 4 "drop 4 bs"]
      append_take_drop_id [of 4 "drop 8 bs"] append_take_drop_id [of 2 "drop 12 bs"]
      append_take_drop_id [of 2 "drop 14 bs"] append_take_drop_id [of 2 "drop 16 bs"]
    by (simp add: drop_drop)
  finally show ?thesis .
qed

lemma length_bytes_of_desc [simp]: "length (bytes_of_desc d) = 20"
  by (simp add: bytes_of_desc_def)

lemma take_drop_mem_read: "k + j \<le> n \<Longrightarrow> take j (drop k (mem_read m a n)) = mem_read m (a + k) j"
  by (rule nth_equalityI) (auto simp: add.assoc)

lemma mem_read_list:
  "mem_read m a 2 = [m a, m (a + 1)]" "mem_read m a 4 = [m a, m (a + 1), m (a + 2), m (a + 3)]"
  by (simp_all add: mem_read_def upt_rec numeral_eq_Suc)

lemma desc_at_fields:
  "desc_at m a = \<lparr>dst = of_le (mem_read m a 2), dlen = of_le (mem_read m (a + 2) 2),
     dbp = of_le (mem_read m (a + 4) 4), dnx = of_le (mem_read m (a + 8) 4),
     hidx = of_le (mem_read m (a + 12) 2), reserved_1 = of_le (mem_read m (a + 14) 2),
     reserved_2 = of_le (mem_read m (a + 16) 2), padding = of_le (mem_read m (a + 18) 2)\<rparr>"
proof -
  have "take 2 (mem_read m a 20) = mem_read m a 2" using take_drop_mem_read [of 0 2 20 m a] by simp
  moreover have "take 2 (drop 18 (mem_read m a 20)) = mem_read m (a + 18) 2" by (rule take_drop_mem_read) simp
  ultimately show ?thesis
    unfolding desc_at_def desc_of_bytes_def by (simp only:) (simp add: take_drop_mem_read)
qed

lemma dst_desc_at: "dst (desc_at m a) = ucast (m a) OR push_bit 8 (ucast (m (a + 1)))"
  by (simp add: desc_at_fields mem_read_list)

lemma bit_dst_desc_at: "bit (dst (desc_at m a)) 15 \<longleftrightarrow> tx_owned m a"
  by (auto simp: dst_desc_at tx_owned_def bit_simps dest: bit_imp_le_length)

lemma owned_dst: "dst (desc_at m a) AND 0x8000 \<noteq> 0 \<longleftrightarrow> tx_owned m a"
proof -
  have "(0x8000 :: u16) = BIT 15" by (simp add: BIT_def)
  then show ?thesis by (simp only: and_BIT_eq_0) (simp add: bit_dst_desc_at)
qed

lemma mem_write_head:
  assumes "length bs = 20" "bs = mem_read m a 20"
  shows "mem_write m a ([x, y] @ drop 2 bs) = m(a := x, a + 1 := y)"
proof (rule ext)
  fix z
  consider "z < a" | "z = a" | "z = a + 1" | "a + 2 \<le> z" "z < a + 20" | "a + 20 \<le> z" by linarith
  then show "mem_write m a ([x, y] @ drop 2 bs) z = (m(a := x, a + 1 := y)) z"
  proof cases
    case 4
    define k where "k = z - (a + 2)"
    have "z = a + (2 + k)" "k < 18" using 4 by (simp_all add: k_def)
    then show ?thesis using assms by (simp add: mem_write_def nth_append)
  qed (use assms in \<open>auto simp: mem_write_def nth_append\<close>)
qed

lemma released_dst: "to_le 2 (dst (desc_at m a) AND NOT 0x8000) = [m a, m (a + 1) AND 0x7f]"
proof -
  have c: "(0x8000 :: u16) = BIT 15" "(0x7f :: u8) = NOT (BIT 7)" by (simp_all add: BIT_def)
  have lo: "(ucast ((ucast x OR push_bit 8 (ucast y)) AND NOT (BIT 15) :: u16) :: u8) = x" for x y :: u8
    by (rule bit_word_eqI) (auto simp: bit_simps dest: bit_imp_le_length)
  have hi: "(ucast (drop_bit 8 ((ucast x OR push_bit 8 (ucast y)) AND NOT (BIT 15) :: u16)) :: u8) = y AND NOT (BIT 7)"
    for x y :: u8
    by (rule bit_word_eqI) (auto simp: bit_simps dest: bit_imp_le_length)
  show ?thesis unfolding c dst_desc_at numeral_2_eq_2 to_le.simps lo hi by simp
qed

lemma release_bytes:
  "mem_write m a (bytes_of_desc ((desc_at m a)\<lparr>dst := dst (desc_at m a) AND NOT 0x8000\<rparr>)) = tx_release m a"
proof -
  have eq: "bytes_of_desc ((desc_at m a)\<lparr>dst := dst (desc_at m a) AND NOT 0x8000\<rparr>) =
      to_le 2 (dst (desc_at m a) AND NOT 0x8000) @ drop 2 (mem_read m a 20)"
    unfolding desc_at_def [of m a] by (rule bytes_of_desc_dst) simp
  show ?thesis unfolding eq released_dst
    using mem_write_head [of "mem_read m a 20" m a "m a" "m (a + 1) AND 0x7f"]
    by (simp add: tx_release_def)
qed

section \<open>Transmission\<close>

lemma unat_ucast_u64 [simp]: "unat (ucast (a :: u32) :: u64) = unat a"
  by (rule unat_ucast_up) simp

lemma mem_get_mem:
  "mem_range (r_map E) (unat a) n \<Longrightarrow> mem_get E a n y = (mem_read (ram (r_mem y)) (unat a) n, y)"
  by (simp add: mem_get_def cpu_physical_memory_read_mem)

lemma mem_put_ram:
  assumes "ram_range (r_map E) (unat a) (length bs)"
  obtains m' where "mem_put E a bs y = y\<lparr>r_mem := m'\<rparr>" and "ram m' = mem_write (ram (r_mem y)) (unat a) bs"
proof -
  obtain m' where "cpu_physical_memory_write (r_map E) (ucast a) bs (r_mem y) (r_world y) = (m', r_world y)"
    "ram m' = mem_write (ram (r_mem y)) (unat a) bs"
    using cpu_physical_memory_write_ram [of "r_map E" "ucast a" bs "r_mem y" "r_world y"] assms by auto
  then show ?thesis by (intro that [of m']) (simp_all add: mem_put_def)
qed

lemma start_regs [simp]:
  "TX_START (set_reg 45 v s) = TX_START s"
  "TX_START (TX_START_SET a s) = a"
  "RX_START (RX_START_SET a s) = a"
proof -
  have "(ucast (ucast (a AND 0xffff) :: u16) :: u32) OR push_bit 16 (ucast (ucast (drop_bit 16 a AND 0xffff) :: u16)) = a"
  proof -
    have m: "(0xffff :: u32) = mask 16" by (simp add: mask_eq_exp_minus_1)
    show ?thesis unfolding m by (rule bit_word_eqI) (auto simp: bit_simps)
  qed
  then show "TX_START (TX_START_SET a s) = a" "RX_START (RX_START_SET a s) = a"
    by (simp_all add: TX_START_def TX_START_SET_def RX_START_def RX_START_SET_def set_reg_def)
  show "TX_START (set_reg 45 v s) = TX_START s"
    by (simp add: TX_START_def set_reg_def)
qed

lemma min_2000: "unat (if (ucast (l :: u16) :: u32) > 2000 then 2000 else ucast l :: u32) = min 2000 (unat l)"
  by (auto simp: word_less_nat_alt unat_ucast_up min_def)

lemma try_send_stop:
  assumes "mem_range (r_map E) (unat (TX_START (r_dev y))) 20"
    and "\<not> tx_owned (ram (r_mem y)) (unat (TX_START (r_dev y)))"
  shows "TryToSendOnePacket E y = (False, y)"
  using assms owned_dst [of "ram (r_mem y)" "unat (TX_START (r_dev y))"]
  by (simp add: TryToSendOnePacket_def mem_get_mem desc_at_def Let_def)

lemma try_send_owned:
  fixes E y
  defines "m \<equiv> ram (r_mem y)" and "a \<equiv> TX_START (r_dev y)"
  assumes "quiet_net E g" and "ram_range (r_map E) (unat a) 20"
    and "mem_range (r_map E) (unat (dbp (desc_at m (unat a)))) (length (tx_packet m (unat a)))"
    and "tx_owned m (unat a)"
  shows "\<exists>m'. TryToSendOnePacket E y = (True, y\<lparr>r_dev := tx_done (dnx (desc_at m (unat a))) 1 (r_dev y),
       r_mem := m', r_world := g (tx_packet m (unat a)) (r_world y)\<rparr>) \<and> ram m' = tx_release m (unat a)"
proof -
  let ?d = "desc_at m (unat a)"
  let ?y4 = "y\<lparr>r_world := g (tx_packet m (unat a)) (r_world y),
    r_dev := set_reg TX_PKT_COUNT_W (regs_w (r_dev y) TX_PKT_COUNT_W + 1) (r_dev y)\<rparr>"
  obtain m' where m': "mem_put E a (bytes_of_desc (?d\<lparr>dst := dst ?d AND NOT 0x8000\<rparr>)) ?y4 = ?y4\<lparr>r_mem := m'\<rparr>"
    "ram m' = mem_write m (unat a) (bytes_of_desc (?d\<lparr>dst := dst ?d AND NOT 0x8000\<rparr>))"
    using mem_put_ram [of E a "bytes_of_desc (?d\<lparr>dst := dst ?d AND NOT 0x8000\<rparr>)" ?y4] assms(4)
    by (auto simp: m_def)
  have d: "mem_get E (TX_START (r_dev y)) 20 y = (mem_read m (unat a) 20, y)"
    unfolding m_def a_def using assms(4) by (intro mem_get_mem) (auto simp: a_def)
  have p: "mem_get E (dbp ?d) (unat (if (ucast (dlen ?d) :: u32) > 2000 then 2000 else ucast (dlen ?d) :: u32)) y =
      (tx_packet m (unat a), y)"
    using assms(5) unfolding min_2000 by (simp add: mem_get_mem tx_packet_def m_def)
  have "TryToSendOnePacket E y = (True, y\<lparr>r_dev := tx_done (dnx ?d) 1 (r_dev y), r_mem := m',
      r_world := g (tx_packet m (unat a)) (r_world y)\<rparr>)"
    unfolding TryToSendOnePacket_def d Let_def case_prod_conv desc_at_def [symmetric] p
    using assms(3,6) m'(1)
    by (simp add: owned_dst quiet_net_def on_dev_def tx_done_def a_def)
  then show ?thesis using m'(2) release_bytes [of m "unat a"] by auto
qed

lemma tx_done_tx_done: "tx_done b n (tx_done a k s) = tx_done b (k + n) s"
  unfolding tx_done_def TX_START_SET_def set_reg_def
  by (rule R6040State.equality) (auto simp: fun_eq_iff algebra_simps)

lemma TX_START_tx_done [simp]: "TX_START (tx_done a n s) = a"
  by (simp add: tx_done_def)

lemma transmit_loop_chain:
  assumes "quiet_net E g" and "tx_chain (r_map E) m a pkts m' a'"
    and "ram (r_mem y) = m" and "TX_START (r_dev y) = a"
  shows "\<exists>mm. transmit_loop E c y = Some (c + length pkts,
      y\<lparr>r_dev := (if pkts = [] then r_dev y else tx_done a' (of_nat (length pkts)) (r_dev y)),
        r_mem := mm, r_world := fold g pkts (r_world y)\<rparr>) \<and> ram mm = m'"
  using assms(2-4)
proof (induction arbitrary: y c rule: tx_chain.induct)
  case (stop a m)
  then have "TryToSendOnePacket E y = (False, y)" by (intro try_send_stop) auto
  with stop show ?case by (subst transmit_loop.simps) (auto intro!: exI [of _ "r_mem y"])
next
  case (send a m ps m' a')
  obtain m1 where m1: "TryToSendOnePacket E y = (True, y\<lparr>r_dev := tx_done (dnx (desc_at m (unat a))) 1 (r_dev y),
       r_mem := m1, r_world := g (tx_packet m (unat a)) (r_world y)\<rparr>)" "ram m1 = tx_release m (unat a)"
    using try_send_owned [OF assms(1), of y] send by auto
  let ?y = "y\<lparr>r_dev := tx_done (dnx (desc_at m (unat a))) 1 (r_dev y),
       r_mem := m1, r_world := g (tx_packet m (unat a)) (r_world y)\<rparr>"
  obtain mm where "transmit_loop E (c + 1) ?y = Some (c + 1 + length ps,
      ?y\<lparr>r_dev := (if ps = [] then r_dev ?y else tx_done a' (of_nat (length ps)) (r_dev ?y)),
        r_mem := mm, r_world := fold g ps (r_world ?y)\<rparr>)" "ram mm = m'"
    using send.IH [of ?y "c + 1"] m1(2) by auto
  moreover have "ps = [] \<Longrightarrow> a' = dnx (desc_at m (unat a))"
    using send.hyps(4) by (auto elim: tx_chain.cases)
  ultimately show ?case using m1(1)
    by (subst transmit_loop.simps) (auto simp: tx_done_tx_done intro!: exI [of _ mm])
qed

text \<open>
  C11.  The transmit command sends the packets of exactly the descriptors the device owns from the
  current one on, following their links, in order, each cut to 2000 bytes; it gives every one
  of them back to the driver by clearing its ownership bit and changes no other bit of guest
  memory, stops at the first descriptor the driver owns, counts the packets, and sets the
  transmit interrupt and drives the pin when it sent at least one.
\<close>

theorem r6040_transmit_sends_chain:
  assumes "quiet_net E g"
    and "tx_chain (r_map E) (ram (r_mem y)) (TX_START (r_dev y)) pkts m' a'"
  shows "\<exists>y'. r6040_transmit E y = Some y' \<and> ram (r_mem y') = m' \<and> TX_START (r_dev y') = a' \<and>
    regs_w (r_dev y') TX_PKT_COUNT_W = regs_w (r_dev y) TX_PKT_COUNT_W + of_nat (length pkts) \<and>
    (if pkts = [] then r_dev y' = r_dev y \<and> r_world y' = r_world y
     else regs_w (r_dev y') MISR_W = regs_w (r_dev y) MISR_W OR 0x10 \<and>
       r_world y' = qemu_set_irq (r_irq E)
         (if (regs_w (r_dev y) MISR_W OR 0x10) AND regs_w (r_dev y) MIER_W \<noteq> 0 then 1 else 0)
         (fold g pkts (r_world y)))"
proof -
  obtain mm where t: "transmit_loop E 0 y = Some (length pkts,
      y\<lparr>r_dev := (if pkts = [] then r_dev y else tx_done a' (of_nat (length pkts)) (r_dev y)),
        r_mem := mm, r_world := fold g pkts (r_world y)\<rparr>)" "ram mm = m'"
    using transmit_loop_chain [OF assms refl refl, of 0] by auto
  have a: "pkts = [] \<Longrightarrow> a' = TX_START (r_dev y)"
    using assms(2) by (auto elim: tx_chain.cases)
  show ?thesis
    using t a by (cases "pkts = []")
      (auto simp: r6040_transmit_def r6040_update_irq_def on_dev_def tx_done_def TX_START_SET_def
        set_reg_def TX_START_def Let_def start_regs [unfolded TX_START_SET_def set_reg_def TX_START_def, simplified])
qed






lemma flat_ram: "a + n < 2 ^ 64 \<Longrightarrow> ram_range flat_map a n"
  by (auto simp: ram_range_def ram_page_def flat_map_def push_bit_eq_mult)

lemma quiet_log_env [simp]: "quiet_net (log_env M g) g"
  by (simp add: quiet_net_def log_env_def)


lemma mem_put_rom:
  "rom_range (r_map E) (unat a) (length bs) \<Longrightarrow> rom_ignored (r_map E) \<Longrightarrow> mem_put E a bs y = y"
  by (simp add: mem_put_def cpu_physical_memory_write_rom_ignored)

lemma try_send_rom:
  fixes E y
  defines "m \<equiv> ram (r_mem y)" and "a \<equiv> TX_START (r_dev y)"
  assumes "quiet_net E g" and "rom_range (r_map E) (unat a) 20" and "rom_ignored (r_map E)"
    and "mem_range (r_map E) (unat (dbp (desc_at m (unat a)))) (length (tx_packet m (unat a)))"
    and "tx_owned m (unat a)"
  shows "TryToSendOnePacket E y = (True, y\<lparr>r_dev := tx_done (dnx (desc_at m (unat a))) 1 (r_dev y),
       r_world := g (tx_packet m (unat a)) (r_world y)\<rparr>)"
proof -
  let ?d = "desc_at m (unat a)"
  have d: "mem_get E (TX_START (r_dev y)) 20 y = (mem_read m (unat a) 20, y)"
    unfolding m_def a_def using assms(4) by (intro mem_get_mem) (auto simp: a_def)
  have p: "mem_get E (dbp ?d) (unat (if (ucast (dlen ?d) :: u32) > 2000 then 2000 else ucast (dlen ?d) :: u32)) y =
      (tx_packet m (unat a), y)"
    using assms(6) unfolding min_2000 by (simp add: mem_get_mem tx_packet_def m_def)
  show ?thesis
    unfolding TryToSendOnePacket_def d Let_def case_prod_conv desc_at_def [symmetric] p
    using assms(3-5,7)
    by (cases y) (simp add: owned_dst quiet_net_def on_dev_def tx_done_def a_def mem_put_rom)
qed

lemma transmit_loop_rom:
  assumes "quiet_net E g" and "rom_range (r_map E) (unat a) 20" and "rom_ignored (r_map E)"
    and "rom_trap E a y"
  shows "transmit_loop E c y = None"
proof -
  let ?Q = "\<lambda>E c y r. \<not> (quiet_net E g \<and> rom_range (r_map E) (unat a) 20 \<and> rom_ignored (r_map E) \<and> rom_trap E a y)"
  have "?Q E c y r" if "transmit_loop E c y = Some r" for r
  proof (rule transmit_loop.raw_induct [of ?Q, OF _ that])
    fix loop E c y r
    assume IH: "\<And>E c y r. loop E c y = Some r \<Longrightarrow> ?Q E c y r"
      and body: "(let (sent, y') = TryToSendOnePacket E y
        in if sent then loop E (c + 1) y' else Some (c, y')) = Some r"
    show "?Q E c y r"
    proof
      assume t: "quiet_net E g \<and> rom_range (r_map E) (unat a) 20 \<and> rom_ignored (r_map E) \<and> rom_trap E a y"
      then have s: "TryToSendOnePacket E y = (True, y\<lparr>r_dev := tx_done a 1 (r_dev y),
          r_world := g (tx_packet (ram (r_mem y)) (unat a)) (r_world y)\<rparr>)"
        using try_send_rom [of E g y] by (auto simp: rom_trap_def Let_def)
      have "rom_trap E a (y\<lparr>r_dev := tx_done a 1 (r_dev y),
          r_world := g (tx_packet (ram (r_mem y)) (unat a)) (r_world y)\<rparr>)"
        using t by (simp add: rom_trap_def)
      with body s t IH show False by fastforce
    qed
  qed
  with assms show ?thesis by (cases "transmit_loop E c y") auto
qed

text \<open>
  C13.  In ROM it does not terminate: when the transmit pointer is a descriptor in ROM that has its
  ownership bit set and links to itself, the bit cannot be cleared and the port write that
  starts the transmission never returns.
\<close>

theorem r6040_transmit_rom_hangs:
  assumes "quiet_net E g" and "rom_range (r_map E) (unat a) 20" and "rom_ignored (r_map E)"
    and "rom_trap E a y" and "unat (addr AND 0xff) div 2 = MTPR_W" and "val AND 1 \<noteq> 0"
  shows "r6040_ioport_writew E addr val y = None"
  using transmit_loop_rom [OF assms(1-4), of 0] assms(5,6)
  by (simp add: r6040_ioport_writew_def r6040_transmit_def Let_def)

theorem r6040_transmit_rom_hangs_witness:
  "r6040_ioport_writew (log_env sample_map (\<lambda>p w. w)) 0x14 1
     \<lparr>r_dev = r6040_zero\<lparr>regs_w := (\<lambda>_. 0)(0x30 div 2 := 0x10)\<rparr>,
      r_mem = sample_mem\<lparr>ram := (\<lambda>_. 0)(0x100001 := 0x80, 0x10000a := 0x10)\<rparr>, r_world = ()\<rparr> = None"
proof (rule r6040_transmit_rom_hangs [OF quiet_log_env, where a = "0x100000"])
  let ?E = "log_env sample_map (\<lambda>p w. w)"
  let ?m = "(\<lambda>_. 0)(0x100001 := 0x80, 0x10000a := 0x10) :: bytes"
  have d: "desc_at ?m 0x100000 = \<lparr>dst = 0x8000, dlen = 0, dbp = 0, dnx = 0x100000, hidx = 0,
      reserved_1 = 0, reserved_2 = 0, padding = 0\<rparr>"
    by (simp add: desc_at_fields mem_read_list)
  show "rom_trap ?E 0x100000 \<lparr>r_dev = r6040_zero\<lparr>regs_w := (\<lambda>_. 0)(0x30 div 2 := 0x10)\<rparr>,
      r_mem = sample_mem\<lparr>ram := ?m\<rparr>, r_world = ()\<rparr>"
    by (simp add: rom_trap_def tx_packet_def d r6040_zero_def TX_START_def tx_owned_def mem_range_def)
  show "rom_range (r_map ?E) (unat (0x100000 :: u32)) 20"
    by (simp add: log_env_def sample_rom)
  show "rom_ignored (r_map ?E)" by (simp add: log_env_def rom_ignored_def sample_map_def)
qed simp_all

theorem r6040_transmit_sends_chain_witness:
  "\<exists>y'. r6040_transmit (log_env flat_map (\<lambda>p w. w @ [p]))
     \<lparr>r_dev = r6040_zero\<lparr>regs_w := (\<lambda>_. 0)(0x2c div 2 := 0x100)\<rparr>,
      r_mem = sample_mem\<lparr>ram := (\<lambda>_. 0)(0x101 := 0x80, 0x102 := 2, 0x105 := 3, 0x300 := 7, 0x301 := 8)\<rparr>,
      r_world = []\<rparr> = Some y' \<and> r_world y' = [[7, 8]] \<and> regs_w (r_dev y') MISR_W = 0x10"
proof -
  let ?E = "log_env flat_map (\<lambda>p w. w @ [p]) :: u8 list list r6040_env"
  let ?m = "(\<lambda>_. 0)(0x101 := 0x80, 0x102 := 2, 0x105 := 3, 0x300 := 7, 0x301 := 8) :: bytes"
  let ?y = "\<lparr>r_dev = r6040_zero\<lparr>regs_w := (\<lambda>_. 0)(0x2c div 2 := 0x100)\<rparr>,
      r_mem = sample_mem\<lparr>ram := ?m\<rparr>, r_world = []\<rparr>"
  have d: "desc_at ?m 0x100 = \<lparr>dst = 0x8000, dlen = 2, dbp = 0x300, dnx = 0, hidx = 0,
      reserved_1 = 0, reserved_2 = 0, padding = 0\<rparr>"
    by (simp add: desc_at_fields mem_read_list)
  have p: "tx_packet ?m 0x100 = [7, 8]" by (simp add: tx_packet_def d mem_read_list)
  have "tx_chain flat_map ?m 0x100 [tx_packet ?m (unat (0x100 :: u32))] (tx_release ?m (unat (0x100 :: u32)))
      (dnx (desc_at ?m (unat (0x100 :: u32))))"
    by (rule tx_chain.send [OF _ _ _ tx_chain.stop])
       (auto simp: d p flat_ram tx_owned_def tx_release_def)
  then have "tx_chain (r_map ?E) (ram (r_mem ?y)) (TX_START (r_dev ?y)) [tx_packet ?m (unat (0x100 :: u32))]
      (tx_release ?m (unat (0x100 :: u32))) (dnx (desc_at ?m (unat (0x100 :: u32))))"
    by (simp add: log_env_def r6040_zero_def TX_START_def)
  from r6040_transmit_sends_chain [OF quiet_log_env this] show ?thesis
    by (auto simp: p log_env_def r6040_zero_def)
qed

section \<open>Reception\<close>

lemma regs_RX_START_SET: "i \<noteq> 26 \<Longrightarrow> i \<noteq> 28 \<Longrightarrow> regs_w (RX_START_SET a s) i = regs_w s i"
  by (simp add: RX_START_SET_def set_reg_def)

lemma sint_minus_4:
  fixes t :: u32
  assumes "unat t \<le> 2 ^ 31"
  shows "nat (sint (t - 4)) = unat t - 4"
proof -
  obtain n where n: "n = unat t" by simp
  have "t - 4 = word_of_int (int n - 4)" unfolding n by simp
  then have "sint (t - 4) = signed_take_bit 31 (int n - 4)"
    by (simp only: signed_of_int) simp
  also have "\<dots> = int n - 4"
    using assms [folded n] by (intro signed_take_bit_int_eq_self) auto
  finally show ?thesis unfolding n [symmetric] by simp
qed

lemma rx_copy:
  fixes t :: u32 and k :: u16
  assumes "n < 2 ^ 31"
  defines "t \<equiv> if of_nat n + 4 > (ucast k :: u32) then ucast k else of_nat n + 4"
  shows "nat (sint (t - 4)) = min (n + 4) (unat k) - 4" "(ucast t :: u16) = of_nat (min (n + 4) (unat k))"
proof -
  have u: "unat (of_nat n + 4 :: u32) = n + 4"
    using assms(1) by (simp add: unat_word_ariths unat_of_nat)
  have k: "unat (ucast k :: u32) = unat k" by (rule unat_ucast_up) simp
  have t: "unat t = min (n + 4) (unat k)"
    unfolding t_def by (auto simp: word_less_nat_alt u k)
  have "unat t \<le> 2 ^ 31" unfolding t using unat_less [of k] by (simp add: min_def)
  then show "nat (sint (t - 4)) = min (n + 4) (unat k) - 4" by (simp only: sint_minus_4 t)
  have "(ucast t :: u16) = of_nat (unat t)" by simp
  then show "(ucast t :: u16) = of_nat (min (n + 4) (unat k))" by (simp only: t)
qed

text \<open>
  C14.  A received packet goes into the buffer of the current receive descriptor when the device
  owns it: at most the buffer size of MRBSR, less four bytes for the checksum, is copied (nothing
  when that size is 0), the descriptor is given back with its length and the received flag, the
  pointer advances, the packet is counted, the receive interrupt is set and the pin driven, and
  the whole length is reported as consumed.  When the driver owns the descriptor the packet is
  refused and nothing changes.
\<close>

theorem r6040_receive_packet:
  fixes y :: "'w r6040_sys" and E :: "'w r6040_env"
  assumes m_def: "m = ram (r_mem y)" and a_def: "a = RX_START (r_dev y)"
    and "ram_range (r_map E) (unat a) 20"
    and "ram_range (r_map E) (unat (dbp (desc_at m (unat a)))) (rx_len (r_dev y) buf - 4)"
    and "length buf < 2 ^ 31"
  shows "\<exists>y'. r6040_receive E buf y = (if tx_owned m (unat a) then int (length buf) else 0, y') \<and>
    (if tx_owned m (unat a)
     then ram (r_mem y') = mem_write (mem_write m (unat (dbp (desc_at m (unat a)))) (take (rx_len (r_dev y) buf - 4) buf))
         (unat a) (bytes_of_desc ((desc_at m (unat a))\<lparr>dlen := of_nat (rx_len (r_dev y) buf),
            dst := (dst (desc_at m (unat a)) OR 0x4000) AND NOT 0x8000\<rparr>)) \<and>
       RX_START (r_dev y') = dnx (desc_at m (unat a)) \<and>
       regs_w (r_dev y') RX_PKT_COUNT_W = regs_w (r_dev y) RX_PKT_COUNT_W + 1 \<and>
       regs_w (r_dev y') MISR_W = regs_w (r_dev y) MISR_W OR 1 \<and>
       r_world y' = qemu_set_irq (r_irq E)
         (if (regs_w (r_dev y) MISR_W OR 1) AND regs_w (r_dev y) MIER_W \<noteq> 0 then 1 else 0) (r_world y)
     else y' = y)"
proof -
  let ?d = "desc_at m (unat a)"
  let ?k = "regs_w (r_dev y) MRBSR_W AND 0x07fc"
  let ?d2 = "?d\<lparr>dlen := of_nat (rx_len (r_dev y) buf), dst := (dst ?d OR 0x4000) AND NOT 0x8000\<rparr>"
  have g: "mem_get E (RX_START (r_dev y)) 20 y = (mem_read m (unat a) 20, y)"
    unfolding m_def a_def using assms(3) by (intro mem_get_mem) (auto simp: a_def)
  show ?thesis
  proof (cases "tx_owned m (unat a)")
    case False
    then show ?thesis using g owned_dst [of m "unat a"]
      by (simp add: r6040_receive_def ReceiveOnePacket_def desc_at_def Let_def)
  next
    case True
    have bl: "length (take (rx_len (r_dev y) buf - 4) buf) = rx_len (r_dev y) buf - 4"
      by (simp add: rx_len_def)
    obtain m1 where m1: "mem_put E (dbp ?d) (take (rx_len (r_dev y) buf - 4) buf) y = y\<lparr>r_mem := m1\<rparr>"
      "ram m1 = mem_write m (unat (dbp ?d)) (take (rx_len (r_dev y) buf - 4) buf)"
      using mem_put_ram [of E "dbp ?d" "take (rx_len (r_dev y) buf - 4) buf" y] assms(4) bl
      by (auto simp: m_def)
    obtain m2 where m2: "mem_put E a (bytes_of_desc ?d2) (y\<lparr>r_mem := m1\<rparr>) = y\<lparr>r_mem := m2\<rparr>"
      "ram m2 = mem_write (ram m1) (unat a) (bytes_of_desc ?d2)"
      using mem_put_ram [of E a "bytes_of_desc ?d2" "y\<lparr>r_mem := m1\<rparr>"] assms(3) by auto
    have c: "nat (sint ((if of_nat (length buf) + 4 > (ucast ?k :: u32) then ucast ?k else of_nat (length buf) + 4 :: u32) - 4)) =
        rx_len (r_dev y) buf - 4"
      "(ucast (if of_nat (length buf) + 4 > (ucast ?k :: u32) then ucast ?k else of_nat (length buf) + 4 :: u32) :: u16) =
        of_nat (rx_len (r_dev y) buf)"
      using rx_copy [OF assms(5), of ?k] by (simp_all only: rx_len_def)
    show ?thesis
      unfolding r6040_receive_def ReceiveOnePacket_def g Let_def case_prod_conv desc_at_def [symmetric] c m1
      using True m2 m1(2)
      by (simp add: owned_dst a_def on_dev_def r6040_update_irq_def set_reg_def regs_RX_START_SET Let_def)
  qed
qed

theorem r6040_receive_packet_witness:
  "\<exists>y'. r6040_receive (log_env flat_map (\<lambda>p w. w)) [1, 2, 3]
     \<lparr>r_dev = fst (r6040_init_pci 0 (r6040_zero\<lparr>regs_w := (\<lambda>_. 0)(0x34 div 2 := 0x100)\<rparr>)),
      r_mem = sample_mem\<lparr>ram := (\<lambda>_. 0)(0x101 := 0x80, 0x105 := 3)\<rparr>, r_world = ()\<rparr> = (3, y') \<and>
     regs_w (r_dev y') MISR_W = 1 \<and> ram (r_mem y') 0x300 = 1"
proof -
  let ?E = "log_env flat_map (\<lambda>p w. w) :: unit r6040_env"
  let ?m = "(\<lambda>_. 0)(0x101 := 0x80, 0x105 := 3) :: bytes"
  let ?y = "\<lparr>r_dev = fst (r6040_init_pci 0 (r6040_zero\<lparr>regs_w := (\<lambda>_. 0)(0x34 div 2 := 0x100)\<rparr>)),
      r_mem = sample_mem\<lparr>ram := ?m\<rparr>, r_world = ()\<rparr>"
  have d: "desc_at ?m 0x100 = \<lparr>dst = 0x8000, dlen = 0, dbp = 0x300, dnx = 0, hidx = 0,
      reserved_1 = 0, reserved_2 = 0, padding = 0\<rparr>"
    by (simp add: desc_at_fields mem_read_list)
  have a: "RX_START (r_dev ?y) = 0x100"
    by (simp add: r6040_init_pci_def set_reg_def r6040_zero_def RX_START_def Let_def)
  have l: "rx_len (r_dev ?y) [1, 2, 3] = 7" "regs_w (r_dev ?y) MISR_W = 0"
    by (simp_all add: rx_len_def r6040_init_pci_def set_reg_def r6040_zero_def Let_def)
  have "tx_owned ?m 0x100" by (simp add: tx_owned_def)
  then show ?thesis
    using r6040_receive_packet [OF refl refl, of ?E ?y "[1, 2, 3]"] a l d
    by (auto simp: log_env_def flat_ram mem_write_def)
qed

text \<open>
  Reading the interrupt status returns it and clears it, but does not drive the pin: the pin
  keeps its level although no enabled interrupt is pending, until the next write to the
  interrupt enable register or the next packet updates it.
\<close>

theorem r6040_status_read_keeps_pin:
  assumes "unat (addr AND 0xff) div 2 = MISR_W" and "unat (addr' AND 0xff) div 2 = MIER_W"
  shows "(let (v, s') = r6040_ioport_readw addr (r_dev y) in
      v = ucast (regs_w (r_dev y) MISR_W) \<and> regs_w s' MISR_W = 0 \<and>
      (\<forall>i. i \<noteq> MISR_W \<longrightarrow> regs_w s' i = regs_w (r_dev y) i) \<and>
      r_world (y\<lparr>r_dev := s'\<rparr>) = r_world y \<and>
      (\<exists>y'. r6040_ioport_writew E addr' mask_val (y\<lparr>r_dev := s'\<rparr>) = Some y' \<and>
         r_world y' = qemu_set_irq (r_irq E) 0 (r_world y)))"
  using assms
  by (simp add: r6040_ioport_readw_def r6040_ioport_writew_def r6040_update_irq_def on_dev_def set_reg_def Let_def)

theorem r6040_status_read_keeps_pin_witness:
  "let (v, s') = r6040_ioport_readw 0x3c (r6040_zero\<lparr>regs_w := (\<lambda>_. 0)(0x3c div 2 := 0x11, 0x40 div 2 := 0xff)\<rparr>)
   in v = 0x11 \<and> regs_w s' MISR_W = 0"
  using r6040_status_read_keeps_pin [of "0x3c" "0x40"
    "\<lparr>r_dev = r6040_zero\<lparr>regs_w := (\<lambda>_. 0)(0x3c div 2 := 0x11, 0x40 div 2 := 0xff)\<rparr>, r_mem = sample_mem, r_world = ()\<rparr>"
    "log_env flat_map (\<lambda>p w. w)" 0]
  by (simp add: case_prod_beta Let_def)

lemma small_and:
  fixes reg :: u32
  assumes "reg < 32"
  shows "reg AND 0x1f = reg" and "0x1f AND c = 0 \<Longrightarrow> reg AND c = 0"
proof -
  have "unat reg < 2 ^ 5" using assms by (simp add: word_less_nat_alt)
  then have b: "\<not> bit reg k" if "5 \<le> k" for k using that by (rule not_bit_small)
  have "reg AND mask 5 = reg"
    by (rule bit_word_eqI) (use b in \<open>auto simp: bit_simps not_less [symmetric]\<close>)
  then show r: "reg AND 0x1f = reg" by (simp add: mask_eq_exp_minus_1)
  show "reg AND c = 0" if "0x1f AND c = 0"
    using that by (metis r and.assoc and_zero_eq)
qed

lemma mdio_val:
  assumes "reg < 32"
  shows "(mdio_addr 1 reg OR 0x4000) AND 0x1f00 = 0x100" "(mdio_addr 1 reg OR 0x2000) AND 0x1f00 = 0x100"
    "(mdio_addr 1 reg OR 0x4000) AND 0x1f = reg" "(mdio_addr 1 reg OR 0x2000) AND 0x1f = reg"
    "(mdio_addr 1 reg OR 0x4000) AND 0x2000 = 0" "(mdio_addr 1 reg OR 0x2000) AND 0x2000 \<noteq> 0"
    "(mdio_addr 1 reg OR 0x4000) AND 0x4000 \<noteq> 0"
  unfolding mdio_addr_def using small_and(1) [OF assms] small_and(2) [OF assms]
  by (simp_all add: bit.conj_disj_distrib2 and.assoc)

lemma mdio_busy:
  "((x OR 0x6000) AND 0xFFFF :: u32) AND 0x6000 = 0x6000"
  "(ucast (z AND NOT 0x6000 :: u16) :: u32) AND 0x6000 = 0"
  "(ucast (ucast (x AND 0xFFFF) :: u16) :: u32) = x AND 0xffff"
proof -
  have c: "(0x6000 :: u32) = BIT 13 OR BIT 14" "(0x6000 :: u16) = BIT 13 OR BIT 14" "(0xffff :: u32) = mask 16"
    by (simp_all add: BIT_def mask_eq_exp_minus_1)
  show "((x OR 0x6000) AND 0xFFFF :: u32) AND 0x6000 = 0x6000"
    unfolding c by (rule bit_word_eqI) (auto simp: bit_simps)
  show "(ucast (z AND NOT 0x6000 :: u16) :: u32) AND 0x6000 = 0"
    unfolding c by (rule bit_word_eqI) (auto simp: bit_simps)
  show "(ucast (ucast (x AND 0xFFFF) :: u16) :: u32) = x AND 0xffff"
    unfolding c by (rule bit_word_eqI) (auto simp: bit_simps)
qed

text \<open>
  The management interface: writing a value to a PHY register through MDIO and reading it back
  returns that value; the control register shows the operation in progress (both command bits)
  at the first read and finished at the second.
\<close>

theorem r6040_mdio_roundtrip:
  assumes "reg < 32"
  shows "\<exists>y1 y2 y3. r6040_ioport_writew E 0x28 v y = Some y1 \<and>
    r6040_ioport_writew E 0x20 (mdio_addr 1 reg OR 0x4000) y1 = Some y2 \<and>
    r6040_ioport_writew E 0x20 (mdio_addr 1 reg OR 0x2000) y2 = Some y3 \<and>
    (let (c1, s1) = r6040_ioport_readw 0x20 (r_dev y3);
         (c2, s2) = r6040_ioport_readw 0x20 s1;
         (d, s3) = r6040_ioport_readw 0x24 s2
     in c1 AND 0x6000 = 0x6000 \<and> c2 AND 0x6000 = 0 \<and> d = v AND 0xffff)"
proof -
  have b: "BIT 13 = (0x2000 :: u32)" "BIT 14 = (0x4000 :: u32)" by (simp_all add: BIT_def)
  show ?thesis
    unfolding r6040_ioport_writew_def r6040_ioport_readw_def mdio_op_def b
    by (simp add: mdio_val [OF assms] on_dev_def set_reg_def Let_def mdio_busy mdio_busy(2) [simplified])
qed

theorem r6040_mdio_roundtrip_witness:
  "\<exists>y1 y2 y3. r6040_ioport_writew (log_env flat_map (\<lambda>p w. w)) 0x28 0x1234
      \<lparr>r_dev = r6040_zero, r_mem = sample_mem, r_world = ()\<rparr> = Some y1 \<and>
    r6040_ioport_writew (log_env flat_map (\<lambda>p w. w)) 0x20 (mdio_addr 1 4 OR 0x4000) y1 = Some y2 \<and>
    r6040_ioport_writew (log_env flat_map (\<lambda>p w. w)) 0x20 (mdio_addr 1 4 OR 0x2000) y2 = Some y3 \<and>
    (let (c1, s1) = r6040_ioport_readw 0x20 (r_dev y3);
         (c2, s2) = r6040_ioport_readw 0x20 s1;
         (d, s3) = r6040_ioport_readw 0x24 s2
     in c1 AND 0x6000 = 0x6000 \<and> c2 AND 0x6000 = 0 \<and> d = 0x1234 AND 0xffff)"
  by (rule r6040_mdio_roundtrip) simp

section \<open>The interrupt pin\<close>

context irq_lines
begin

lemma r6040_level:
  "valid n \<Longrightarrow> r_irq E = pin n \<Longrightarrow> level_of n (r_world (r6040_update_irq E y)) \<longleftrightarrow>
     regs_w (r_dev y) MISR_W AND regs_w (r_dev y) MIER_W \<noteq> 0"
  by (simp add: r6040_update_irq_def Let_def level_set)

end

end
