(* ===== verification/Panel.thy ===== *)
theory Panel
  imports Prelude
begin

text \<open>
  The GPIO panel server (\<^verbatim>\<open>panel.py\<close>): clients connect over a socket, set the state of their side
  of each pin, and read the state after arbitration.  The dictionary of clients is a list of
  pairs in the iteration order of the dictionary; what a channel pushes is appended to its
  output \<open>outbuf\<close>.  A \<^verbatim>\<open>KeyError\<close> raised by the arbitration is a value.
\<close>

section \<open>Model\<close>

datatype py_error = KeyError

abbreviation PIN_COUNT :: nat where
  "PIN_COUNT \<equiv> 8"

record Channel =
  inbuf :: string
  notify :: "nat list"
  pins :: string
  outbuf :: string

record TerminalBlock =
  clients :: "(int \<times> Channel) list"
  LastResolve :: string

definition GetDefaultPins :: string where
  "GetDefaultPins = replicate PIN_COUNT (CHR ''X'')"

definition new_channel :: Channel where
  "new_channel = \<lparr>inbuf = '''', notify = [], pins = GetDefaultPins, outbuf = ''''\<rparr>"

definition new_server :: TerminalBlock where
  "new_server = \<lparr>clients = [], LastResolve = GetDefaultPins\<rparr>"

text \<open>A new client takes a place \<open>k\<close> in the iteration order of the dictionary.\<close>

definition handle_accept :: "nat \<Rightarrow> int \<Rightarrow> TerminalBlock \<Rightarrow> TerminalBlock" where
  "handle_accept k fd srv =
     srv\<lparr>clients := take k (clients srv) @ (fd, new_channel) # drop k (clients srv)\<rparr>"

definition PinArbitration :: "char \<Rightarrow> string option" where
  "PinArbitration = map_of [(CHR ''1'', ''1E11''), (CHR ''0'', ''E000''),
     (CHR ''P'', ''10PP''), (CHR ''X'', ''10PX'')]"

text \<open>\<^verbatim>\<open>row["10PX".find(b)]\<close>: \<^verbatim>\<open>find\<close> returns -1 for a missing character, the last one of the row.\<close>

definition row_at :: "string \<Rightarrow> char \<Rightarrow> char" where
  "row_at row b =
     (if b = CHR ''1'' then row ! 0 else if b = CHR ''0'' then row ! 1
      else if b = CHR ''P'' then row ! 2 else if b = CHR ''X'' then row ! 3 else last row)"

definition ResolveTwo :: "char \<Rightarrow> char \<Rightarrow> py_error + char" where
  "ResolveTwo pinA pinB =
     (case PinArbitration pinA of None \<Rightarrow> Inl KeyError | Some row \<Rightarrow> Inr (row_at row pinB))"

fun resolve_list :: "string \<Rightarrow> py_error + char" where
  "resolve_list [] = Inr (CHR ''X'')"
| "resolve_list [p] = Inr p"
| "resolve_list (p # q # rest) =
     (case ResolveTwo p q of Inl e \<Rightarrow> Inl e | Inr r \<Rightarrow> resolve_list (r # rest))"

definition GetPin :: "Channel \<Rightarrow> nat \<Rightarrow> char" where
  "GetPin ch pin = pins ch ! pin"

definition SetPin :: "nat \<Rightarrow> char \<Rightarrow> Channel \<Rightarrow> Channel" where
  "SetPin pin val ch = ch\<lparr>pins := (pins ch)[pin := val]\<rparr>"

definition ResolvePin :: "TerminalBlock \<Rightarrow> nat \<Rightarrow> py_error + char" where
  "ResolvePin srv pin = resolve_list (map (\<lambda>(fd, ch). GetPin ch pin) (clients srv))"

fun resolve_pins :: "TerminalBlock \<Rightarrow> nat list \<Rightarrow> py_error + string" where
  "resolve_pins srv [] = Inr ''''"
| "resolve_pins srv (i # is) =
     (case ResolvePin srv i of Inl e \<Rightarrow> Inl e
      | Inr c \<Rightarrow> (case resolve_pins srv is of Inl e \<Rightarrow> Inl e | Inr cs \<Rightarrow> Inr (c # cs)))"

definition NotifyValues :: "string \<Rightarrow> Channel \<Rightarrow> Channel" where
  "NotifyValues txt ch = ch\<lparr>outbuf := outbuf ch @ ''R '' @ txt @ [CHR 0x0D, CHR 0x0A]\<rparr>"

definition NotifyAll :: "string \<Rightarrow> nat list \<Rightarrow> TerminalBlock \<Rightarrow> TerminalBlock" where
  "NotifyAll vals diffs srv =
     srv\<lparr>clients := map (\<lambda>(fd, ch). (fd, if list_ex (\<lambda>i. i \<in> set diffs) (notify ch) then NotifyValues vals ch else ch))
       (clients srv)\<rparr>"

definition Resolve :: "TerminalBlock \<Rightarrow> py_error + (string \<times> TerminalBlock)" where
  "Resolve srv =
     (case resolve_pins srv [0..<PIN_COUNT] of
        Inl e \<Rightarrow> Inl e
      | Inr out \<Rightarrow>
          (if out \<noteq> LastResolve srv then
             (let diffs = filter (\<lambda>i. out ! i \<noteq> LastResolve srv ! i) [0..<length out]
              in Inr (out, NotifyAll out diffs (srv\<lparr>LastResolve := out\<rparr>)))
           else Inr (out, srv)))"

definition is_digit :: "char \<Rightarrow> bool" where
  "is_digit c \<longleftrightarrow> c \<in> set ''0123456789''"

definition digit_val :: "char \<Rightarrow> nat" where
  "digit_val c = (of_char c :: nat) - 48"

definition int_of_digits :: "string \<Rightarrow> nat" where
  "int_of_digits ds = foldl (\<lambda>n c. 10 * n + digit_val c) 0 ds"

text \<open>The regular expressions \<^verbatim>\<open>W (\d{1,3}) ([10PX])\<close> and \<^verbatim>\<open>NOTIFY (\d{1,3})\<close>, matched at the start.\<close>

definition wmatch :: "string \<Rightarrow> (nat \<times> char) option" where
  "wmatch s =
     (if take 2 s = ''W '' then
        (let ds = takeWhile is_digit (drop 2 s); rest = dropWhile is_digit (drop 2 s)
         in if 1 \<le> length ds \<and> length ds \<le> 3 \<and> 2 \<le> length rest \<and> rest ! 0 = CHR '' '' \<and> rest ! 1 \<in> set ''10PX''
            then Some (int_of_digits ds, rest ! 1) else None)
      else None)"

definition nmatch :: "string \<Rightarrow> nat option" where
  "nmatch s =
     (if take 7 s = ''NOTIFY '' then
        (let ds = take 3 (takeWhile is_digit (drop 7 s))
         in if ds \<noteq> [] then Some (int_of_digits ds) else None)
      else None)"

definition on_client :: "int \<Rightarrow> (Channel \<Rightarrow> Channel) \<Rightarrow> TerminalBlock \<Rightarrow> TerminalBlock" where
  "on_client fd f srv = srv\<lparr>clients := map (\<lambda>(k, ch). (k, if k = fd then f ch else ch)) (clients srv)\<rparr>"

definition client_data :: "int \<Rightarrow> TerminalBlock \<Rightarrow> string" where
  "client_data fd srv = (case map_of (clients srv) fd of None \<Rightarrow> '''' | Some ch \<Rightarrow> inbuf ch)"

definition collect_incoming_data :: "int \<Rightarrow> string \<Rightarrow> TerminalBlock \<Rightarrow> TerminalBlock" where
  "collect_incoming_data fd data srv = on_client fd (\<lambda>ch. ch\<lparr>inbuf := inbuf ch @ data\<rparr>) srv"

definition found_terminator :: "int \<Rightarrow> TerminalBlock \<Rightarrow> py_error + TerminalBlock" where
  "found_terminator fd srv =
     (let data = client_data fd srv;
          done = on_client fd (\<lambda>ch. ch\<lparr>inbuf := ''''\<rparr>)
      in if take 2 data = ''W '' then
           (case wmatch data of
              None \<Rightarrow> Inr (done srv)
            | Some (pin, val) \<Rightarrow>
                (if pin < PIN_COUNT then
                   (case Resolve (on_client fd (SetPin pin val) srv) of
                      Inl e \<Rightarrow> Inl e | Inr (out, srv1) \<Rightarrow> Inr (done srv1))
                 else Inr (done srv)))
         else if data = ''R'' then
           (case Resolve srv of
              Inl e \<Rightarrow> Inl e
            | Inr (out, srv1) \<Rightarrow> Inr (done (on_client fd (NotifyValues out) srv1)))
         else if take 7 data = ''NOTIFY '' then
           (case nmatch data of
              None \<Rightarrow> Inr (done srv)
            | Some pin \<Rightarrow>
                (if pin < PIN_COUNT then Inr (done (on_client fd (\<lambda>ch. ch\<lparr>notify := notify ch @ [pin]\<rparr>) srv))
                 else Inr (done srv)))
         else Inr (done srv))"

definition handle_close :: "int \<Rightarrow> TerminalBlock \<Rightarrow> py_error + TerminalBlock" where
  "handle_close fd srv =
     (case Resolve (srv\<lparr>clients := filter (\<lambda>(k, ch). k \<noteq> fd) (clients srv)\<rparr>) of
        Inl e \<Rightarrow> Inl e | Inr (out, srv1) \<Rightarrow> Inr srv1)"

section \<open>Specification\<close>

definition contended :: "string \<Rightarrow> bool" where
  "contended ps \<longleftrightarrow> CHR ''0'' \<in> set ps \<and> CHR ''1'' \<in> set ps"

text \<open>The electrical meaning of a set of drivers on one pin.\<close>

definition pin_join :: "string \<Rightarrow> char" where
  "pin_join ps =
     (if contended ps then CHR ''E'' else if CHR ''1'' \<in> set ps then CHR ''1''
      else if CHR ''0'' \<in> set ps then CHR ''0'' else if CHR ''P'' \<in> set ps then CHR ''P'' else CHR ''X'')"

text \<open>
  What a server can receive, and the types of its state: every channel drives each of the pins with
  one of the states of the protocol and subscribes to existing pins only.
\<close>

datatype panel_op = Accept nat int | Incoming int string | Terminator int | Close int

fun panel_step :: "panel_op \<Rightarrow> TerminalBlock \<Rightarrow> py_error + TerminalBlock" where
  "panel_step (Accept k fd) srv = Inr (handle_accept k fd srv)"
| "panel_step (Incoming fd data) srv = Inr (collect_incoming_data fd data srv)"
| "panel_step (Terminator fd) srv = found_terminator fd srv"
| "panel_step (Close fd) srv = handle_close fd srv"

fun panel_run :: "panel_op list \<Rightarrow> TerminalBlock \<Rightarrow> py_error + TerminalBlock" where
  "panel_run [] srv = Inr srv"
| "panel_run (p # ps) srv = (case panel_step p srv of Inl e \<Rightarrow> Inl e | Inr srv1 \<Rightarrow> panel_run ps srv1)"

definition channel_typed :: "Channel \<Rightarrow> bool" where
  "channel_typed ch \<longleftrightarrow> length (pins ch) = PIN_COUNT \<and> set (pins ch) \<subseteq> set ''10PX'' \<and> list_all (\<lambda>i. i < PIN_COUNT) (notify ch)"

definition server_typed :: "TerminalBlock \<Rightarrow> bool" where
  "server_typed srv \<longleftrightarrow> list_all (\<lambda>(fd, ch). channel_typed ch) (clients srv) \<and>
     length (LastResolve srv) = PIN_COUNT \<and> set (LastResolve srv) \<subseteq> set ''10PXE''"

section \<open>Arbitration\<close>

lemma resolve_list_cons:
  "set (p # ps) \<subseteq> set ''10PX'' \<Longrightarrow>
   resolve_list (p # ps) = (if contended (butlast (p # ps)) then Inl KeyError else Inr (pin_join (p # ps)))"
proof (induction ps arbitrary: p)
  case Nil
  then show ?case by (auto simp: contended_def pin_join_def)
next
  case (Cons q ps)
  show ?case
  proof (cases "contended [p, q]")
    case True
    then have "ResolveTwo p q = Inr (CHR ''E'')"
      using Cons.prems by (auto simp: contended_def ResolveTwo_def PinArbitration_def row_at_def)
    moreover have "resolve_list (CHR ''E'' # ps) = (if ps = [] then Inr (CHR ''E'') else Inl KeyError)"
      by (cases ps) (auto simp: ResolveTwo_def PinArbitration_def)
    ultimately show ?thesis using True Cons.prems
      by (auto simp: contended_def pin_join_def)
  next
    case False
    then obtain r where r: "ResolveTwo p q = Inr r" "r = pin_join [p, q]" "r \<in> set ''10PX''"
      using Cons.prems by (auto simp: contended_def ResolveTwo_def PinArbitration_def row_at_def pin_join_def)
    have "contended (butlast (r # ps)) = contended (butlast (p # q # ps))"
      using r False Cons.prems by (auto simp: contended_def pin_join_def)
    moreover have "pin_join (r # ps) = pin_join (p # q # ps)"
    proof -
      have "CHR ''1'' = r \<longleftrightarrow> CHR ''1'' = p \<or> CHR ''1'' = q" "CHR ''0'' = r \<longleftrightarrow> CHR ''0'' = p \<or> CHR ''0'' = q"
        "CHR ''P'' = r \<longleftrightarrow> (CHR ''P'' = p \<or> CHR ''P'' = q) \<and> CHR ''1'' \<notin> {p, q} \<and> CHR ''0'' \<notin> {p, q}"
        using r False Cons.prems by (auto simp: contended_def pin_join_def)
      then show ?thesis
        unfolding pin_join_def contended_def
        by (cases "CHR ''1'' \<in> set ps"; cases "CHR ''0'' \<in> set ps"; cases "CHR ''P'' \<in> set ps"; simp)
    qed
    ultimately show ?thesis using Cons.IH [of r] r Cons.prems by simp
  qed
qed

text \<open>
  C15.  The arbitration of a pin computes the electrical state of its drivers, whatever the order in
  which the dictionary lists the clients: a driven level beats a pull-up, a pull-up beats an
  open pin, opposite levels give the contention state E -- except that opposite levels among all
  but the last client raise a \<^verbatim>\<open>KeyError\<close> in the server, because the table has no row for E.
\<close>

theorem panel_arbitration:
  assumes "set ps \<subseteq> set ''10PX''"
  shows "resolve_list ps = (if contended (butlast ps) then Inl KeyError else Inr (pin_join ps))"
  using assms resolve_list_cons by (cases ps) (auto simp: contended_def pin_join_def)

theorem panel_arbitration_witness:
  "resolve_list ''P0X'' = Inr (CHR ''0'') \<and> resolve_list ''1X0'' = Inr (CHR ''E'') \<and> resolve_list ''10X'' = Inl KeyError"
  using panel_arbitration [of "''P0X''"] panel_arbitration [of "''1X0''"] panel_arbitration [of "''10X''"]
  by (simp add: contended_def pin_join_def)

section \<open>Types\<close>

lemma new_channel_typed: "channel_typed new_channel"
  by (simp add: channel_typed_def new_channel_def GetDefaultPins_def)

lemma SetPin_typed: "channel_typed ch \<Longrightarrow> v \<in> set ''10PX'' \<Longrightarrow> channel_typed (SetPin i v ch)"
  using set_update_subset_insert [of "pins ch" i v] by (auto simp: channel_typed_def SetPin_def)

lemma channel_typed_fields [simp]:
  "channel_typed (ch\<lparr>inbuf := b\<rparr>) = channel_typed ch" "channel_typed (NotifyValues t ch) = channel_typed ch"
  "channel_typed (ch\<lparr>notify := ns\<rparr>) \<longleftrightarrow> channel_typed (ch\<lparr>notify := []\<rparr>) \<and> list_all (\<lambda>i. i < PIN_COUNT) ns"
  by (auto simp: channel_typed_def NotifyValues_def)

lemma on_client_typed:
  "server_typed srv \<Longrightarrow> (\<And>ch. channel_typed ch \<Longrightarrow> channel_typed (f ch)) \<Longrightarrow> server_typed (on_client fd f srv)"
  by (auto simp: server_typed_def on_client_def list_all_iff)

lemma ResolvePin_typed:
  assumes "server_typed srv" and "i < PIN_COUNT" and "ResolvePin srv i = Inr c"
  shows "c \<in> set ''10PXE''"
proof -
  let ?ps = "map (\<lambda>(fd, ch). GetPin ch i) (clients srv)"
  have "GetPin ch i \<in> set ''10PX''" if "(fd, ch) \<in> set (clients srv)" for fd ch
  proof -
    have "length (pins ch) = PIN_COUNT" "set (pins ch) \<subseteq> set ''10PX''"
      using assms(1) that by (auto simp: server_typed_def channel_typed_def list_all_iff)
    then show ?thesis unfolding GetPin_def using nth_mem [of i "pins ch"] assms(2) by (metis subsetD)
  qed
  then have "set ?ps \<subseteq> set ''10PX''" by (auto simp del: list.set)
  then have "c = pin_join ?ps \<or> ?ps = [] \<and> c = CHR ''X''"
    using assms(3) resolve_list_cons [of "hd ?ps" "tl ?ps"] by (cases ?ps) (auto simp: ResolvePin_def split: if_splits)
  moreover have "pin_join ps \<in> set ''10PXE''" for ps by (simp add: pin_join_def)
  ultimately show ?thesis by auto
qed

lemma resolve_pins_typed:
  "server_typed srv \<Longrightarrow> \<forall>i\<in>set is. i < PIN_COUNT \<Longrightarrow> resolve_pins srv is = Inr out \<Longrightarrow>
     length out = length is \<and> set out \<subseteq> set ''10PXE''"
proof (induction "is" arbitrary: out)
  case (Cons i "is")
  then show ?case using ResolvePin_typed [of srv i] by (fastforce split: sum.splits)
qed simp

lemma Resolve_typed:
  assumes "server_typed srv" and "Resolve srv = Inr (out, srv')"
  shows "server_typed srv'"
proof -
  obtain o' where o: "resolve_pins srv [0..<PIN_COUNT] = Inr o'"
    using assms(2) by (cases "resolve_pins srv [0..<PIN_COUNT]") (auto simp: Resolve_def)
  then have "length o' = PIN_COUNT \<and> set o' \<subseteq> set ''10PXE''"
    using resolve_pins_typed [OF assms(1) _ o] by simp
  then show ?thesis using assms(1) assms(2) [unfolded Resolve_def o]
    by (fastforce simp: server_typed_def NotifyAll_def list_all_iff Let_def split: if_splits)
qed

lemma wmatch_typed: "wmatch s = Some (pin, v) \<Longrightarrow> v \<in> set ''10PX''"
  by (auto simp: wmatch_def Let_def split: if_splits)

lemma found_terminator_typed:
  assumes "server_typed srv" and "found_terminator fd srv = Inr srv'"
  shows "server_typed srv'"
proof -
  let ?done = "on_client fd (\<lambda>ch. ch\<lparr>inbuf := []\<rparr>)"
  have d: "server_typed (?done s)" if "server_typed s" for s using that by (rule on_client_typed) simp
  have w: "server_typed (on_client fd (SetPin pin v) srv)" if "wmatch x = Some (pin, v)" for x pin v
    using assms(1) wmatch_typed [OF that] by (intro on_client_typed SetPin_typed)
  have n: "server_typed (on_client fd (\<lambda>ch. ch\<lparr>notify := notify ch @ [pin]\<rparr>) srv)" if "pin < PIN_COUNT" for pin
    using assms(1) that by (intro on_client_typed) (auto simp: channel_typed_def)
  have v: "server_typed (on_client fd (NotifyValues out) s)" if "server_typed s" for out s
    using that by (rule on_client_typed) simp
  show ?thesis using assms(2) d [OF assms(1)] d [OF n] d [OF Resolve_typed [OF w]] d [OF v [OF Resolve_typed [OF assms(1)]]]
    unfolding found_terminator_def Let_def by (auto split: if_splits option.splits sum.splits)
qed

lemma panel_step_typed: "server_typed srv \<Longrightarrow> panel_step p srv = Inr srv' \<Longrightarrow> server_typed srv'"
proof (cases p)
  case (Accept k fd)
  assume "server_typed srv" "panel_step p srv = Inr srv'"
  then show ?thesis using Accept new_channel_typed
    by (fastforce simp: handle_accept_def server_typed_def list_all_iff dest: in_set_takeD in_set_dropD)
next
  case (Close fd)
  assume s: "server_typed srv" "panel_step p srv = Inr srv'"
  have "server_typed (srv\<lparr>clients := filter (\<lambda>(k, ch). k \<noteq> fd) (clients srv)\<rparr>)"
    using s(1) by (auto simp: server_typed_def list_all_iff)
  then show ?thesis using s(2) Close Resolve_typed by (auto simp: handle_close_def split: sum.splits)
next
  case (Incoming fd d)
  assume "server_typed srv" "panel_step p srv = Inr srv'"
  then show ?thesis using Incoming by (auto simp: collect_incoming_data_def intro!: on_client_typed)
qed (auto intro: found_terminator_typed)

text \<open>
  C16.  The state of the server keeps its types.  After any connections, lines, however malformed, and
  disconnections that the server survives, every client has a state of the protocol for each of the
  eight pins and is subscribed to existing pins only, and the last resolved levels are eight levels.
\<close>

theorem panel_well_typed:
  assumes "panel_run ops new_server = Inr srv"
  shows "server_typed srv"
proof -
  have "server_typed new_server" by (simp add: server_typed_def new_server_def GetDefaultPins_def)
  moreover have "server_typed s \<Longrightarrow> panel_run ps s = Inr s' \<Longrightarrow> server_typed s'" for ps s s'
    by (induction ps arbitrary: s) (auto split: sum.splits dest: panel_step_typed)
  ultimately show ?thesis using assms by blast
qed

theorem panel_well_typed_witness:
  "\<exists>srv. panel_run [Accept 0 4, Incoming 4 ''W 7 P'', Terminator 4, Incoming 4 ''W 8 0'', Terminator 4,
     Incoming 4 ''NOTIFY 2'', Terminator 4] new_server = Inr srv \<and> server_typed srv \<and> LastResolve srv = ''XXXXXXXP''"
proof -
  let ?ops = "[Accept 0 4, Incoming 4 ''W 7 P'', Terminator 4, Incoming 4 ''W 8 0'', Terminator 4, Incoming 4 ''NOTIFY 2'', Terminator 4]"
  have "case panel_run ?ops new_server of Inl e \<Rightarrow> False | Inr srv \<Rightarrow> LastResolve srv = ''XXXXXXXP''" by code_simp
  then show ?thesis using panel_well_typed [of ?ops] by (auto split: sum.splits)
qed

end
