(* ===== verification/Rdc_Gpio.thy ===== *)
theory Rdc_Gpio
  imports Panel
begin

text \<open>
  The GPIO of the RDC south bridge (\<^verbatim>\<open>hw/rdc-gpio.c\<close>): a PCI configuration space whose data register
  at 0x4c is connected to the GPIO panel over a socket.  The socket calls of the operating
  system are a parameter that works on the world \<open>'w\<close>.  The two loops that wait for the panel
  have no bound in the code: \<open>None\<close> is a wait that never ends.  \<open>bad_isset\<close> is what the
  undefined \<^verbatim>\<open>FD_ISSET(-1, ...)\<close> yields.
\<close>

section \<open>Model\<close>

datatype select_result = SelError bool | SelTimeout | SelReady bool bool

datatype recv_result = RecvData string | RecvClosed | RecvError

record 'w sock_ops =
  os_socket :: "'w \<Rightarrow> int \<times> 'w"
  os_connect :: "int \<Rightarrow> 'w \<Rightarrow> int \<times> 'w"
  os_send :: "int \<Rightarrow> string \<Rightarrow> 'w \<Rightarrow> int \<times> 'w"
  os_select :: "int \<Rightarrow> 'w \<Rightarrow> select_result \<times> 'w"
  os_recv :: "int \<Rightarrow> nat \<Rightarrow> 'w \<Rightarrow> recv_result \<times> 'w"
  os_close :: "int \<Rightarrow> 'w \<Rightarrow> 'w"
  bad_isset :: bool

definition g_PinMap :: "nat list" where
  "g_PinMap = [16, 15, 11, 13, 9, 12]"

abbreviation PANEL_PINS :: nat where
  "PANEL_PINS \<equiv> 6"

record panel_connection =
  socket :: int
  last_sent :: string

record PCIGPIOState =
  panel :: panel_connection
  cfg_state :: bytes

definition panel_open :: "'w sock_ops \<Rightarrow> panel_connection \<Rightarrow> 'w \<Rightarrow> int \<times> panel_connection \<times> 'w" where
  "panel_open S h w =
     (let (fd, w1) = os_socket S w in
      if fd = -1 then (-1, h\<lparr>socket := -1\<rparr>, w1)
      else
        (let (r, w2) = os_connect S fd w1 in
         if r = -1 then (-1, h\<lparr>socket := -1\<rparr>, os_close S fd w2)
         else (0, h\<lparr>socket := fd\<rparr>, w2)))"

definition panel_command :: "'w sock_ops \<Rightarrow> string \<Rightarrow> panel_connection \<Rightarrow> 'w \<Rightarrow> panel_connection \<times> 'w" where
  "panel_command S command h w =
     (let (r, w1) = os_send S (socket h) command w in
      if r = -1 then (h\<lparr>socket := -1\<rparr>, os_close S (socket h) w1) else (h, w1))"

text \<open>The wait for the socket: the error that ends it, or which of the two sets is signalled.\<close>

partial_function (option) select_loop ::
  "'w sock_ops \<Rightarrow> int \<Rightarrow> 'w \<Rightarrow> ((bool \<times> bool) option \<times> 'w) option" where
  "select_loop S fd w =
     (case os_select S fd w of
        (SelError eintr, w1) \<Rightarrow> (if eintr then select_loop S fd w1 else Some (None, w1))
      | (SelTimeout, w1) \<Rightarrow> select_loop S fd w1
      | (SelReady r e, w1) \<Rightarrow> Some (Some (r, e), w1))"

definition cstring :: "string \<Rightarrow> string" where
  "cstring s = takeWhile (\<lambda>c. c \<noteq> CHR 0x00) s"

text \<open>
  The length and the text of \<^verbatim>\<open>status\<close> (at most \<open>slen - 1\<close> characters, the rest of the buffer is
  zero), the connection and the world.
\<close>

definition panel_getpins ::
  "'w sock_ops \<Rightarrow> string \<Rightarrow> nat \<Rightarrow> panel_connection \<Rightarrow> 'w \<Rightarrow> (nat \<times> string \<times> panel_connection \<times> 'w) option" where
  "panel_getpins S status slen h w =
     (if socket h = -1 then Some (0, status, h, w)
      else
        (case select_loop S (socket h) w of
           None \<Rightarrow> None
         | Some (None, w1) \<Rightarrow> Some (0, status, h\<lparr>socket := -1\<rparr>, os_close S (socket h) w1)
         | Some (Some (rd, ex), w1) \<Rightarrow>
             (let (st, h1, w2) =
                (if rd then
                   (case os_recv S (socket h) 99 w1 of
                      (RecvData str, w2) \<Rightarrow>
                        (if take 2 (cstring str) = ''R '' then (take (slen - 1) (drop 2 (cstring str)), h, w2)
                         else ('''', h, w2))
                    | (_, w2) \<Rightarrow> ('''', h\<lparr>socket := -1\<rparr>, os_close S (socket h) w2))
                 else ('''', h, w1));
                  isset = (if socket h1 = -1 then bad_isset S else ex);
                  (h2, w3) = (if isset then (h1\<lparr>socket := -1\<rparr>, os_close S (socket h1) w2) else (h1, w2))
              in Some (length st, st, h2, w3))))"

partial_function (option) getpins_loop ::
  "'w sock_ops \<Rightarrow> string \<Rightarrow> nat \<Rightarrow> panel_connection \<Rightarrow> 'w \<Rightarrow> (nat \<times> string \<times> panel_connection \<times> 'w) option" where
  "getpins_loop S status slen h w =
     (case panel_getpins S status slen h w of
        None \<Rightarrow> None
      | Some (n, st, h1, w1) \<Rightarrow> (if n = 0 then getpins_loop S st slen h1 w1 else Some (n, st, h1, w1)))"

definition crlf :: string where
  "crlf = [CHR 0x0D, CHR 0x0A]"

definition panel_read ::
  "'w sock_ops \<Rightarrow> string \<Rightarrow> nat \<Rightarrow> panel_connection \<Rightarrow> 'w \<Rightarrow> (nat \<times> string \<times> panel_connection \<times> 'w) option" where
  "panel_read S status slen h w =
     (let (h1, w1) = panel_command S (''R'' @ crlf) h w in getpins_loop S status slen h1 w1)"

fun decimal :: "nat \<Rightarrow> string" where
  "decimal n = (if n < 10 then [char_of (48 + n)] else decimal (n div 10) @ [char_of (48 + n mod 10)])"

declare decimal.simps [simp del]

definition panel_write :: "'w sock_ops \<Rightarrow> nat \<Rightarrow> char \<Rightarrow> panel_connection \<Rightarrow> 'w \<Rightarrow> panel_connection \<times> 'w" where
  "panel_write S pin val h w = panel_command S (''W '' @ decimal pin @ '' '' @ [val] @ crlf) h w"

fun bb_pin_write_loop :: "'w sock_ops \<Rightarrow> u32 \<Rightarrow> nat list \<Rightarrow> panel_connection \<times> 'w \<Rightarrow> panel_connection \<times> 'w" where
  "bb_pin_write_loop S reg [] hw = hw"
| "bb_pin_write_loop S reg (i # is) (h, w) =
     (let tmp = (if reg AND BIT (g_PinMap ! i) \<noteq> 0 then CHR ''P'' else CHR ''0'') in
      if tmp \<noteq> last_sent h ! i then
        (let (h1, w1) = panel_write S i tmp h w
         in bb_pin_write_loop S reg is (h1\<lparr>last_sent := (last_sent h1)[i := tmp]\<rparr>, w1))
      else bb_pin_write_loop S reg is (h, w))"

definition bb_pin_write :: "'w sock_ops \<Rightarrow> u32 \<Rightarrow> panel_connection \<Rightarrow> 'w \<Rightarrow> panel_connection \<times> 'w" where
  "bb_pin_write S reg h w = bb_pin_write_loop S reg [0..<PANEL_PINS] (h, w)"

definition status_char :: "string \<Rightarrow> nat \<Rightarrow> char" where
  "status_char st i = (if i < length st then st ! i else CHR 0x00)"

definition bb_pin_read :: "'w sock_ops \<Rightarrow> panel_connection \<Rightarrow> 'w \<Rightarrow> (u32 \<times> panel_connection \<times> 'w) option" where
  "bb_pin_read S h w =
     (case panel_read S '''' 100 h w of
        None \<Rightarrow> None
      | Some (n, tmp, h1, w1) \<Rightarrow>
          (let out = (if n \<noteq> 0
                      then foldl (\<lambda>out i. if status_char tmp i = CHR ''0'' then out AND NOT (BIT (g_PinMap ! i)) else out)
                             0xffffffff [0..<PANEL_PINS]
                      else 0xffffffff)
           in Some (out, h1, w1)))"

definition mask_it :: "u32 \<Rightarrow> nat \<Rightarrow> u32" where
  "mask_it val len = (if len = 1 then val AND 0xff else if len = 2 then val AND 0xffff else val)"

text \<open>
  The accesses of the PCI core, of 1, 2 or 4 bytes at an address below 0x100: the value (for a
  read), the device and the world.
\<close>

definition pci_read_config ::
  "'w sock_ops \<Rightarrow> u32 \<Rightarrow> nat \<Rightarrow> PCIGPIOState \<Rightarrow> 'w \<Rightarrow> (u32 \<times> PCIGPIOState \<times> 'w) option" where
  "pci_read_config S address len pms w =
     (let top = address + of_nat len in
      if address = 0x44 then Some (0xffffffff, pms, w)
      else if top \<ge> 0x100 then Some (mask_it 0xffffffff len, pms, w)
      else
        (case (if address \<ge> 0x4c \<and> address \<le> 0x50 then
                 (if socket (panel pms) = -1 then
                    Some (pms\<lparr>cfg_state := mem_write (cfg_state pms) 0x4c (to_le 4 (0 :: u32))\<rparr>, w)
                  else
                    (case bb_pin_read S (panel pms) w of
                       None \<Rightarrow> None
                     | Some (out, h1, w1) \<Rightarrow>
                         Some (pms\<lparr>panel := h1, cfg_state := mem_write (cfg_state pms) 0x4c (to_le 4 out)\<rparr>, w1)))
               else Some (pms, w)) of
           None \<Rightarrow> None
         | Some (pms1, w1) \<Rightarrow> Some (of_le (mem_read (cfg_state pms1) (unat address) len), pms1, w1)))"

definition pci_write_config ::
  "'w sock_ops \<Rightarrow> u32 \<Rightarrow> u32 \<Rightarrow> nat \<Rightarrow> PCIGPIOState \<Rightarrow> 'w \<Rightarrow> PCIGPIOState \<times> 'w" where
  "pci_write_config S address val len pms w =
     (let top = address + of_nat len in
      if address = 0x44 then (pms, w)
      else if address + of_nat len > 0x100 then (pms, w)
      else
        (let (pms1, w1) =
           (if address \<ge> 0x4c \<and> top \<le> 0x50 then
              (if socket (panel pms) = -1 then (pms, w)
               else (let (h1, w1) = bb_pin_write S val (panel pms) w in (pms\<lparr>panel := h1\<rparr>, w1)))
            else (pms, w))
         in (pms1\<lparr>cfg_state := mem_write (cfg_state pms1) (unat address) (to_le len val)\<rparr>, w1)))"

fun init_pins :: "'w sock_ops \<Rightarrow> nat list \<Rightarrow> panel_connection \<times> 'w \<Rightarrow> panel_connection \<times> 'w" where
  "init_pins S [] hw = hw"
| "init_pins S (i # is) (h, w) =
     (let (h1, w1) = panel_write S i (CHR ''P'') h w
      in init_pins S is (h1\<lparr>last_sent := (last_sent h1)[i := CHR ''P'']\<rparr>, w1))"

definition southbridge :: "(nat \<times> u8) list" where
  "southbridge = [(0, 0xf3), (1, 0x17), (2, 0x30), (3, 0x60), (4, 0x0f), (5, 0x00), (6, 0x00),
     (7, 0x04), (8, 0x00), (9, 0x00), (0xa, 0x01), (0xb, 0x06), (0xe, 0x00)]"

definition rdc_gpio_pci_init :: "'w sock_ops \<Rightarrow> PCIGPIOState \<Rightarrow> 'w \<Rightarrow> PCIGPIOState \<times> 'w" where
  "rdc_gpio_pci_init S s w =
     (let (err, h, w1) = panel_open S (panel s) w in
      if err \<noteq> 0 then (s\<lparr>panel := h\<rparr>, w1)
      else
        (let (h1, w2) = init_pins S [0..<PANEL_PINS] (h, w1);
             cfg = mem_set (cfg_state s) 0 0xff 0x100;
             cfg1 = foldl (\<lambda>c (i, v). c(i := v)) cfg southbridge
         in (s\<lparr>panel := h1, cfg_state := cfg1\<rparr>, w2)))"

end
