(* ===== verification/Gpio_Panel.thy ===== *)
theory Gpio_Panel
  imports Rdc_Gpio
begin

text \<open>
  The GPIO device connected to the panel server: the socket operations of the device, with the
  server of \<open>Panel\<close> at the other end.  A command line is served when it is sent (the device
  sends whole lines), and what the channel pushed is what the device receives.
\<close>

section \<open>The connection\<close>

definition serve_line :: "int \<Rightarrow> string \<Rightarrow> TerminalBlock \<Rightarrow> py_error + TerminalBlock" where
  "serve_line fd line srv = found_terminator fd (collect_incoming_data fd line srv)"

definition client_out :: "int \<Rightarrow> TerminalBlock \<Rightarrow> string" where
  "client_out fd srv = (case map_of (clients srv) fd of None \<Rightarrow> '''' | Some ch \<Rightarrow> outbuf ch)"

definition panel_ops :: "int \<Rightarrow> TerminalBlock sock_ops" where
  "panel_ops c = \<lparr>os_socket = \<lambda>srv. (c, srv),
     os_connect = \<lambda>fd srv. (0, handle_accept 0 fd srv),
     os_send = \<lambda>fd s srv. (case serve_line fd (take (length s - 2) s) srv of
        Inl e \<Rightarrow> (-1, srv) | Inr srv1 \<Rightarrow> (int (length s), srv1)),
     os_select = \<lambda>fd srv. (if client_out fd srv \<noteq> '''' then SelReady True False else SelTimeout, srv),
     os_recv = \<lambda>fd n srv. (RecvData (take n (client_out fd srv)),
        on_client fd (\<lambda>ch. ch\<lparr>outbuf := drop n (outbuf ch)\<rparr>) srv),
     os_close = \<lambda>fd srv. srv\<lparr>clients := filter (\<lambda>(k, ch). k \<noteq> fd) (clients srv)\<rparr>,
     bad_isset = False\<rparr>"

section \<open>Specification\<close>

definition pins_of :: "TerminalBlock \<Rightarrow> (int \<times> string) list" where
  "pins_of srv = map (\<lambda>(k, ch). (k, pins ch)) (clients srv)"

definition quiet_client :: "int \<Rightarrow> TerminalBlock \<Rightarrow> bool" where
  "quiet_client c srv \<longleftrightarrow> (\<exists>ch. map_of (clients srv) c = Some ch \<and> inbuf ch = '''' \<and> outbuf ch = '''' \<and> notify ch = [])"

text \<open>No client drives a pin high: everything is open drain.\<close>

definition open_drain :: "(int \<times> string) list \<Rightarrow> bool" where
  "open_drain A \<longleftrightarrow> (\<forall>k p. (k, p) \<in> set A \<longrightarrow> length p = PIN_COUNT \<and> set p \<subseteq> set ''0PX'')"

definition panel_inv :: "int \<Rightarrow> TerminalBlock \<Rightarrow> bool" where
  "panel_inv c srv \<longleftrightarrow> distinct (map fst (clients srv)) \<and> quiet_client c srv \<and> open_drain (pins_of srv)"

definition pin_state :: "(int \<times> string) list \<Rightarrow> nat \<Rightarrow> char" where
  "pin_state A i = pin_join (map (\<lambda>(k, p). p ! i) A)"

definition set_pins :: "int \<Rightarrow> nat \<Rightarrow> char \<Rightarrow> (int \<times> string) list \<Rightarrow> (int \<times> string) list" where
  "set_pins c i v A = map (\<lambda>(k, p). (k, if k = c then p[i := v] else p)) A"

definition pin_char :: "u32 \<Rightarrow> nat \<Rightarrow> char" where
  "pin_char reg i = (if bit reg (g_PinMap ! i) then CHR ''P'' else CHR ''0'')"

text \<open>The device is connected as client \<open>c\<close>, and remembers what it last told the panel.\<close>

definition gpio_connected :: "int \<Rightarrow> panel_connection \<Rightarrow> TerminalBlock \<Rightarrow> bool" where
  "gpio_connected c h srv \<longleftrightarrow> c \<noteq> -1 \<and> socket h = c \<and> panel_inv c srv \<and> length (last_sent h) = PANEL_PINS \<and>
     (\<exists>p. map_of (pins_of srv) c = Some p \<and> take PANEL_PINS p = last_sent h)"

definition others :: "int \<Rightarrow> TerminalBlock \<Rightarrow> (int \<times> string) list" where
  "others c srv = filter (\<lambda>(k, p). k \<noteq> c) (pins_of srv)"

definition sample_panel :: TerminalBlock where
  "sample_panel = \<lparr>clients = [(7, new_channel\<lparr>pins := ''PPPPPPXX''\<rparr>), (9, new_channel\<lparr>pins := ''XX0XXXXX''\<rparr>)],
     LastResolve = GetDefaultPins\<rparr>"

section \<open>The server\<close>

lemma resolve_list_open:
  "set ps \<subseteq> set ''0PX'' \<Longrightarrow> resolve_list ps = Inr (pin_join ps)"
proof (cases ps)
  case Nil
  then show ?thesis by (simp add: pin_join_def contended_def)
next
  case (Cons p qs)
  assume a: "set ps \<subseteq> set ''0PX''"
  then have "CHR ''1'' \<notin> set ps" by auto
  then have "\<not> contended (butlast (p # qs))" using Cons by (auto simp: contended_def dest: in_set_butlastD)
  then show ?thesis using resolve_list_cons [of p qs] a Cons by auto
qed

lemma open_drain_nth:
  assumes "open_drain A" and "(k, q) \<in> set A" and "i < PIN_COUNT"
  shows "q ! i \<in> set ''0PX''"
proof -
  have l: "length q = PIN_COUNT" and ss: "set q \<subseteq> set ''0PX''"
    using assms(1,2) unfolding open_drain_def by blast+
  have "i < length q" using l assms(3) by simp
  then have "q ! i \<in> set q" by (rule nth_mem)
  with ss show ?thesis by blast
qed

lemma ResolvePin_open:
  assumes "open_drain (pins_of srv)" and "i < PIN_COUNT"
  shows "ResolvePin srv i = Inr (pin_state (pins_of srv) i)"
proof -
  have "map (\<lambda>(fd, ch). GetPin ch i) (clients srv) = map (\<lambda>(k, p). p ! i) (pins_of srv)"
    by (auto simp: pins_of_def GetPin_def)
  moreover have "set (map (\<lambda>(k, p). p ! i) (pins_of srv)) \<subseteq> set ''0PX''"
  proof
    fix x assume "x \<in> set (map (\<lambda>(k, p). p ! i) (pins_of srv))"
    then obtain k q where q: "(k, q) \<in> set (pins_of srv)" and x: "x = q ! i" by auto
    show "x \<in> set ''0PX''" unfolding x using assms q by (intro open_drain_nth)
  qed
  ultimately show ?thesis by (simp only: ResolvePin_def pin_state_def resolve_list_open)
qed

lemma resolve_pins_open:
  "open_drain (pins_of srv) \<Longrightarrow> \<forall>i \<in> set is. i < PIN_COUNT \<Longrightarrow>
     resolve_pins srv is = Inr (map (pin_state (pins_of srv)) is)"
  by (induction "is") (simp_all add: ResolvePin_open)

lemma map_of_on_client:
  "map_of (map (\<lambda>(k, ch). (k, if k = c then f ch else ch)) xs) c = map_option f (map_of xs c)"
  by (induction xs) auto

lemma on_client_facts [simp]:
  "map fst (clients (on_client c f srv)) = map fst (clients srv)"
  "map_of (clients (on_client c f srv)) c = map_option f (map_of (clients srv) c)"
  by (auto simp: on_client_def map_of_on_client case_prod_beta)

lemma pins_of_on_client:
  "(\<And>ch. pins (f ch) = pins ch) \<Longrightarrow> pins_of (on_client c f srv) = pins_of srv"
  by (auto simp: pins_of_def on_client_def)

lemma pins_of_SetPin: "pins_of (on_client c (SetPin i v) srv) = set_pins c i v (pins_of srv)"
  by (auto simp: pins_of_def on_client_def SetPin_def set_pins_def)

lemma NotifyAll_facts:
  "pins_of (NotifyAll out d srv) = pins_of srv"
  "map fst (clients (NotifyAll out d srv)) = map fst (clients srv)"
  "map_of (clients srv) c = Some ch \<Longrightarrow> notify ch = [] \<Longrightarrow> map_of (clients (NotifyAll out d srv)) c = Some ch"
proof -
  show "pins_of (NotifyAll out d srv) = pins_of srv"
    by (auto simp: pins_of_def NotifyAll_def NotifyValues_def)
  show "map fst (clients (NotifyAll out d srv)) = map fst (clients srv)"
    by (auto simp: NotifyAll_def)
  have "map_of xs c = Some ch \<Longrightarrow> notify ch = [] \<Longrightarrow>
      map_of (map (\<lambda>(fd, ch). (fd, if list_ex (\<lambda>i. i \<in> set d) (notify ch) then NotifyValues out ch else ch)) xs) c = Some ch" for xs
    by (induction xs) (auto split: if_splits)
  then show "map_of (clients srv) c = Some ch \<Longrightarrow> notify ch = [] \<Longrightarrow> map_of (clients (NotifyAll out d srv)) c = Some ch"
    by (simp add: NotifyAll_def)
qed

lemma Resolve_open:
  assumes "open_drain (pins_of srv)" and "map_of (clients srv) c = Some ch" and "notify ch = []"
  shows "\<exists>srv'. Resolve srv = Inr (map (pin_state (pins_of srv)) [0..<PIN_COUNT], srv') \<and>
    pins_of srv' = pins_of srv \<and> map fst (clients srv') = map fst (clients srv) \<and>
    map_of (clients srv') c = Some ch"
proof -
  let ?out = "map (pin_state (pins_of srv)) [0..<PIN_COUNT]"
  have r: "resolve_pins srv [0..<PIN_COUNT] = Inr ?out" using assms(1) by (intro resolve_pins_open) auto
  have p: "pins_of (srv\<lparr>LastResolve := x\<rparr>) = pins_of srv" for x by (simp add: pins_of_def)
  show ?thesis unfolding Resolve_def r
    using assms by (simp add: Let_def NotifyAll_facts p del: upt_rec_numeral)
qed

lemma pins_of_collect [simp]: "pins_of (collect_incoming_data c d srv) = pins_of srv"
  unfolding collect_incoming_data_def by (rule pins_of_on_client) simp

lemma client_data_collect:
  "map_of (clients srv) c = Some ch \<Longrightarrow> inbuf ch = '''' \<Longrightarrow>
     client_data c (collect_incoming_data c d srv) = d"
  by (simp add: client_data_def collect_incoming_data_def)

lemma wmatch_print:
  "i < PANEL_PINS \<Longrightarrow> v \<in> set ''10PX'' \<Longrightarrow> wmatch (''W '' @ decimal i @ '' '' @ [v]) = Some (i, v)"
proof -
  assume i: "i < PANEL_PINS" and v: "v \<in> set ''10PX''"
  have "i \<in> {0, 1, 2, 3, 4, 5}" using i by auto
  then show ?thesis using v
    by (elim insertE emptyE)
       (auto simp: wmatch_def decimal.simps is_digit_def int_of_digits_def digit_val_def char_of_def bit_0)
qed

lemma open_drain_set_pins:
  "open_drain A \<Longrightarrow> v \<in> set ''0PX'' \<Longrightarrow> open_drain (set_pins c i v A)"
  unfolding open_drain_def set_pins_def
  by (fastforce dest: set_update_subset_insert [THEN subsetD] split: if_splits)

lemma serve_write:
  assumes inv: "panel_inv c srv" and i: "i < PANEL_PINS" and v: "v \<in> set ''0P''"
  shows "\<exists>srv'. serve_line c (''W '' @ decimal i @ '' '' @ [v]) srv = Inr srv' \<and> panel_inv c srv' \<and>
    pins_of srv' = set_pins c i v (pins_of srv)"
proof -
  let ?d = "''W '' @ decimal i @ '' '' @ [v]"
  let ?s1 = "collect_incoming_data c ?d srv"
  let ?s2 = "on_client c (SetPin i v) ?s1"
  obtain ch where ch: "map_of (clients srv) c = Some ch" "inbuf ch = ''''" "outbuf ch = ''''" "notify ch = []"
    using inv by (auto simp: panel_inv_def quiet_client_def)
  have data: "client_data c ?s1 = ?d" using ch by (intro client_data_collect) auto
  have p1: "pins_of ?s1 = pins_of srv"
    by simp
  have od: "open_drain (pins_of ?s2)"
    unfolding pins_of_SetPin p1 using inv v by (intro open_drain_set_pins) (auto simp: panel_inv_def)
  have ch2: "map_of (clients ?s2) c = Some (SetPin i v (ch\<lparr>inbuf := ?d\<rparr>))"
    using ch by (simp add: collect_incoming_data_def)
  obtain srv' where r: "Resolve ?s2 = Inr (map (pin_state (pins_of ?s2)) [0..<PIN_COUNT], srv')"
    "pins_of srv' = pins_of ?s2" "map fst (clients srv') = map fst (clients ?s2)"
    "map_of (clients srv') c = Some (SetPin i v (ch\<lparr>inbuf := ?d\<rparr>))"
    using Resolve_open [OF od ch2] ch by (auto simp: SetPin_def)
  let ?s3 = "on_client c (\<lambda>ch. ch\<lparr>inbuf := ''''\<rparr>) srv'"
  have "wmatch ?d = Some (i, v)" using i v by (intro wmatch_print) auto
  moreover have "i < PIN_COUNT" using i by simp
  ultimately have "serve_line c ?d srv = Inr ?s3"
    unfolding serve_line_def found_terminator_def Let_def data using r(1) by simp
  moreover have p3: "pins_of ?s3 = set_pins c i v (pins_of srv)"
    by (simp add: pins_of_on_client r(2) pins_of_SetPin p1)
  moreover have od1: "open_drain (set_pins c i v (pins_of srv))" using od by (simp add: pins_of_SetPin)
  moreover have "panel_inv c ?s3"
    using inv r(3,4) od1 ch
    by (simp add: panel_inv_def quiet_client_def p3 pins_of_SetPin p1 SetPin_def collect_incoming_data_def)
  ultimately show ?thesis by blast
qed

lemma serve_read:
  assumes inv: "panel_inv c srv"
  shows "\<exists>srv'. serve_line c ''R'' srv = Inr srv' \<and> pins_of srv' = pins_of srv \<and>
    map_of (clients srv') c = map_option (\<lambda>ch. ch\<lparr>inbuf := '''',
      outbuf := ''R '' @ map (pin_state (pins_of srv)) [0..<PIN_COUNT] @ crlf\<rparr>) (map_of (clients srv) c) \<and>
    map fst (clients srv') = map fst (clients srv)"
proof -
  let ?s1 = "collect_incoming_data c ''R'' srv"
  obtain ch where ch: "map_of (clients srv) c = Some ch" "inbuf ch = ''''" "outbuf ch = ''''" "notify ch = []"
    using inv by (auto simp: panel_inv_def quiet_client_def)
  have data: "client_data c ?s1 = ''R''" using ch by (intro client_data_collect) auto
  have p1: "pins_of ?s1 = pins_of srv"
    unfolding collect_incoming_data_def by (rule pins_of_on_client) simp
  have ch1: "map_of (clients ?s1) c = Some (ch\<lparr>inbuf := ''R''\<rparr>)"
    using ch by (simp add: collect_incoming_data_def)
  have od: "open_drain (pins_of ?s1)" using inv by (simp add: p1 panel_inv_def)
  obtain srv' where r: "Resolve ?s1 = Inr (map (pin_state (pins_of ?s1)) [0..<PIN_COUNT], srv')"
    "pins_of srv' = pins_of ?s1" "map fst (clients srv') = map fst (clients ?s1)"
    "map_of (clients srv') c = Some (ch\<lparr>inbuf := ''R''\<rparr>)"
    using Resolve_open [OF od ch1] ch by auto
  let ?out = "map (pin_state (pins_of ?s1)) [0..<PIN_COUNT]"
  let ?s3 = "on_client c (\<lambda>ch. ch\<lparr>inbuf := ''''\<rparr>) (on_client c (NotifyValues ?out) srv')"
  have "serve_line c ''R'' srv = Inr ?s3"
    unfolding serve_line_def found_terminator_def Let_def data using r(1) by simp
  moreover have "pins_of ?s3 = pins_of srv"
    by (simp add: pins_of_on_client r(2) p1 NotifyValues_def)
  ultimately show ?thesis using r(3,4) ch p1
    by (intro exI [of _ ?s3]) (simp add: NotifyValues_def crlf_def collect_incoming_data_def)
qed

section \<open>The device and the server\<close>

lemma take_crlf: "take (length (x @ crlf) - 2) (x @ crlf) = x"
  by (simp add: crlf_def)

lemma map_of_set_pins: "map_of (set_pins c i v A) c = map_option (\<lambda>p. p[i := v]) (map_of A c)"
  unfolding set_pins_def by (rule map_of_on_client)

lemma others_set_pins: "filter (\<lambda>(k, p). k \<noteq> c) (set_pins c i v A) = filter (\<lambda>(k, p). k \<noteq> c) A"
  unfolding set_pins_def by (induction A) auto

lemma panel_write_connected:
  assumes "gpio_connected c h srv" and i: "i < PANEL_PINS" and v: "v \<in> set ''0P''"
  shows "\<exists>srv'. panel_write (panel_ops c) i v h srv = (h, srv') \<and>
    gpio_connected c (h\<lparr>last_sent := (last_sent h)[i := v]\<rparr>) srv' \<and> others c srv' = others c srv"
proof -
  let ?d = "''W '' @ decimal i @ '' '' @ [v]"
  have inv: "panel_inv c srv" using assms(1) by (simp add: gpio_connected_def)
  obtain srv' where s: "serve_line c ?d srv = Inr srv'" "panel_inv c srv'"
    "pins_of srv' = set_pins c i v (pins_of srv)"
    using serve_write [OF inv i v] by blast
  have t: "take (length (?d @ crlf) - 2) (?d @ crlf) = ?d" by (rule take_crlf)
  have "panel_write (panel_ops c) i v h srv = (h, srv')"
    using assms(1) s(1) t unfolding panel_write_def panel_command_def panel_ops_def gpio_connected_def
    by (simp del: length_append)
  moreover obtain p where p: "map_of (pins_of srv) c = Some p" "take PANEL_PINS p = last_sent h"
    using assms(1) by (auto simp: gpio_connected_def)
  then have "gpio_connected c (h\<lparr>last_sent := (last_sent h)[i := v]\<rparr>) srv'"
    using assms(1) s(2,3) i by (simp add: gpio_connected_def map_of_set_pins take_update_swap)
  moreover have "others c srv' = others c srv" by (simp add: others_def s(3) others_set_pins)
  ultimately show ?thesis by blast
qed

lemma pin_char_reg: "(if reg AND BIT (g_PinMap ! i) \<noteq> 0 then CHR ''P'' else CHR ''0'') = pin_char reg i"
  by (simp add: pin_char_def)

lemma pin_write_loop_connected:
  assumes "gpio_connected c h srv" and "\<forall>i \<in> set is. i < PANEL_PINS"
  shows "\<exists>h' srv'. bb_pin_write_loop (panel_ops c) reg is (h, srv) = (h', srv') \<and>
    gpio_connected c h' srv' \<and> others c srv' = others c srv \<and>
    (\<forall>i < PANEL_PINS. last_sent h' ! i = (if i \<in> set is then pin_char reg i else last_sent h ! i))"
  using assms
proof (induction "is" arbitrary: h srv)
  case Nil
  then show ?case by simp
next
  case (Cons i js)
  have i: "i < PANEL_PINS" using Cons.prems by simp
  have l: "length (last_sent h) = PANEL_PINS" using Cons.prems by (simp add: gpio_connected_def)
  have step: "bb_pin_write_loop (panel_ops c) reg (i # js) (h, srv) =
      (if pin_char reg i \<noteq> last_sent h ! i
       then (let (h1, w1) = panel_write (panel_ops c) i (pin_char reg i) h srv
             in bb_pin_write_loop (panel_ops c) reg js (h1\<lparr>last_sent := (last_sent h1)[i := pin_char reg i]\<rparr>, w1))
       else bb_pin_write_loop (panel_ops c) reg js (h, srv))"
    by (simp only: bb_pin_write_loop.simps pin_char_reg Let_def)
  show ?case
  proof (cases "pin_char reg i = last_sent h ! i")
    case True
    then show ?thesis using Cons.IH [OF Cons.prems(1)] Cons.prems(2) step by fastforce
  next
    case False
    have v: "pin_char reg i \<in> set ''0P''" by (simp add: pin_char_def)
    obtain srv1 where w: "panel_write (panel_ops c) i (pin_char reg i) h srv = (h, srv1)"
      "gpio_connected c (h\<lparr>last_sent := (last_sent h)[i := pin_char reg i]\<rparr>) srv1" "others c srv1 = others c srv"
      using panel_write_connected [OF Cons.prems(1) i v] by blast
    obtain h' srv' where r: "bb_pin_write_loop (panel_ops c) reg js
        (h\<lparr>last_sent := (last_sent h)[i := pin_char reg i]\<rparr>, srv1) = (h', srv')"
      "gpio_connected c h' srv'" "others c srv' = others c srv1"
      "\<forall>j < PANEL_PINS. last_sent h' ! j = (if j \<in> set js then pin_char reg j else (last_sent h)[i := pin_char reg i] ! j)"
      using Cons.IH [OF w(2)] Cons.prems(2) by auto
    have "bb_pin_write_loop (panel_ops c) reg (i # js) (h, srv) = (h', srv')"
      unfolding step using False w(1) r(1) by simp
    moreover have "\<forall>j < PANEL_PINS. last_sent h' ! j = (if j \<in> set (i # js) then pin_char reg j else last_sent h ! j)"
      using r(4) l by (auto simp: nth_list_update)
    ultimately show ?thesis using r(2,3) w(3) by auto
  qed
qed

lemma pin_join_zero: "CHR ''1'' \<notin> set ps \<Longrightarrow> pin_join ps = CHR ''0'' \<longleftrightarrow> CHR ''0'' \<in> set ps"
  by (simp add: pin_join_def contended_def)

lemma not_nul_join: "pin_join ps \<noteq> CHR 0x00"
  by (simp add: pin_join_def)

lemma cstring_reply: "cstring (''R '' @ map (pin_state A) is @ crlf) = ''R '' @ map (pin_state A) is @ crlf"
proof -
  have "\<forall>x \<in> set (''R '' @ map (pin_state A) is @ crlf). x \<noteq> CHR 0x00"
    by (auto simp: pin_state_def not_nul_join crlf_def)
  then show ?thesis unfolding cstring_def by (simp add: takeWhile_eq_all_conv)
qed

lemma pins_of_map_of: "map_of (pins_of srv) c = map_option pins (map_of (clients srv) c)"
  unfolding pins_of_def by (induction "clients srv") (auto simp: map_of_map)

lemma panel_read_connected:
  assumes "gpio_connected c h srv"
  shows "\<exists>srv'. panel_read (panel_ops c) '''' 100 h srv =
      Some (10, map (pin_state (pins_of srv)) [0..<PIN_COUNT] @ crlf, h, srv') \<and>
    gpio_connected c h srv' \<and> pins_of srv' = pins_of srv"
proof -
  let ?out = "map (pin_state (pins_of srv)) [0..<PIN_COUNT]"
  let ?reply = "''R '' @ ?out @ crlf"
  have inv: "panel_inv c srv" and c: "socket h = c" "c \<noteq> -1" using assms by (simp_all add: gpio_connected_def)
  obtain ch where ch: "map_of (clients srv) c = Some ch" "inbuf ch = ''''" "outbuf ch = ''''" "notify ch = []"
    using inv by (auto simp: panel_inv_def quiet_client_def)
  obtain s1 where s1: "serve_line c ''R'' srv = Inr s1" "pins_of s1 = pins_of srv"
    "map_of (clients s1) c = Some (ch\<lparr>inbuf := '''', outbuf := ?reply\<rparr>)"
    "map fst (clients s1) = map fst (clients srv)"
    using serve_read [OF inv] ch by auto
  let ?s2 = "on_client c (\<lambda>ch. ch\<lparr>outbuf := drop 99 (outbuf ch)\<rparr>) s1"
  have t: "take (length (''R'' @ crlf) - 2) (''R'' @ crlf) = ''R''" by (rule take_crlf)
  have cmd: "panel_command (panel_ops c) (''R'' @ crlf) h srv = (h, s1)"
    using s1(1) t c unfolding panel_command_def panel_ops_def by (simp del: length_append)
  have out: "client_out c s1 = ?reply" using s1(3) by (simp add: client_out_def)
  have len: "length ?reply = 12" by (simp add: crlf_def)
  have sel: "select_loop (panel_ops c) c s1 = Some (Some (True, False), s1)"
    using out by (subst select_loop.simps) (simp add: panel_ops_def del: upt_rec_numeral)
  have rc: "os_recv (panel_ops c) c 99 s1 = (RecvData ?reply, ?s2)"
    using out len by (simp add: panel_ops_def del: upt_rec_numeral)
  have gp: "panel_getpins (panel_ops c) '''' 100 h s1 = Some (10, ?out @ crlf, h, ?s2)"
    unfolding panel_getpins_def c sel using c len cstring_reply [of "pins_of srv" "[0..<PIN_COUNT]"]
    by (simp add: rc crlf_def del: upt_rec_numeral)
  then have "panel_read (panel_ops c) '''' 100 h srv = Some (10, ?out @ crlf, h, ?s2)"
    unfolding panel_read_def cmd by (simp add: getpins_loop.simps [of _ "''''"] del: upt_rec_numeral)
  moreover have p2: "pins_of ?s2 = pins_of srv" by (simp add: pins_of_on_client s1(2))
  moreover have "gpio_connected c h ?s2"
    using assms ch s1(3,4) len by (simp add: gpio_connected_def panel_inv_def quiet_client_def p2 del: upt_rec_numeral)
  ultimately show ?thesis by blast
qed

lemma foldl_clear_bits:
  "n < 32 \<Longrightarrow> bit (foldl (\<lambda>out i. if P i then out AND NOT (BIT (f i)) else out) (x :: u32) is) n \<longleftrightarrow>
     bit x n \<and> \<not> (\<exists>i \<in> set is. P i \<and> f i = n)"
  by (induction "is" arbitrary: x) auto

lemma bb_pin_read_connected:
  assumes "gpio_connected c h srv"
  shows "\<exists>v srv'. bb_pin_read (panel_ops c) h srv = Some (v, h, srv') \<and>
    gpio_connected c h srv' \<and> pins_of srv' = pins_of srv \<and>
    (\<forall>n < 32. bit v n \<longleftrightarrow> \<not> (\<exists>i < PANEL_PINS. pin_state (pins_of srv) i = CHR ''0'' \<and> g_PinMap ! i = n))"
proof -
  let ?st = "map (pin_state (pins_of srv)) [0..<PIN_COUNT] @ crlf"
  obtain srv' where r: "panel_read (panel_ops c) '''' 100 h srv = Some (10, ?st, h, srv')"
    "gpio_connected c h srv'" "pins_of srv' = pins_of srv"
    using panel_read_connected [OF assms] by blast
  let ?v = "foldl (\<lambda>out i. if status_char ?st i = CHR ''0'' then out AND NOT (BIT (g_PinMap ! i)) else out)
    (0xffffffff :: u32) [0..<PANEL_PINS]"
  have st: "status_char ?st i = pin_state (pins_of srv) i" if "i < PANEL_PINS" for i
    using that by (simp add: status_char_def nth_append del: upt_rec_numeral)
  have "bb_pin_read (panel_ops c) h srv = Some (?v, h, srv')"
    by (simp add: bb_pin_read_def r(1) del: upt_rec_numeral foldl_Cons)
  moreover have "bit ?v n \<longleftrightarrow> \<not> (\<exists>i < PANEL_PINS. pin_state (pins_of srv) i = CHR ''0'' \<and> g_PinMap ! i = n)"
    if "n < 32" for n
  proof -
    have "bit (0xffffffff :: u32) n"
    proof -
      have "(0xffffffff :: u32) = mask 32" by (simp add: mask_eq_exp_minus_1)
      with that show ?thesis by (simp only: bit_mask_iff) simp
    qed
    then show ?thesis unfolding foldl_clear_bits [OF that] using st by fastforce
  qed
  ultimately show ?thesis using r(2,3) by blast
qed

lemma open_drain_no_one:
  assumes "open_drain A" and "i < PIN_COUNT"
  shows "CHR ''1'' \<notin> set (map (\<lambda>(k, p). p ! i) A)"
proof
  assume "CHR ''1'' \<in> set (map (\<lambda>(k, p). p ! i) A)"
  then obtain k q where q: "(k, q) \<in> set A" "q ! i = CHR ''1''" by auto
  have "q ! i \<in> set ''0PX''" using assms q(1) by (intro open_drain_nth)
  with q(2) show False by simp
qed

lemma pin_state_zero:
  assumes "gpio_connected c h srv" and "i < PANEL_PINS"
  shows "pin_state (pins_of srv) i = CHR ''0'' \<longleftrightarrow>
    last_sent h ! i = CHR ''0'' \<or> (\<exists>(k, p) \<in> set (others c srv). p ! i = CHR ''0'')"
proof -
  obtain p where p: "map_of (pins_of srv) c = Some p" "take PANEL_PINS p = last_sent h"
    using assms(1) by (auto simp: gpio_connected_def)
  have d: "distinct (map fst (pins_of srv))"
    using assms(1) by (auto simp: gpio_connected_def panel_inv_def pins_of_def comp_def case_prod_beta)
  have c: "(c, q) \<in> set (pins_of srv) \<longleftrightarrow> q = p" for q
    using p(1) d by (metis map_of_SomeD map_of_is_SomeI option.inject)
  have l: "last_sent h ! i = p ! i" using p(2) assms(2) by (metis nth_take)
  have "CHR ''1'' \<notin> set (map (\<lambda>(k, p). p ! i) (pins_of srv))"
    using assms by (intro open_drain_no_one) (auto simp: gpio_connected_def panel_inv_def)
  then have "pin_state (pins_of srv) i = CHR ''0'' \<longleftrightarrow> CHR ''0'' \<in> set (map (\<lambda>(k, p). p ! i) (pins_of srv))"
    unfolding pin_state_def by (rule pin_join_zero)
  also have "\<dots> \<longleftrightarrow> (\<exists>k q. (k, q) \<in> set (pins_of srv) \<and> q ! i = CHR ''0'')" by force
  also have "\<dots> \<longleftrightarrow> p ! i = CHR ''0'' \<or> (\<exists>(k, q) \<in> set (others c srv). q ! i = CHR ''0'')"
  proof
    assume "\<exists>k q. (k, q) \<in> set (pins_of srv) \<and> q ! i = CHR ''0''"
    then obtain k q where q: "(k, q) \<in> set (pins_of srv)" "q ! i = CHR ''0''" by blast
    show "p ! i = CHR ''0'' \<or> (\<exists>(k, q) \<in> set (others c srv). q ! i = CHR ''0'')"
    proof (cases "k = c")
      case True
      with c q show ?thesis by simp
    next
      case False
      with q have "(k, q) \<in> set (others c srv)" by (simp add: others_def)
      with q show ?thesis by blast
    qed
  next
    assume "p ! i = CHR ''0'' \<or> (\<exists>(k, q) \<in> set (others c srv). q ! i = CHR ''0'')"
    then show "\<exists>k q. (k, q) \<in> set (pins_of srv) \<and> q ! i = CHR ''0''"
    proof
      assume "p ! i = CHR ''0''"
      moreover have "(c, p) \<in> set (pins_of srv)" by (simp add: c)
      ultimately show ?thesis by blast
    qed (auto simp: others_def)
  qed
  finally show ?thesis by (simp add: l)
qed

text \<open>
  C17.  From the guest through the emulator, the socket protocol and the panel server and back: with
  only open-drain devices on the panel, a 32-bit write to the GPIO data register followed by a
  read of it returns, for every connected pin, 1 exactly when the guest wrote 1 and no other
  client pulls the pin low; the unconnected bits read 1, the read always returns, and the
  device stays connected and consistent with the panel.
\<close>

theorem gpio_write_read_panel:
  assumes "gpio_connected c (panel pms) srv"
  shows "\<exists>v pms1 srv1 pms2 srv2. pci_write_config (panel_ops c) 0x4c val 4 pms srv = (pms1, srv1) \<and>
    pci_read_config (panel_ops c) 0x4c 4 pms1 srv1 = Some (v, pms2, srv2) \<and>
    (\<forall>i < PANEL_PINS. bit v (g_PinMap ! i) \<longleftrightarrow>
       bit val (g_PinMap ! i) \<and> \<not> (\<exists>(k, p) \<in> set (others c srv). p ! i = CHR ''0'')) \<and>
    (\<forall>n < 32. n \<notin> set g_PinMap \<longrightarrow> bit v n) \<and>
    gpio_connected c (panel pms2) srv2 \<and> others c srv2 = others c srv"
proof -
  have s: "socket (panel pms) \<noteq> -1" using assms by (simp add: gpio_connected_def)
  obtain h1 srv1 where w: "bb_pin_write (panel_ops c) val (panel pms) srv = (h1, srv1)"
    "gpio_connected c h1 srv1" "others c srv1 = others c srv"
    "\<forall>i < PANEL_PINS. last_sent h1 ! i = pin_char val i"
    using pin_write_loop_connected [OF assms, of "[0..<PANEL_PINS]" val]
    by (auto simp: bb_pin_write_def simp del: upt_rec_numeral)
  let ?pms1 = "pms\<lparr>panel := h1, cfg_state := mem_write (cfg_state pms) 0x4c (to_le 4 val)\<rparr>"
  obtain v srv2 where r: "bb_pin_read (panel_ops c) h1 srv1 = Some (v, h1, srv2)"
    "gpio_connected c h1 srv2" "pins_of srv2 = pins_of srv1"
    "\<forall>n < 32. bit v n \<longleftrightarrow> \<not> (\<exists>i < PANEL_PINS. pin_state (pins_of srv1) i = CHR ''0'' \<and> g_PinMap ! i = n)"
    using bb_pin_read_connected [OF w(2)] by blast
  have pw: "pci_write_config (panel_ops c) 0x4c val 4 pms srv = (?pms1, srv1)"
    using s w(1) by (simp add: pci_write_config_def)
  have s1: "socket h1 \<noteq> -1" using w(2) by (simp add: gpio_connected_def)
  let ?pms2 = "?pms1\<lparr>cfg_state := mem_write (cfg_state ?pms1) 0x4c (to_le 4 v)\<rparr>"
  have pr: "pci_read_config (panel_ops c) 0x4c 4 ?pms1 srv1 = Some (v, ?pms2, srv2)"
    using s1 r(1) by (simp add: pci_read_config_def of_le_to_le_full)
  have inj: "g_PinMap ! i = g_PinMap ! j \<longleftrightarrow> i = j" if "i < PANEL_PINS" "j < PANEL_PINS" for i j
    using that by (intro nth_eq_iff_index_eq) (simp_all add: g_PinMap_def)
  have lt: "g_PinMap ! i < 32" if "i < PANEL_PINS" for i
    using that by (auto simp: g_PinMap_def less_Suc_eq numeral_eq_Suc)
  have "bit v (g_PinMap ! i) \<longleftrightarrow> bit val (g_PinMap ! i) \<and> \<not> (\<exists>(k, p) \<in> set (others c srv). p ! i = CHR ''0'')"
    if "i < PANEL_PINS" for i
  proof -
    have "bit v (g_PinMap ! i) \<longleftrightarrow> pin_state (pins_of srv1) i \<noteq> CHR ''0''"
      using r(4) lt [OF that] inj that by blast
    then show ?thesis
      using pin_state_zero [OF w(2) that] w(3,4) that by (auto simp: pin_char_def)
  qed
  moreover have "g_PinMap ! i \<in> set g_PinMap" if "i < PANEL_PINS" for i
    using that by (intro nth_mem) (simp add: g_PinMap_def)
  then have "bit v n" if "n < 32" "n \<notin> set g_PinMap" for n
    using r(4) that by blast
  moreover have "others c srv2 = others c srv" using r(3) w(3) by (simp add: others_def)
  ultimately show ?thesis using pw pr r(2) by fastforce
qed

lemma sample_connected:
  "gpio_connected 7 \<lparr>socket = 7, last_sent = ''PPPPPP''\<rparr> sample_panel"
  by (auto simp: gpio_connected_def panel_inv_def quiet_client_def open_drain_def sample_panel_def
      pins_of_def new_channel_def)

theorem gpio_write_read_panel_witness:
  "\<exists>v pms1 srv1 pms2 srv2.
    pci_write_config (panel_ops 7) 0x4c 0xffffffff 4
      \<lparr>panel = \<lparr>socket = 7, last_sent = ''PPPPPP''\<rparr>, cfg_state = \<lambda>_. 0xff\<rparr> sample_panel = (pms1, srv1) \<and>
    pci_read_config (panel_ops 7) 0x4c 4 pms1 srv1 = Some (v, pms2, srv2) \<and> bit v 16 \<and> \<not> bit v 11"
proof -
  let ?p = "\<lparr>panel = \<lparr>socket = 7, last_sent = ''PPPPPP''\<rparr>, cfg_state = \<lambda>_. 0xff\<rparr>"
  obtain v pms1 srv1 pms2 srv2 where
    w: "pci_write_config (panel_ops 7) 0x4c 0xffffffff 4 ?p sample_panel = (pms1, srv1)" and
    r: "pci_read_config (panel_ops 7) 0x4c 4 pms1 srv1 = Some (v, pms2, srv2)" and
    b: "\<forall>i < PANEL_PINS. bit v (g_PinMap ! i) \<longleftrightarrow>
       bit (0xffffffff :: u32) (g_PinMap ! i) \<and> \<not> (\<exists>(k, p) \<in> set (others 7 sample_panel). p ! i = CHR ''0'')"
    using gpio_write_read_panel [of 7 ?p sample_panel "0xffffffff"] sample_connected by auto
  have "bit v 16" using b [rule_format, of 0]
    by (simp add: g_PinMap_def others_def sample_panel_def pins_of_def new_channel_def)
  moreover have "\<not> bit v 11" using b [rule_format, of 2]
    by (simp add: g_PinMap_def others_def sample_panel_def pins_of_def new_channel_def)
  ultimately show ?thesis using w r by blast
qed

lemma panel_write_inv:
  assumes "panel_inv c srv" and "socket h = c" and i: "i < PANEL_PINS"
  shows "\<exists>srv'. panel_write (panel_ops c) i (CHR ''P'') h srv = (h, srv') \<and> panel_inv c srv' \<and>
    pins_of srv' = set_pins c i (CHR ''P'') (pins_of srv)"
proof -
  let ?d = "''W '' @ decimal i @ '' '' @ [CHR ''P'']"
  have v: "CHR ''P'' \<in> set ''0P''" by simp
  obtain srv' where s: "serve_line c ?d srv = Inr srv'" "panel_inv c srv'"
    "pins_of srv' = set_pins c i (CHR ''P'') (pins_of srv)"
    using serve_write [OF assms(1) i v] by blast
  have t: "take (length (?d @ crlf) - 2) (?d @ crlf) = ?d" by (rule take_crlf)
  have "panel_write (panel_ops c) i (CHR ''P'') h srv = (h, srv')"
    using assms(2) s(1) t unfolding panel_write_def panel_command_def panel_ops_def
    by (simp del: length_append)
  with s show ?thesis by blast
qed

lemma init_pins_inv:
  assumes "panel_inv c srv" and "socket h = c" and "\<forall>i \<in> set is. i < PANEL_PINS"
  shows "\<exists>srv'. init_pins (panel_ops c) is (h, srv) =
      (h\<lparr>last_sent := fold (\<lambda>i l. l[i := CHR ''P'']) is (last_sent h)\<rparr>, srv') \<and>
    panel_inv c srv' \<and> pins_of srv' = fold (\<lambda>i. set_pins c i (CHR ''P'')) is (pins_of srv)"
  using assms
proof (induction "is" arbitrary: h srv)
  case (Cons i js)
  obtain srv1 where w: "panel_write (panel_ops c) i (CHR ''P'') h srv = (h, srv1)" "panel_inv c srv1"
    "pins_of srv1 = set_pins c i (CHR ''P'') (pins_of srv)"
    using panel_write_inv [OF Cons.prems(1,2)] Cons.prems(3) by auto
  show ?case
    using Cons.IH [OF w(2), of "h\<lparr>last_sent := (last_sent h)[i := CHR ''P'']\<rparr>"] Cons.prems(2,3) w by auto
qed simp

lemma map_of_fold_set_pins:
  "map_of (fold (\<lambda>i. set_pins c i v) is A) c = map_option (fold (\<lambda>i l. l[i := v]) is) (map_of A c)"
  by (induction "is" arbitrary: A) (auto simp: map_of_set_pins option.map_comp comp_def option.map_id)

text \<open>
  Power-up: initialising the device with a running panel connects it as a new client, drives
  every connected pin as a weak pull-up, leaves the device consistent with the panel, and fills
  the configuration space with the identification of the south bridge (vendor 17f3, device 6030).
\<close>

lemma gpio_init_connects:
  assumes "c \<noteq> -1" and "c \<notin> fst ` set (clients srv)" and "distinct (map fst (clients srv))"
    and "open_drain (pins_of srv)" and "length (last_sent (panel s)) = PANEL_PINS"
  shows "\<exists>s' srv'. rdc_gpio_pci_init (panel_ops c) s srv = (s', srv') \<and> gpio_connected c (panel s') srv' \<and>
    last_sent (panel s') = ''PPPPPP'' \<and>
    (of_le (mem_read (cfg_state s') 0 4) :: u32) = 0x603017f3 \<and> cfg_state s' 0x4c = 0xff"
proof -
  let ?srv1 = "handle_accept 0 c srv"
  let ?h = "(panel s)\<lparr>socket := c\<rparr>"
  have p1: "pins_of ?srv1 = (c, GetDefaultPins) # pins_of srv"
    by (simp add: handle_accept_def pins_of_def new_channel_def)
  have "open_drain (pins_of ?srv1)"
    using assms(4) unfolding p1 by (auto simp: open_drain_def GetDefaultPins_def)
  then have inv: "panel_inv c ?srv1"
    using assms(2,3) by (simp add: panel_inv_def quiet_client_def handle_accept_def new_channel_def image_iff)
  obtain srv' where i: "init_pins (panel_ops c) [0..<PANEL_PINS] (?h, ?srv1) =
      (?h\<lparr>last_sent := fold (\<lambda>i l. l[i := CHR ''P'']) [0..<PANEL_PINS] (last_sent ?h)\<rparr>, srv')"
    "panel_inv c srv'" "pins_of srv' = fold (\<lambda>i. set_pins c i (CHR ''P'')) [0..<PANEL_PINS] (pins_of ?srv1)"
    using init_pins_inv [OF inv, of ?h "[0..<PANEL_PINS]"] by auto
  obtain a0 a1 a2 a3 a4 a5 where l: "last_sent (panel s) = [a0, a1, a2, a3, a4, a5]"
    using assms(5) by (auto simp: numeral_eq_Suc length_Suc_conv)
  have f: "fold (\<lambda>i l. l[i := CHR ''P'']) [0..<PANEL_PINS] (last_sent ?h) = ''PPPPPP''"
    by (simp add: l upt_rec)
  have "map_of (pins_of srv') c = Some ''PPPPPPXX''"
    unfolding i(3) map_of_fold_set_pins p1 by (simp add: GetDefaultPins_def upt_rec numeral_eq_Suc)
  then show ?thesis
    using assms(1) i(1,2) f
    by (simp add: rdc_gpio_pci_init_def panel_open_def panel_ops_def gpio_connected_def southbridge_def
        mem_set_def mem_read_def upt_rec Let_def)
qed




text \<open>
  A byte write to the GPIO data register drives the wrong pins: the value is not shifted to its
  place in the register, so writing 0xff to the byte of pins 8 to 15 stores 0xff there but drives
  every pin that is connected to the panel low.
\<close>

theorem gpio_byte_write_drives_low:
  assumes "gpio_connected c (panel pms) srv"
  shows "\<exists>pms1 srv1. pci_write_config (panel_ops c) 0x4d 0xff 1 pms srv = (pms1, srv1) \<and>
    cfg_state pms1 0x4d = 0xff \<and> gpio_connected c (panel pms1) srv1 \<and> last_sent (panel pms1) = ''000000''"
proof -
  have s: "socket (panel pms) \<noteq> -1" using assms by (simp add: gpio_connected_def)
  obtain h1 srv1 where w: "bb_pin_write (panel_ops c) 0xff (panel pms) srv = (h1, srv1)"
    "gpio_connected c h1 srv1" "\<forall>i < PANEL_PINS. last_sent h1 ! i = pin_char 0xff i"
    using pin_write_loop_connected [OF assms, of "[0..<PANEL_PINS]" "0xff"]
    by (auto simp: bb_pin_write_def simp del: upt_rec_numeral)
  have "last_sent h1 = ''000000''"
  proof (rule nth_equalityI)
    show l: "length (last_sent h1) = length ''000000''" using w(2) by (simp add: gpio_connected_def)
    fix i assume "i < length (last_sent h1)"
    then have i: "i \<in> {0, 1, 2, 3, 4, 5}" using l by auto
    then have "last_sent h1 ! i = pin_char 0xff i" using w(3) by auto
    with i show "last_sent h1 ! i = ''000000'' ! i" by (auto simp: pin_char_def g_PinMap_def)
  qed
  then show ?thesis
    using s w(1,2) by (simp add: pci_write_config_def mem_write_def)
qed

theorem gpio_byte_write_drives_low_witness:
  "\<exists>pms1 srv1. pci_write_config (panel_ops 7) 0x4d 0xff 1
      \<lparr>panel = \<lparr>socket = 7, last_sent = ''PPPPPP''\<rparr>, cfg_state = \<lambda>_. 0\<rparr> sample_panel = (pms1, srv1) \<and>
    cfg_state pms1 0x4d = 0xff \<and> last_sent (panel pms1) = ''000000''"
  using gpio_byte_write_drives_low [of 7 "\<lparr>panel = \<lparr>socket = 7, last_sent = ''PPPPPP''\<rparr>, cfg_state = \<lambda>_. 0\<rparr>" sample_panel]
    sample_connected by auto

end
