(* ===== verification/Lcd.thy ===== *)
theory Lcd
  imports Gpio_Panel
begin

text \<open>
  Two clients of the panel server: the emulated HD44780 display (\<^verbatim>\<open>hd44780.py\<close>, on the \<^verbatim>\<open>Peripheral\<close> of
  \<^verbatim>\<open>panel.py\<close>) and the program that writes text to it (\<^verbatim>\<open>lcdwrite.py\<close>, on the \<^verbatim>\<open>Actor\<close> of \<^verbatim>\<open>panel.py\<close>).
  The writer only sends, so it is the list of the pin changes it makes.  The display receives the
  lines that the server pushed, in order; since it sends nothing after its subscriptions, taking
  them after each change or later makes no difference to the server.  The drawing of the window is
  outside the model: \<open>lcd_text\<close> is what it draws.
\<close>

section \<open>Model\<close>

abbreviation (input) HD_E :: nat where "HD_E \<equiv> 0"
abbreviation (input) HD_RS :: nat where "HD_RS \<equiv> 1"
abbreviation (input) HD_DB4 :: nat where "HD_DB4 \<equiv> 2"
abbreviation (input) HD_DB5 :: nat where "HD_DB5 \<equiv> 3"
abbreviation (input) HD_DB6 :: nat where "HD_DB6 \<equiv> 4"
abbreviation (input) HD_DB7 :: nat where "HD_DB7 \<equiv> 5"

definition pin_map :: "nat list" where
  "pin_map = [HD_E, HD_RS, HD_DB4, HD_DB5, HD_DB6, HD_DB7]"

record PanelEvents =
  prev_E :: char
  prev_cmnd :: "nat list"
  prev_data :: "nat list"
  lcd_init :: bool
  lcd_text :: string
  lcd_cursor :: nat

definition new_PanelEvents :: "string \<Rightarrow> PanelEvents" where
  "new_PanelEvents init_txt = \<lparr>prev_E = CHR ''1'', prev_cmnd = [], prev_data = [], lcd_init = False,
     lcd_text = init_txt, lcd_cursor = 0\<rparr>"

definition lcd_update :: "nat \<Rightarrow> PanelEvents \<Rightarrow> PanelEvents" where
  "lcd_update newchar s =
     (let t = take (lcd_cursor s) (lcd_text s) @ [char_of newchar] @ drop (lcd_cursor s + 1) (lcd_text s);
          c = lcd_cursor s + 1
      in s\<lparr>lcd_text := take 32 t, lcd_cursor := (if c > 31 then 0 else c)\<rparr>)"

text \<open>The rising edge of the clock pin, with the level of RS and the value of the data pins.\<close>

definition lcd_command :: "nat \<Rightarrow> PanelEvents \<Rightarrow> PanelEvents" where
  "lcd_command val s =
     (let cmnd = prev_cmnd s @ [val];
          s1 = (if length cmnd > 1 then
                  (let total = cmnd ! 0 * 16 OR cmnd ! 1;
                       s' = (if total = 0x06
                             then s\<lparr>lcd_init := True, lcd_cursor := 0, lcd_text := replicate 32 (CHR 0x00)\<rparr> else s)
                   in s'\<lparr>prev_cmnd := []\<rparr>)
                else s\<lparr>prev_cmnd := cmnd\<rparr>)
      in s1\<lparr>prev_data := []\<rparr>)"

definition lcd_data :: "nat \<Rightarrow> PanelEvents \<Rightarrow> PanelEvents" where
  "lcd_data val s =
     (let s1 = s\<lparr>prev_cmnd := []\<rparr> in
      if lcd_init s1 then
        (let d = prev_data s1 @ [val] in
         if length d > 1 then
           (let total = d ! 0 * 16 OR d ! 1;
                s2 = (if lcd_init s1 then lcd_update total (s1\<lparr>prev_data := d\<rparr>) else s1\<lparr>prev_data := d\<rparr>)
            in s2\<lparr>prev_data := []\<rparr>)
         else s1\<lparr>prev_data := d\<rparr>)
      else s1)"

definition data_val :: "char list \<Rightarrow> nat" where
  "data_val ps = foldl (\<lambda>v c. v * 2 + (if c \<noteq> CHR ''0'' then 1 else 0)) 0 ps"

definition pins_updated :: "string \<Rightarrow> PanelEvents \<Rightarrow> PanelEvents" where
  "pins_updated states s =
     (let E = states ! 0; RS = states ! 1; val = data_val [states ! 5, states ! 4, states ! 3, states ! 2];
          s1 = (if E \<noteq> CHR ''0'' \<and> prev_E s = CHR ''0''
                then (if RS = CHR ''0'' then lcd_command val s else lcd_data val s) else s)
      in s1\<lparr>prev_E := E\<rparr>)"

text \<open>\<^verbatim>\<open>Peripheral.found_terminator\<close>, for a line of the server.\<close>

definition peripheral_line :: "nat list \<Rightarrow> string \<Rightarrow> PanelEvents \<Rightarrow> PanelEvents" where
  "peripheral_line pinlist data s =
     (if take 2 data = ''R '' then (let pin = drop 2 data in pins_updated (map ((!) pin) pinlist) s) else s)"

text \<open>The lines of the initial handshake of a peripheral.\<close>

definition peripheral_hello :: "nat list \<Rightarrow> string list" where
  "peripheral_hello pinlist = map (\<lambda>i. ''NOTIFY '' @ decimal i) pinlist @ [''R'']"

text \<open>\<^verbatim>\<open>Actor.SetPin\<close>: the line sent for a pin change, if any.\<close>

definition actor_line :: "nat \<Rightarrow> char \<Rightarrow> string option" where
  "actor_line pin val = (if pin < PIN_COUNT then Some (''W '' @ decimal pin @ '' '' @ [val]) else None)"

text \<open>\<^verbatim>\<open>lcdwrite.py\<close>: the pin changes of each operation.\<close>

definition set_value :: "nat \<Rightarrow> nat \<Rightarrow> (nat \<times> char) list" where
  "set_value pin val = [(pin, if val = 0 then CHR ''0'' else CHR ''1'')]"

definition WriteNibble :: "nat \<Rightarrow> (nat \<times> char) list" where
  "WriteNibble val =
     set_value HD_DB4 (val AND 1) @ set_value HD_DB5 ((val AND 2) div 2) @ set_value HD_DB6 ((val AND 4) div 4) @
     set_value HD_DB7 ((val AND 8) div 8) @ set_value HD_E 0 @ set_value HD_E 1"

definition WriteData :: "nat \<Rightarrow> (nat \<times> char) list" where
  "WriteData c = set_value HD_RS 1 @ WriteNibble (c div 16 AND 0x0f) @ WriteNibble (c AND 0x0f)"

definition WriteCommand :: "nat \<Rightarrow> (nat \<times> char) list" where
  "WriteCommand c = set_value HD_RS 0 @ WriteNibble (c div 16 AND 0x0f) @ WriteNibble (c AND 0x0f)"

definition LCD_init :: "(nat \<times> char) list" where
  "LCD_init = WriteNibble 0x03 @ WriteNibble 0x03 @ WriteNibble 0x03 @ WriteNibble 0x02 @
     WriteCommand 0x28 @ WriteCommand 0x0c @ WriteCommand 0x01 @ WriteCommand 0x06"

text \<open>The display takes the complete lines that the server pushed to it.\<close>

fun crlf_lines :: "string \<Rightarrow> string \<Rightarrow> string list" where
  "crlf_lines acc [] = []"
| "crlf_lines acc [c] = []"
| "crlf_lines acc (c # c' # cs) =
     (if c = CHR 0x0D \<and> c' = CHR 0x0A then acc # crlf_lines '''' cs else crlf_lines (acc @ [c]) (c' # cs))"

definition deliver :: "int \<Rightarrow> TerminalBlock \<times> PanelEvents \<Rightarrow> TerminalBlock \<times> PanelEvents" where
  "deliver d sp = (on_client d (\<lambda>ch. ch\<lparr>outbuf := ''''\<rparr>) (fst sp),
     fold (peripheral_line pin_map) (crlf_lines '''' (client_out d (fst sp))) (snd sp))"

definition actor_set ::
  "int \<Rightarrow> int \<Rightarrow> nat \<times> char \<Rightarrow> TerminalBlock \<times> PanelEvents \<Rightarrow> py_error + (TerminalBlock \<times> PanelEvents)" where
  "actor_set d a pv sp =
     (case actor_line (fst pv) (snd pv) of
        None \<Rightarrow> Inr sp
      | Some line \<Rightarrow>
          (case serve_line a line (fst sp) of Inl e \<Rightarrow> Inl e | Inr srv \<Rightarrow> Inr (deliver d (srv, snd sp))))"

fun actor_run ::
  "int \<Rightarrow> int \<Rightarrow> (nat \<times> char) list \<Rightarrow> TerminalBlock \<times> PanelEvents \<Rightarrow> py_error + (TerminalBlock \<times> PanelEvents)" where
  "actor_run d a [] sp = Inr sp"
| "actor_run d a (pv # pvs) sp = (case actor_set d a pv sp of Inl e \<Rightarrow> Inl e | Inr sp1 \<Rightarrow> actor_run d a pvs sp1)"

text \<open>
  A whole session: the display connects and subscribes, the writer connects (at either place in the
  order of the clients), initialises the display and writes a text.
\<close>

fun serve_lines :: "int \<Rightarrow> string list \<Rightarrow> TerminalBlock \<Rightarrow> py_error + TerminalBlock" where
  "serve_lines fd [] srv = Inr srv"
| "serve_lines fd (l # ls) srv = (case serve_line fd l srv of Inl e \<Rightarrow> Inl e | Inr srv1 \<Rightarrow> serve_lines fd ls srv1)"

definition write_text :: "string \<Rightarrow> (nat \<times> char) list" where
  "write_text cs = concat (map (\<lambda>c. WriteData (of_char c)) cs)"

definition lcd_session :: "nat \<Rightarrow> int \<Rightarrow> int \<Rightarrow> string \<Rightarrow> string \<Rightarrow> py_error + (TerminalBlock \<times> PanelEvents)" where
  "lcd_session k d a init_txt cs =
     (case serve_lines d (peripheral_hello pin_map) (handle_accept 0 d new_server) of
        Inl e \<Rightarrow> Inl e
      | Inr srv \<Rightarrow>
          (let (srv1, pe) = deliver d (srv, new_PanelEvents init_txt)
           in actor_run d a (LCD_init @ write_text cs) (handle_accept k a srv1, pe)))"

section \<open>Specification\<close>

text \<open>
  A server with the display \<open>d\<close> and the writer \<open>a\<close> as its clients, in either order, nothing waiting,
  and the writer driving the pins \<open>ps\<close>.
\<close>

definition lcd_connected :: "int \<Rightarrow> int \<Rightarrow> string \<Rightarrow> TerminalBlock \<Rightarrow> bool" where
  "lcd_connected d a ps srv \<longleftrightarrow> d \<noteq> a \<and> length ps = 8 \<and> set ps \<subseteq> set ''10X'' \<and> LastResolve srv = ps \<and>
     (clients srv = [(d, new_channel\<lparr>notify := pin_map\<rparr>), (a, new_channel\<lparr>pins := ps\<rparr>)] \<or>
      clients srv = [(a, new_channel\<lparr>pins := ps\<rparr>), (d, new_channel\<lparr>notify := pin_map\<rparr>)])"

text \<open>What a pin change does to the pins and the display, without the server.\<close>

definition lcd_step :: "nat \<times> char \<Rightarrow> string \<times> PanelEvents \<Rightarrow> string \<times> PanelEvents" where
  "lcd_step pv st =
     (let ps = (fst st)[fst pv := snd pv]
      in (ps, if ps = fst st then snd st else pins_updated (map ((!) ps) pin_map) (snd st)))"

definition lcd_in_step :: "string \<times> PanelEvents \<Rightarrow> bool" where
  "lcd_in_step st \<longleftrightarrow> length (fst st) = 8 \<and> prev_E (snd st) = fst st ! 0"

text \<open>The display of 32 characters after the text: a place shows the last character written to it.\<close>

definition lcd_show :: "string \<Rightarrow> string" where
  "lcd_show cs =
     map (\<lambda>j. if j < length cs then cs ! (j + 32 * ((length cs - 1 - j) div 32)) else CHR 0x00) [0..<32]"

text \<open>One strobe of the clock pin, the effect of a command, and a display that shows a text.\<close>

definition strobe :: "char \<Rightarrow> nat \<Rightarrow> PanelEvents \<Rightarrow> PanelEvents" where
  "strobe rs n pe = (if rs = CHR ''0'' then lcd_command n pe else lcd_data n pe)\<lparr>prev_E := CHR ''1''\<rparr>"

definition lcd_reset :: "nat \<Rightarrow> PanelEvents \<Rightarrow> PanelEvents" where
  "lcd_reset c pe = (if c = 0x06 then pe\<lparr>lcd_init := True, lcd_cursor := 0, lcd_text := replicate 32 (CHR 0x00)\<rparr> else pe)
     \<lparr>prev_cmnd := [], prev_data := [], prev_E := CHR ''1''\<rparr>"

definition lcd_ready :: "string \<Rightarrow> string \<times> PanelEvents \<Rightarrow> bool" where
  "lcd_ready cs st \<longleftrightarrow> lcd_in_step st \<and> lcd_init (snd st) \<and> prev_data (snd st) = [] \<and>
     lcd_cursor (snd st) = length cs mod 32 \<and> lcd_text (snd st) = lcd_show cs"

definition subscribed :: "int \<Rightarrow> string \<Rightarrow> TerminalBlock" where
  "subscribed d out = \<lparr>clients = [(d, new_channel\<lparr>notify := pin_map, outbuf := out\<rparr>)], LastResolve = GetDefaultPins\<rparr>"

section \<open>The server between writer and display\<close>

lemma crlf_lines_one: "CHR 0x0D \<notin> set x \<Longrightarrow> crlf_lines acc (x @ [CHR 0x0D, CHR 0x0A]) = [acc @ x]"
proof (induction x arbitrary: acc)
  case (Cons c x)
  then show ?case by (cases x) auto
qed simp

lemma resolve_two:
  assumes "set ps \<subseteq> set ''10X''" and "length ps = 8"
    and "map (\<lambda>(fd, ch). pins ch) (clients srv) \<in> {[GetDefaultPins, ps], [ps, GetDefaultPins]}"
  shows "resolve_pins srv [0..<PIN_COUNT] = Inr ps"
proof -
  have "ResolvePin srv i = Inr (ps ! i)" if "i < 8" for i
  proof -
    have "ps ! i \<in> set ''10X''" using assms(1) nth_mem [of i ps] assms(2) that by (metis subsetD)
    then have "ps ! i \<in> {CHR ''1'', CHR ''0'', CHR ''X''}" by simp
    moreover have "map (\<lambda>(fd, ch). GetPin ch i) (clients srv) \<in> {[CHR ''X'', ps ! i], [ps ! i, CHR ''X'']}"
    proof -
      have "map (\<lambda>(fd, ch). GetPin ch i) (clients srv) = map (\<lambda>p. p ! i) (map (\<lambda>(fd, ch). pins ch) (clients srv))"
        by (auto simp: GetPin_def)
      then show ?thesis using assms(3) that by (auto simp: GetDefaultPins_def)
    qed
    ultimately show ?thesis unfolding ResolvePin_def
      by (elim insertE emptyE) (simp_all add: ResolveTwo_def PinArbitration_def row_at_def)
  qed
  then have "resolve_pins srv is = Inr (map ((!) ps) is)" if "\<forall>i\<in>set is. i < 8" for "is"
    using that by (induction "is") auto
  from this [of "[0..<length ps]"] show ?thesis using assms(2) map_nth [of ps] by (simp del: upt_rec_numeral)
qed

lemma pin_map_diffs:
  assumes "length ps = 8" and "i < 6" and "ps[i := v] \<noteq> ps"
  shows "list_ex (\<lambda>j. j \<in> set (filter (\<lambda>j. ps[i := v] ! j \<noteq> ps ! j) [0..<length (ps[i := v])])) pin_map"
proof -
  have "ps ! i \<noteq> v" using assms(3) by auto
  moreover have "i \<in> set pin_map" using assms(2) by (auto simp: pin_map_def)
  ultimately show ?thesis using assms(1,2) by (auto simp: list_ex_iff intro!: bexI [of _ i])
qed

lemma actor_set_step:
  assumes c: "lcd_connected d a ps srv" and i: "i < 6" and v: "v \<in> set ''10''"
  shows "\<exists>srv'. actor_set d a (i, v) (srv, pe) = Inr (srv', snd (lcd_step (i, v) (ps, pe))) \<and>
    lcd_connected d a (fst (lcd_step (i, v) (ps, pe))) srv'"
proof -
  let ?l = "''W '' @ decimal i @ '' '' @ [v]"
  let ?ps = "ps[i := v]"
  let ?s1 = "collect_incoming_data a ?l srv"
  let ?s2 = "on_client a (SetPin i v) ?s1"
  have ps: "length ?ps = 8" "set ?ps \<subseteq> set ''10X''"
    using c v set_update_subset_insert [of ps i v] by (auto simp: lcd_connected_def)
  have w: "wmatch ?l = Some (i, v)" using i v by (intro wmatch_print) auto
  have line: "actor_line i v = Some ?l" using i by (simp add: actor_line_def)
  have data: "client_data a ?s1 = ?l"
    by (rule client_data_collect [of _ _ "new_channel\<lparr>pins := ps\<rparr>"]) (use c in \<open>auto simp: lcd_connected_def new_channel_def\<close>)
  have res: "resolve_pins ?s2 [0..<PIN_COUNT] = Inr ?ps"
    by (rule resolve_two [OF ps(2,1)])
      (use c in \<open>auto simp: lcd_connected_def new_channel_def on_client_def collect_incoming_data_def SetPin_def\<close>)
  have last: "LastResolve ?s2 = ps" using c by (auto simp: lcd_connected_def on_client_def collect_incoming_data_def)
  define diffs where "diffs = filter (\<lambda>j. ?ps ! j \<noteq> ps ! j) [0..<length ?ps]"
  define s3 where "s3 = (if ?ps \<noteq> ps then NotifyAll ?ps diffs (?s2\<lparr>LastResolve := ?ps\<rparr>) else ?s2)"
  have R: "Resolve ?s2 = Inr (?ps, s3)" unfolding Resolve_def res last by (simp add: s3_def diffs_def Let_def)
  let ?s4 = "on_client a (\<lambda>ch. ch\<lparr>inbuf := ''''\<rparr>) s3"
  have serve: "serve_line a ?l srv = Inr ?s4"
    unfolding serve_line_def found_terminator_def Let_def data using w R i by simp
  have d: "list_ex (\<lambda>j. j \<in> set diffs) pin_map" if "?ps \<noteq> ps"
    unfolding diffs_def using c i that by (intro pin_map_diffs) (auto simp: lcd_connected_def)
  have out: "client_out d ?s4 = (if ?ps \<noteq> ps then ''R '' @ ?ps @ [CHR 0x0D, CHR 0x0A] else '''')"
    using c d by (auto simp: lcd_connected_def client_out_def s3_def NotifyAll_def NotifyValues_def on_client_def
      collect_incoming_data_def SetPin_def new_channel_def)
  have con: "lcd_connected d a ?ps (on_client d (\<lambda>ch. ch\<lparr>outbuf := ''''\<rparr>) ?s4)"
    using c d ps by (auto simp: lcd_connected_def s3_def NotifyAll_def NotifyValues_def on_client_def
      collect_incoming_data_def SetPin_def new_channel_def)
  have "CHR 0x0D \<notin> set (''R '' @ ?ps)" using ps(2) by auto
  from crlf_lines_one [OF this, of "''''"]
  have "fold (peripheral_line pin_map) (crlf_lines '''' (client_out d ?s4)) pe = snd (lcd_step (i, v) (ps, pe))"
    by (simp add: out lcd_step_def peripheral_line_def Let_def)
  then have "actor_set d a (i, v) (srv, pe) =
      Inr (on_client d (\<lambda>ch. ch\<lparr>outbuf := []\<rparr>) ?s4, snd (lcd_step (i, v) (ps, pe)))"
    unfolding actor_set_def fst_conv snd_conv line option.case serve sum.case deliver_def by simp
  then show ?thesis using con by (simp add: lcd_step_def Let_def)
qed

text \<open>The panel carries the pin changes of the writer to the display, one by one and in order.\<close>

lemma actor_run_steps:
  "lcd_connected d a ps srv \<Longrightarrow> \<forall>(i, v)\<in>set pvs. i < 6 \<and> v \<in> set ''10'' \<Longrightarrow>
     \<exists>srv'. actor_run d a pvs (srv, pe) = Inr (srv', snd (fold lcd_step pvs (ps, pe))) \<and>
       lcd_connected d a (fst (fold lcd_step pvs (ps, pe))) srv'"
proof (induction pvs arbitrary: ps srv pe)
  case (Cons pv pvs)
  obtain i v where pv: "pv = (i, v)" by (cases pv)
  obtain srv1 where s: "actor_set d a (i, v) (srv, pe) = Inr (srv1, snd (lcd_step (i, v) (ps, pe)))"
    "lcd_connected d a (fst (lcd_step (i, v) (ps, pe))) srv1"
    using actor_set_step [OF Cons.prems(1), of i v pe] Cons.prems(2) pv by auto
  show ?case using Cons.IH [OF s(2), of "snd (lcd_step (i, v) (ps, pe))"] Cons.prems(2) by (simp add: pv s(1))
qed simp

section \<open>The display\<close>

lemma lcd_prev_E [simp]:
  "lcd_command n (s\<lparr>prev_E := x\<rparr>) = (lcd_command n s)\<lparr>prev_E := x\<rparr>"
  "lcd_data n (s\<lparr>prev_E := x\<rparr>) = (lcd_data n s)\<lparr>prev_E := x\<rparr>"
  by (simp_all add: lcd_command_def lcd_data_def lcd_update_def Let_def)

lemma lcd_step_quiet:
  assumes "lcd_in_step (ps, pe)" and "0 < i"
  shows "lcd_step (i, v) (ps, pe) = (ps[i := v], pe)"
  using assms by (auto simp: lcd_step_def lcd_in_step_def pins_updated_def pin_map_def Let_def)

lemma lcd_step_low:
  assumes "lcd_in_step (ps, pe)"
  shows "lcd_step (0, CHR ''0'') (ps, pe) = (ps[0 := CHR ''0''], pe\<lparr>prev_E := CHR ''0''\<rparr>)"
proof (cases "ps ! 0 = CHR ''0''")
  case True
  then have "ps[0 := CHR ''0''] = ps" using list_update_id [of ps 0] by simp
  then show ?thesis using assms True by (simp add: lcd_step_def lcd_in_step_def)
next
  case False
  then have "ps[0 := CHR ''0''] \<noteq> ps" using assms by (auto simp: lcd_in_step_def dest: arg_cong [of _ _ "\<lambda>p. p ! 0"])
  then show ?thesis using assms by (simp add: lcd_step_def lcd_in_step_def pins_updated_def pin_map_def Let_def)
qed

lemma data_val_nibble:
  assumes "n < 16"
  shows "data_val [if (n AND 8) div 8 = 0 then CHR ''0'' else CHR ''1'', if (n AND 4) div 4 = 0 then CHR ''0'' else CHR ''1'',
     if (n AND 2) div 2 = 0 then CHR ''0'' else CHR ''1'', if n AND 1 = 0 then CHR ''0'' else CHR ''1''] = n"
proof -
  have "\<forall>n\<in>set [0..<16]. data_val [if (n AND 8) div 8 = 0 then CHR ''0'' else CHR ''1'',
     if (n AND 4) div 4 = 0 then CHR ''0'' else CHR ''1'', if (n AND 2) div 2 = 0 then CHR ''0'' else CHR ''1'',
     if n AND 1 = 0 then CHR ''0'' else CHR ''1''] = n"
    by code_simp
  moreover have "n \<in> set [0..<16]" using assms by (simp del: upt_rec_numeral)
  ultimately show ?thesis by blast
qed

text \<open>A nibble is one strobe of the clock pin with the value on the data pins.\<close>

lemma WriteNibble_strobe:
  assumes "lcd_in_step (ps, pe)" and "n < 16"
  shows "\<exists>ps'. fold lcd_step (WriteNibble n) (ps, pe) = (ps', strobe (ps ! 1) n pe) \<and> length ps' = 8 \<and>
    ps' ! 0 = CHR ''1'' \<and> ps' ! 1 = ps ! 1"
proof -
  let ?b = "\<lambda>x. if x = (0::nat) then CHR ''0'' else CHR ''1''"
  let ?ps = "ps[2 := ?b (n AND 1), 3 := ?b ((n AND 2) div 2), 4 := ?b ((n AND 4) div 4), 5 := ?b ((n AND 8) div 8)]"
  have l: "length ps = 8" using assms(1) by (simp add: lcd_in_step_def)
  have inv: "lcd_in_step (qs[i := v], pe)" if "lcd_in_step (qs, pe)" "0 < i" for qs i v
    using that by (simp add: lcd_in_step_def)
  have four: "fold lcd_step (set_value 2 (n AND 1) @ set_value 3 ((n AND 2) div 2) @ set_value 4 ((n AND 4) div 4) @
      set_value 5 ((n AND 8) div 8)) (ps, pe) = (?ps, pe)" "lcd_in_step (?ps, pe)"
    using assms(1) by (simp_all add: set_value_def lcd_step_quiet inv del: One_nat_def)
  have "?ps[0 := CHR ''0'', 0 := CHR ''1''] \<noteq> ?ps[0 := CHR ''0'']"
    using l by (auto dest: arg_cong [of _ _ "\<lambda>p. p ! 0"])
  then have "lcd_step (0, CHR ''1'') (?ps[0 := CHR ''0''], pe\<lparr>prev_E := CHR ''0''\<rparr>) =
      (?ps[0 := CHR ''1''], strobe (ps ! 1) n pe)"
    using l data_val_nibble [OF assms(2)]
    by (simp add: lcd_step_def pins_updated_def pin_map_def strobe_def Let_def del: One_nat_def)
  then have "fold lcd_step (WriteNibble n) (ps, pe) = (?ps[0 := CHR ''1''], strobe (ps ! 1) n pe)"
    using four lcd_step_low [OF four(2)] by (simp add: WriteNibble_def set_value_def)
  then show ?thesis using l by simp
qed

lemma lcd_in_step_strobe:
  "length ps = 8 \<Longrightarrow> ps ! 0 = CHR ''1'' \<Longrightarrow> lcd_in_step (ps, strobe rs n pe)"
  by (simp add: lcd_in_step_def strobe_def)

lemma nibble_bound: "x AND 0x0f < (16::nat)"
  using take_bit_nat_less_exp [of 4 x] by (simp add: take_bit_eq_mask mask_numeral)

lemma write_byte:
  assumes "lcd_in_step (ps, pe)"
  shows "\<exists>ps'. fold lcd_step ((1, rs) # WriteNibble (c div 16 AND 0x0f) @ WriteNibble (c AND 0x0f)) (ps, pe) =
      (ps', strobe rs (c AND 0x0f) (strobe rs (c div 16 AND 0x0f) pe)) \<and> length ps' = 8 \<and> ps' ! 0 = CHR ''1''"
proof -
  have r: "lcd_step (1, rs) (ps, pe) = (ps[1 := rs], pe)" "lcd_in_step (ps[1 := rs], pe)" "ps[1 := rs] ! 1 = rs"
    using assms lcd_step_quiet [OF assms, of 1 rs] by (simp_all add: lcd_in_step_def)
  obtain ps1 where p1: "fold lcd_step (WriteNibble (c div 16 AND 0x0f)) (ps[1 := rs], pe) = (ps1, strobe rs (c div 16 AND 0x0f) pe)"
    "length ps1 = 8" "ps1 ! 0 = CHR ''1''" "ps1 ! 1 = rs"
    using WriteNibble_strobe [OF r(2) nibble_bound] r(3) by metis
  obtain ps2 where "fold lcd_step (WriteNibble (c AND 0x0f)) (ps1, strobe rs (c div 16 AND 0x0f) pe) =
      (ps2, strobe rs (c AND 0x0f) (strobe rs (c div 16 AND 0x0f) pe))" "length ps2 = 8" "ps2 ! 0 = CHR ''1''"
    using WriteNibble_strobe [OF lcd_in_step_strobe [OF p1(2,3)] nibble_bound] p1(4) by metis
  then show ?thesis using r(1) p1(1) by (simp del: One_nat_def)
qed

lemma byte_of_nibbles:
  assumes "c < 256"
  shows "(c div 16 AND 0x0f) * 16 OR (c AND 0x0f) = (c::nat)"
proof -
  have n: "x AND 0x0f = take_bit 4 x" for x :: nat by (simp add: take_bit_eq_mask mask_numeral)
  have "(c div 16 AND 0x0f) * 16 OR (c AND 0x0f) = push_bit 4 (take_bit 4 (drop_bit 4 c)) OR take_bit 4 c"
    by (simp add: n push_bit_eq_mult drop_bit_eq_div)
  also have "\<dots> = take_bit 8 c" by (rule bit_eqI) (auto simp: bit_simps)
  finally show ?thesis using assms by (simp add: take_bit_nat_eq_self)
qed

lemma WriteCommand_effect:
  assumes "lcd_in_step (ps, pe)" and "prev_cmnd pe = []" and "c < 256"
  shows "\<exists>ps'. fold lcd_step (WriteCommand c) (ps, pe) = (ps', lcd_reset c pe) \<and> lcd_in_step (ps', lcd_reset c pe)"
proof -
  have "strobe (CHR ''0'') (c AND 0x0f) (strobe (CHR ''0'') (c div 16 AND 0x0f) pe) = lcd_reset c pe"
    using assms(2) byte_of_nibbles [OF assms(3)]
    by (simp add: strobe_def lcd_command_def lcd_reset_def Let_def del: One_nat_def)
  then show ?thesis using write_byte [OF assms(1), of "CHR ''0''" c]
    by (auto simp: WriteCommand_def set_value_def lcd_in_step_def lcd_reset_def)
qed

lemma WriteData_effect:
  assumes "lcd_in_step (ps, pe)" and "lcd_init pe" and "prev_data pe = []" and "c < 256"
  defines "pe' \<equiv> (lcd_update c pe)\<lparr>prev_cmnd := [], prev_data := [], prev_E := CHR ''1''\<rparr>"
  shows "\<exists>ps'. fold lcd_step (WriteData c) (ps, pe) = (ps', pe') \<and> lcd_in_step (ps', pe')"
proof -
  have "strobe (CHR ''1'') (c AND 0x0f) (strobe (CHR ''1'') (c div 16 AND 0x0f) pe) = pe'"
    using assms(2,3) byte_of_nibbles [OF assms(4)]
    by (simp add: strobe_def lcd_data_def lcd_update_def pe'_def Let_def del: One_nat_def)
  then show ?thesis using write_byte [OF assms(1), of "CHR ''1''" c]
    by (auto simp: WriteData_def set_value_def lcd_in_step_def pe'_def)
qed

section \<open>A session\<close>

lemma lcd_show_snoc: "lcd_show (cs @ [c]) = (lcd_show cs)[length cs mod 32 := c]"
proof (rule nth_equalityI)
  fix j assume "j < length (lcd_show (cs @ [c]))"
  then have j: "j < 32" by (simp add: lcd_show_def)
  let ?n = "length cs"
  show "lcd_show (cs @ [c]) ! j = (lcd_show cs)[?n mod 32 := c] ! j"
  proof (cases "j = ?n mod 32")
    case True
    then have "j \<le> ?n" "j + 32 * ((?n - j) div 32) = ?n" using div_mult_mod_eq [of ?n 32] by auto
    then show ?thesis using j True by (simp add: lcd_show_def less_Suc_eq_le)
  next
    case False
    have "(?n - j) div 32 = (?n - 1 - j) div 32" "j + 32 * ((?n - 1 - j) div 32) < ?n" if "j < ?n"
    proof -
      have n: "?n = j + Suc (?n - 1 - j)" using that by simp
      have "Suc (?n - 1 - j) mod 32 \<noteq> 0" 
        using False j mod_add_right_eq [of j "Suc (?n - 1 - j)" 32] n by (metis add.right_neutral mod_less)
      then have "Suc (?n - 1 - j) div 32 = (?n - 1 - j) div 32" by (simp add: div_Suc)
      then show "(?n - j) div 32 = (?n - 1 - j) div 32" using that by (simp add: Suc_diff_Suc)
      have "32 * ((?n - 1 - j) div 32) \<le> ?n - 1 - j" by (rule times_div_less_eq_dividend)
      then show "j + 32 * ((?n - 1 - j) div 32) < ?n" using that by linarith
    qed
    moreover have "\<not> j < Suc ?n" if "\<not> j < ?n" using False j that by (cases "j = ?n") auto
    ultimately show ?thesis using j False by (simp add: lcd_show_def nth_append)
  qed
qed (simp add: lcd_show_def)

lemma length_lcd_show [simp]: "length (lcd_show cs) = 32"
  by (simp add: lcd_show_def)

lemma write_char_ready:
  assumes "lcd_ready cs st"
  shows "lcd_ready (cs @ [c]) (fold lcd_step (WriteData (of_char c)) st)"
proof -
  obtain ps pe where st: "st = (ps, pe)" by (cases st)
  let ?k = "length cs mod 32"
  let ?pe = "(lcd_update (of_char c) pe)\<lparr>prev_cmnd := [], prev_data := [], prev_E := CHR ''1''\<rparr>"
  have r: "lcd_in_step (ps, pe)" "lcd_init pe" "prev_data pe = []" "lcd_cursor pe = ?k" "lcd_text pe = lcd_show cs"
    using assms by (auto simp: lcd_ready_def st)
  have "of_char c < (256 :: nat)" using nat_of_char_less_256 [of c] by simp
  then obtain ps' where w: "fold lcd_step (WriteData (of_char c)) (ps, pe) = (ps', ?pe)" "lcd_in_step (ps', ?pe)"
    using WriteData_effect [OF r(1-3)] by blast
  have "lcd_text ?pe = (lcd_show cs)[?k := c]"
    by (simp add: lcd_update_def r(4,5) Let_def upd_conv_take_nth_drop)
  moreover have "lcd_cursor ?pe = Suc (length cs) mod 32"
    using mod_less_divisor [of 32 "length cs"] by (auto simp: lcd_update_def r(4) Let_def mod_Suc)
  moreover have "lcd_init ?pe" by (simp add: lcd_update_def r(2) Let_def)
  ultimately show ?thesis using w by (simp add: lcd_ready_def st lcd_show_snoc)
qed

lemma write_text_ready: "lcd_ready [] st \<Longrightarrow> lcd_ready cs (fold lcd_step (write_text cs) st)"
proof (induction cs rule: rev_induct)
  case (snoc c cs)
  then show ?case using write_char_ready [of cs "fold lcd_step (write_text cs) st" c] by (simp add: write_text_def)
qed (simp add: write_text_def)

lemma data_nibble:
  assumes "lcd_in_step (ps, pe)" and "ps ! 1 = CHR ''X''" and "n < 16"
  shows "\<exists>ps' pe'. fold lcd_step (WriteNibble n) (ps, pe) = (ps', pe') \<and> lcd_in_step (ps', pe') \<and>
    ps' ! 1 = CHR ''X'' \<and> prev_cmnd pe' = []"
proof -
  have "prev_cmnd (strobe (CHR ''X'') n pe) = []"
    by (simp add: strobe_def lcd_data_def lcd_update_def Let_def)
  then show ?thesis using WriteNibble_strobe [OF assms(1,3)] assms(2) lcd_in_step_strobe by metis
qed

text \<open>
  Whatever the display did before, the initialisation of a writer that has not driven the register
  select pin clears it: the four single nibbles count as data and drop half a command.
\<close>

lemma LCD_init_ready:
  assumes "lcd_in_step (ps, pe)" and "ps ! 1 = CHR ''X''"
  shows "lcd_ready [] (fold lcd_step LCD_init (ps, pe))"
proof -
  obtain ps1 pe1 where 1: "fold lcd_step (WriteNibble 3) (ps, pe) = (ps1, pe1)" "lcd_in_step (ps1, pe1)" "ps1 ! 1 = CHR ''X''"
    using data_nibble [OF assms, of 3] by auto
  obtain ps2 pe2 where 2: "fold lcd_step (WriteNibble 3) (ps1, pe1) = (ps2, pe2)" "lcd_in_step (ps2, pe2)" "ps2 ! 1 = CHR ''X''"
    using data_nibble [OF 1(2,3), of 3] by auto
  obtain ps3 pe3 where 3: "fold lcd_step (WriteNibble 3) (ps2, pe2) = (ps3, pe3)" "lcd_in_step (ps3, pe3)" "ps3 ! 1 = CHR ''X''"
    using data_nibble [OF 2(2,3), of 3] by auto
  obtain ps4 pe4 where 4: "fold lcd_step (WriteNibble 2) (ps3, pe3) = (ps4, pe4)" "lcd_in_step (ps4, pe4)" "prev_cmnd pe4 = []"
    using data_nibble [OF 3(2,3), of 2] by auto
  have e: "prev_cmnd (lcd_reset c pe') = []" for c pe' by (simp add: lcd_reset_def)
  obtain ps5 where 5: "fold lcd_step (WriteCommand 0x28) (ps4, pe4) = (ps5, lcd_reset 0x28 pe4)" "lcd_in_step (ps5, lcd_reset 0x28 pe4)"
    using WriteCommand_effect [OF 4(2,3), of "0x28"] by auto
  obtain ps6 pe6 where 6: "fold lcd_step (WriteCommand 0x0c) (ps5, lcd_reset 0x28 pe4) = (ps6, pe6)" "lcd_in_step (ps6, pe6)" "prev_cmnd pe6 = []"
    using WriteCommand_effect [OF 5(2) e, of "0x0c"] e by auto
  obtain ps7 pe7 where 7: "fold lcd_step (WriteCommand 0x01) (ps6, pe6) = (ps7, pe7)" "lcd_in_step (ps7, pe7)" "prev_cmnd pe7 = []"
    using WriteCommand_effect [OF 6(2,3), of "0x01"] e by auto
  obtain ps8 where 8: "fold lcd_step (WriteCommand 0x06) (ps7, pe7) = (ps8, lcd_reset 0x06 pe7)" "lcd_in_step (ps8, lcd_reset 0x06 pe7)"
    using WriteCommand_effect [OF 7(2,3), of "0x06"] by auto
  have "fold lcd_step LCD_init (ps, pe) = (ps8, lcd_reset 0x06 pe7)"
    by (simp only: LCD_init_def fold_append comp_def 1(1) 2(1) 3(1) 4(1) 5(1) 6(1) 7(1) 8(1))
  then show ?thesis using 8(2) by (simp add: lcd_ready_def lcd_reset_def lcd_show_def map_replicate_const flip: replicate_append_same)
qed

lemma writer_pins: "\<forall>(i, v)\<in>set (LCD_init @ write_text cs). i < 6 \<and> v \<in> set ''10''"
proof -
  have n: "\<forall>(i, v)\<in>set (WriteNibble n). i < 6 \<and> v \<in> set ''10''" for n
    by (simp add: WriteNibble_def set_value_def)
  have "\<forall>(i, v)\<in>set (WriteData c). i < 6 \<and> v \<in> set ''10''" "\<forall>(i, v)\<in>set (WriteCommand c). i < 6 \<and> v \<in> set ''10''" for c
    using n by (simp_all add: WriteData_def WriteCommand_def set_value_def ball_Un)
  then show ?thesis using n by (simp add: LCD_init_def write_text_def ball_Un)
qed

lemma serve_subscribe:
  assumes "i < 6" and "clients srv = [(d, new_channel\<lparr>notify := ns\<rparr>)]"
  shows "serve_line d (''NOTIFY '' @ decimal i) srv = Inr (srv\<lparr>clients := [(d, new_channel\<lparr>notify := ns @ [i]\<rparr>)]\<rparr>)"
proof -
  have "nmatch (''NOTIFY '' @ decimal i) = Some i"
  proof -
    have "i \<in> {0, 1, 2, 3, 4, 5}" using assms(1) by auto
    then show ?thesis by (elim insertE emptyE)
      (simp_all add: nmatch_def decimal.simps is_digit_def int_of_digits_def digit_val_def char_of_def bit_0)
  qed
  then show ?thesis using assms
    by (simp add: serve_line_def found_terminator_def client_data_def collect_incoming_data_def on_client_def new_channel_def Let_def)
qed

lemma serve_hello:
  "serve_lines d (peripheral_hello pin_map) (handle_accept 0 d new_server) =
     Inr (subscribed d (''R '' @ GetDefaultPins @ [CHR 0x0D, CHR 0x0A]))"
proof -
  let ?srv = "\<lambda>ns. \<lparr>clients = [(d, new_channel\<lparr>notify := ns\<rparr>)], LastResolve = GetDefaultPins\<rparr>"
  have a: "handle_accept 0 d new_server = ?srv []" by (simp add: handle_accept_def new_server_def new_channel_def)
  have n: "serve_line d (''NOTIFY '' @ decimal i) (?srv ns) = Inr (?srv (ns @ [i]))" if "i < 6" for i ns
    using serve_subscribe [OF that, of "?srv ns" d ns] by simp
  have r: "serve_line d ''R'' (?srv pin_map) = Inr (subscribed d (''R '' @ GetDefaultPins @ [CHR 0x0D, CHR 0x0A]))"
    by (simp add: serve_line_def found_terminator_def client_data_def collect_incoming_data_def on_client_def new_channel_def
      Resolve_def ResolvePin_def GetPin_def GetDefaultPins_def NotifyValues_def subscribed_def Let_def numeral_eq_Suc)
  have "serve_lines d (map (\<lambda>i. ''NOTIFY '' @ decimal i) is @ ls) (?srv ns) = serve_lines d ls (?srv (ns @ is))"
    if "\<forall>i\<in>set is. i < 6" for "is" ns ls
    using that
  proof (induction "is" arbitrary: ns)
    case (Cons i "is")
    then show ?case using n [of i ns] by simp
  qed simp
  from this [of pin_map "[''R'']" "[]"] show ?thesis unfolding a peripheral_hello_def using r by (simp add: pin_map_def)
qed

lemma session_start:
  assumes "d \<noteq> a"
  shows "\<exists>srv1 pe. deliver d (subscribed d (''R '' @ GetDefaultPins @ [CHR 0x0D, CHR 0x0A]), new_PanelEvents init_txt) = (srv1, pe) \<and>
    lcd_connected d a GetDefaultPins (handle_accept k a srv1) \<and> lcd_in_step (GetDefaultPins, pe)"
proof -
  let ?x = "''R '' @ GetDefaultPins"
  have "crlf_lines [] (?x @ [CHR 0x0D, CHR 0x0A]) = [?x]"
    using crlf_lines_one [of ?x "[]"] by (simp add: GetDefaultPins_def)
  moreover have "lcd_connected d a GetDefaultPins (handle_accept k a
      \<lparr>clients = [(d, new_channel\<lparr>notify := pin_map\<rparr>)], LastResolve = GetDefaultPins\<rparr>)"
    using assms by (cases k) (auto simp: lcd_connected_def handle_accept_def new_channel_def GetDefaultPins_def)
  moreover have "lcd_in_step (GetDefaultPins, peripheral_line pin_map ?x pe)" for pe
    by (simp add: lcd_in_step_def peripheral_line_def pins_updated_def pin_map_def GetDefaultPins_def Let_def)
  ultimately show ?thesis
    by (simp add: deliver_def subscribed_def client_out_def on_client_def new_channel_def)
qed

lemma lcd_show_short: "length cs \<le> 32 \<Longrightarrow> lcd_show cs = cs @ replicate (32 - length cs) (CHR 0x00)"
  by (rule nth_equalityI) (auto simp: lcd_show_def nth_append)

text \<open>
  C31.  The text that the writer sends through the panel is what the display shows: when the display
  has connected and subscribed, a writer that connects, initialises it and writes any text never
  makes the server raise an exception, and every one of the 32 places then shows the last character
  written to it, or nothing.  A text of up to 32 characters is shown as it is.
\<close>

theorem lcd_text_shown:
  assumes "d \<noteq> a"
  shows "\<exists>srv pe. lcd_session k d a init_txt cs = Inr (srv, pe) \<and> lcd_text pe = lcd_show cs \<and>
    (length cs \<le> 32 \<longrightarrow> lcd_text pe = cs @ replicate (32 - length cs) (CHR 0x00))"
proof -
  obtain srv1 pe where s: "deliver d (subscribed d (''R '' @ GetDefaultPins @ [CHR 0x0D, CHR 0x0A]), new_PanelEvents init_txt) = (srv1, pe)"
    "lcd_connected d a GetDefaultPins (handle_accept k a srv1)" "lcd_in_step (GetDefaultPins, pe)"
    using session_start [OF assms] by blast
  let ?st = "fold lcd_step (LCD_init @ write_text cs) (GetDefaultPins, pe)"
  have "lcd_ready cs ?st"
    using write_text_ready [OF LCD_init_ready [OF s(3)], of cs] by (simp add: GetDefaultPins_def)
  then have "lcd_text (snd ?st) = lcd_show cs" by (simp add: lcd_ready_def)
  moreover obtain srv where "actor_run d a (LCD_init @ write_text cs) (handle_accept k a srv1, pe) = Inr (srv, snd ?st)"
    using actor_run_steps [OF s(2) writer_pins, of cs pe] by blast
  ultimately show ?thesis
    by (simp add: lcd_session_def serve_hello s(1) lcd_show_short del: append.simps append_assoc)
qed

theorem lcd_text_shown_witness:
  "\<exists>srv pe. lcd_session 1 4 5 [] ''Hello world!'' = Inr (srv, pe) \<and>
     lcd_text pe = ''Hello world!'' @ replicate 20 (CHR 0x00)"
  using lcd_text_shown [of 4 5 1 "[]" "''Hello world!''"] by auto

end
