(* ===== verification/Net_Queue.thy ===== *)
theory Net_Queue
  imports Prelude
begin

text \<open>
  The packet queue between network clients (\<^verbatim>\<open>net/queue.c\<close>).  A client and a sent callback are
  numbers; the environment holds the delivery handlers of the queue and the callbacks, which may
  do anything to the queue (a receiver may send while a packet is being delivered) and to the
  world \<open>'w\<close>.  The flush loop runs until the queue is empty or a delivery is refused: \<open>None\<close> is a
  flush that never ends.
\<close>

section \<open>Model\<close>

record NetPacket =
  sender :: nat
  flags :: u32
  data :: "u8 list"
  sent_cb :: "nat option"

record 'w NetQueue =
  packets :: "NetPacket list"
  delivering :: bool
  net_world :: 'w

record 'w net_env =
  deliver :: "nat \<Rightarrow> u32 \<Rightarrow> u8 list \<Rightarrow> 'w NetQueue \<Rightarrow> int \<times> 'w NetQueue"
  deliver_iov :: "nat \<Rightarrow> u32 \<Rightarrow> u8 list list \<Rightarrow> 'w NetQueue \<Rightarrow> int \<times> 'w NetQueue"
  callback :: "nat \<Rightarrow> nat \<Rightarrow> int \<Rightarrow> 'w NetQueue \<Rightarrow> 'w NetQueue"



definition qemu_net_queue_append_iov ::
  "nat \<Rightarrow> u32 \<Rightarrow> u8 list list \<Rightarrow> nat option \<Rightarrow> 'w NetQueue \<Rightarrow> int \<times> 'w NetQueue" where
  "qemu_net_queue_append_iov sn fl iov cb q =
     (let d = foldl (\<lambda>acc v. acc @ v) [] iov
      in (int (length d), q\<lparr>packets := packets q @ [\<lparr>sender = sn, flags = fl, data = d, sent_cb = cb\<rparr>]\<rparr>))"

definition qemu_net_queue_deliver ::
  "'w net_env \<Rightarrow> nat \<Rightarrow> u32 \<Rightarrow> u8 list \<Rightarrow> 'w NetQueue \<Rightarrow> int \<times> 'w NetQueue" where
  "qemu_net_queue_deliver E sn fl d q =
     (let (ret, q1) = deliver E sn fl d (q\<lparr>delivering := True\<rparr>) in (ret, q1\<lparr>delivering := False\<rparr>))"

definition qemu_net_queue_deliver_iov ::
  "'w net_env \<Rightarrow> nat \<Rightarrow> u32 \<Rightarrow> u8 list list \<Rightarrow> 'w NetQueue \<Rightarrow> int \<times> 'w NetQueue" where
  "qemu_net_queue_deliver_iov E sn fl iov q =
     (let (ret, q1) = deliver_iov E sn fl iov (q\<lparr>delivering := True\<rparr>) in (ret, q1\<lparr>delivering := False\<rparr>))"

partial_function (option) qemu_net_queue_flush :: "'w net_env \<Rightarrow> 'w NetQueue \<Rightarrow> 'w NetQueue option" where
  "qemu_net_queue_flush E q =
     (case packets q of
        [] \<Rightarrow> Some q
      | packet # rest \<Rightarrow>
          (let (ret, q1) = qemu_net_queue_deliver E (sender packet) (flags packet) (data packet) (q\<lparr>packets := rest\<rparr>)
           in if ret = 0 then Some (q1\<lparr>packets := packet # packets q1\<rparr>)
              else qemu_net_queue_flush E
                (case sent_cb packet of None \<Rightarrow> q1 | Some cb \<Rightarrow> callback E cb (sender packet) ret q1)))"


definition qemu_net_queue_send_iov ::
  "'w net_env \<Rightarrow> nat \<Rightarrow> u32 \<Rightarrow> u8 list list \<Rightarrow> nat option \<Rightarrow> 'w NetQueue \<Rightarrow> (int \<times> 'w NetQueue) option" where
  "qemu_net_queue_send_iov E sn fl iov cb q =
     (if delivering q then Some (qemu_net_queue_append_iov sn fl iov None q)
      else
        (let (ret, q1) = qemu_net_queue_deliver_iov E sn fl iov q in
         if ret = 0 then Some (0, snd (qemu_net_queue_append_iov sn fl iov cb q1))
         else map_option (\<lambda>q2. (ret, q2)) (qemu_net_queue_flush E q1)))"

definition qemu_net_queue_purge :: "nat \<Rightarrow> 'w NetQueue \<Rightarrow> 'w NetQueue" where
  "qemu_net_queue_purge from_id q = q\<lparr>packets := filter (\<lambda>p. sender p \<noteq> from_id) (packets q)\<rparr>"

section \<open>Specification\<close>

text \<open>
  Handlers that do not call back into the queue: the result of a delivery and its effect on the
  world, and the effect of the sent callbacks.
\<close>

definition simple_net ::
  "'w net_env \<Rightarrow> (NetPacket \<Rightarrow> 'w \<Rightarrow> int) \<Rightarrow> (NetPacket \<Rightarrow> 'w \<Rightarrow> 'w) \<Rightarrow> (nat \<Rightarrow> nat \<Rightarrow> int \<Rightarrow> 'w \<Rightarrow> 'w) \<Rightarrow> bool" where
  "simple_net E res eff cbf \<longleftrightarrow>
     (\<forall>p q. deliver E (sender p) (flags p) (data p) q = (res p (net_world q), q\<lparr>net_world := eff p (net_world q)\<rparr>)) \<and>
     (\<forall>cb sn r q. callback E cb sn r q = q\<lparr>net_world := cbf cb sn r (net_world q)\<rparr>)"

definition sent_effect ::
  "(NetPacket \<Rightarrow> 'w \<Rightarrow> int) \<Rightarrow> (NetPacket \<Rightarrow> 'w \<Rightarrow> 'w) \<Rightarrow> (nat \<Rightarrow> nat \<Rightarrow> int \<Rightarrow> 'w \<Rightarrow> 'w) \<Rightarrow> NetPacket \<Rightarrow> 'w \<Rightarrow> 'w" where
  "sent_effect res eff cbf p w =
     (case sent_cb p of None \<Rightarrow> eff p w | Some cb \<Rightarrow> cbf cb (sender p) (res p w) (eff p w))"

section \<open>Properties\<close>

lemma flush_step:
  assumes "simple_net E res eff cbf" and "packets q = p # ps" and "\<not> delivering q"
  shows "qemu_net_queue_flush E q =
    (if res p (net_world q) = 0 then Some (q\<lparr>net_world := eff p (net_world q)\<rparr>)
     else qemu_net_queue_flush E (q\<lparr>packets := ps, net_world := sent_effect res eff cbf p (net_world q)\<rparr>))"
  using assms
  by (cases q, subst qemu_net_queue_flush.simps)
     (auto simp: qemu_net_queue_deliver_def simple_net_def sent_effect_def split: option.split)

text \<open>
  With handlers that do not call back into the queue, a flush terminates, delivers the packets
  in the order they were queued, each exactly once and with its callback run before the next
  one, stops at the first packet the receiver refuses, and leaves that packet and everything
  behind it in the queue in the same order.
\<close>

theorem net_queue_flush_fifo:
  assumes "simple_net E res eff cbf" and "\<not> delivering q"
  shows "\<exists>k q'. qemu_net_queue_flush E q = Some q' \<and> k \<le> length (packets q) \<and>
    packets q' = drop k (packets q) \<and> \<not> delivering q' \<and>
    (let w = \<lambda>i. fold (sent_effect res eff cbf) (take i (packets q)) (net_world q) in
     (\<forall>i < k. res (packets q ! i) (w i) \<noteq> 0) \<and>
     (if k < length (packets q) then res (packets q ! k) (w k) = 0 \<and> net_world q' = eff (packets q ! k) (w k)
      else net_world q' = w k))"
  using assms(2)
proof (induction "packets q" arbitrary: q)
  case Nil
  then show ?case by (subst qemu_net_queue_flush.simps) (auto intro!: exI [of _ 0] exI [of _ q])
next
  case (Cons p ps)
  note step = flush_step [OF assms(1) Cons.hyps(2) [symmetric] Cons.prems]
  show ?case
  proof (cases "res p (net_world q) = 0")
    case True
    then show ?thesis unfolding step Cons.hyps(2) [symmetric] using Cons.prems Cons.hyps(2) [symmetric]
      by (auto intro!: exI [of _ 0])
  next
    case False
    let ?q = "q\<lparr>packets := ps, net_world := sent_effect res eff cbf p (net_world q)\<rparr>"
    have "ps = packets ?q" by simp
    from Cons.hyps(1) [OF this] Cons.prems obtain k q' where
      IH: "qemu_net_queue_flush E ?q = Some q'" "k \<le> length ps" "packets q' = drop k ps" "\<not> delivering q'"
        "\<forall>i < k. res (ps ! i) (fold (sent_effect res eff cbf) (take i ps) (net_world ?q)) \<noteq> 0"
        "if k < length ps then res (ps ! k) (fold (sent_effect res eff cbf) (take k ps) (net_world ?q)) = 0 \<and>
            net_world q' = eff (ps ! k) (fold (sent_effect res eff cbf) (take k ps) (net_world ?q))
         else net_world q' = fold (sent_effect res eff cbf) (take k ps) (net_world ?q)"
      by (auto simp: Let_def cong: if_cong)
    have "\<forall>i < Suc k. res ((p # ps) ! i) (fold (sent_effect res eff cbf) (take i (p # ps)) (net_world q)) \<noteq> 0"
      using IH(5) False by (auto simp: less_Suc_eq_0_disj)
    then show ?thesis
      unfolding step Cons.hyps(2) [symmetric] using False IH
      by (intro exI [of _ "Suc k"] exI [of _ q']) (simp cong: if_cong)
  qed
qed

definition log_net :: "NetPacket list net_env" where
  "log_net = \<lparr>deliver = \<lambda>sn fl d q. (if length (net_world q) < 2 then int (length d) else 0,
       if length (net_world q) < 2 then q\<lparr>net_world := net_world q @ [\<lparr>sender = sn, flags = fl, data = d, sent_cb = None\<rparr>]\<rparr> else q),
     deliver_iov = \<lambda>sn fl iov q. (0, q), callback = \<lambda>cb sn r q. q\<rparr>"

theorem net_queue_flush_fifo_witness:
  "\<exists>q'. qemu_net_queue_flush log_net
     \<lparr>packets = map (\<lambda>i. \<lparr>sender = i, flags = 0, data = [1], sent_cb = None\<rparr>) [0..<5], delivering = False,
      net_world = []\<rparr> = Some q' \<and> \<not> delivering q'"
proof -
  have "simple_net log_net (\<lambda>p w. if length w < 2 then int (length (data p)) else 0)
      (\<lambda>p w. if length w < 2 then w @ [p\<lparr>sent_cb := None\<rparr>] else w) (\<lambda>cb sn r w. w)"
    by (auto simp: simple_net_def log_net_def)
  from net_queue_flush_fifo [OF this, of "\<lparr>packets = map (\<lambda>i. \<lparr>sender = i, flags = 0, data = [1], sent_cb = None\<rparr>) [0..<5],
      delivering = False, net_world = []\<rparr>"]
  show ?thesis by (auto simp del: upt_rec_numeral)
qed



end
