(* ===== verification/Fifo.thy ===== *)
theory Fifo
  imports Prelude
begin

text \<open>
  The contract of a bounded first-in first-out queue, and the ring buffers that the devices
  implement it with.  \<open>ring_list N d t c\<close> is the content of a ring of \<open>N\<close> cells with tail \<open>t\<close> and
  \<open>c\<close> elements.
\<close>

definition ring_list :: "nat \<Rightarrow> (nat \<Rightarrow> 'a) \<Rightarrow> nat \<Rightarrow> nat \<Rightarrow> 'a list" where
  "ring_list N d t c = map (\<lambda>i. d ((t + i) mod N)) [0..<c]"

lemma length_ring_list [simp]: "length (ring_list N d t c) = c"
  by (simp add: ring_list_def)

lemma ring_list_0 [simp]: "ring_list N d t 0 = []"
  by (simp add: ring_list_def)

lemma ring_slots_distinct:
  assumes "i < c" and "c < N"
  shows "(t + i) mod N \<noteq> (t + c) mod (N :: nat)"
proof
  assume "(t + i) mod N = (t + c) mod N"
  then have "N dvd (t + c) - (t + i)" using assms by (intro mod_eq_dvd_iff_nat [THEN iffD1]) simp_all
  then have "N dvd c - i" by simp
  then show False using assms by (auto dest: dvd_imp_le)
qed

lemma ring_list_put:
  assumes "c < N"
  shows "ring_list N (d((t + c) mod N := x)) t (Suc c) = ring_list N d t c @ [x]"
  using ring_slots_distinct [OF _ assms] by (auto simp: ring_list_def)

lemma ring_list_get:
  assumes "0 < c"
  shows "ring_list N d t c = d (t mod N) # ring_list N d (Suc t mod N) (c - 1)"
proof -
  obtain k where c: "c = Suc k" using assms by (cases c) auto
  have "[0..<Suc k] = 0 # map Suc [0..<k]" by (simp add: map_Suc_upt upt_conv_Cons)
  then show ?thesis unfolding ring_list_def c by (simp add: mod_add_left_eq comp_def del: upt_Suc)
qed

lemma ring_list_mod [simp]: "ring_list N d (t mod N) c = ring_list N d t c"
  by (simp add: ring_list_def mod_add_left_eq)

locale fifo =
  fixes put :: "'a \<Rightarrow> 's \<Rightarrow> 's"
    and get :: "'s \<Rightarrow> 'a \<times> 's"
    and abs :: "'s \<Rightarrow> 'a list"
    and inv :: "'s \<Rightarrow> bool"
    and cap :: nat
  assumes put_inv: "inv s \<Longrightarrow> length (abs s) < cap \<Longrightarrow> inv (put x s)"
    and put_abs: "inv s \<Longrightarrow> length (abs s) < cap \<Longrightarrow> abs (put x s) = abs s @ [x]"
    and get_inv: "inv s \<Longrightarrow> abs s \<noteq> [] \<Longrightarrow> inv (snd (get s))"
    and get_abs: "inv s \<Longrightarrow> abs s \<noteq> [] \<Longrightarrow> abs s = fst (get s) # abs (snd (get s))"
begin

primrec gets :: "nat \<Rightarrow> 's \<Rightarrow> 'a list \<times> 's" where
  "gets 0 s = ([], s)"
| "gets (Suc n) s = (let (x, s1) = get s; (xs, s2) = gets n s1 in (x # xs, s2))"

lemma puts_abs:
  "inv s \<Longrightarrow> length (abs s) + length xs \<le> cap \<Longrightarrow> inv (fold put xs s) \<and> abs (fold put xs s) = abs s @ xs"
  by (induction xs arbitrary: s) (auto simp: put_inv put_abs)

lemma gets_abs:
  "inv s \<Longrightarrow> n \<le> length (abs s) \<Longrightarrow>
     inv (snd (gets n s)) \<and> fst (gets n s) = take n (abs s) \<and> abs (snd (gets n s)) = drop n (abs s)"
proof (induction n arbitrary: s)
  case 0
  then show ?case by simp
next
  case (Suc n)
  then have ne: "abs s \<noteq> []" by auto
  note g = get_abs [OF Suc.prems(1) ne]
  have l: "n \<le> length (abs (snd (get s)))" using Suc.prems(2) by (subst (asm) g) simp
  show ?case
    using Suc.IH [OF get_inv [OF Suc.prems(1) ne] l] by (subst (1 2) g) (simp add: case_prod_beta Let_def)
qed

lemma puts_gets:
  assumes "inv s" and "abs s = []" and "length xs \<le> cap"
  shows "fst (gets (length xs) (fold put xs s)) = xs"
  using puts_abs [OF assms(1), of xs] gets_abs [of "fold put xs s" "length xs"] assms by simp

end

end
