(* ===== verification/Serial.thy ===== *)
theory Serial
  imports Irq Fifo "HOL-Library.Signed_Division"
begin

text \<open>
  The 16550A UART (\<^verbatim>\<open>hw/serial.c\<close>).  The environment holds what the port is wired to: its
  interrupt pin and its character device, whose operations work on the world \<open>'w\<close> (accepting
  input may deliver characters to the port at once).  A timer field is the time it expires at,
  \<open>None\<close> when it is not running; \<open>now\<close> is the clock in nanoseconds.  \<open>None\<close> as the result of an
  operation is the division by a zero speed, which stops the emulator.
\<close>

section \<open>Model\<close>

abbreviation UART_LCR_DLAB :: u8 where "UART_LCR_DLAB \<equiv> 0x80"
abbreviation UART_IER_MSI :: u8 where "UART_IER_MSI \<equiv> 0x08"
abbreviation UART_IER_RLSI :: u8 where "UART_IER_RLSI \<equiv> 0x04"
abbreviation UART_IER_THRI :: u8 where "UART_IER_THRI \<equiv> 0x02"
abbreviation UART_IER_RDI :: u8 where "UART_IER_RDI \<equiv> 0x01"
abbreviation UART_IIR_NO_INT :: u8 where "UART_IIR_NO_INT \<equiv> 0x01"
abbreviation UART_IIR_ID :: u8 where "UART_IIR_ID \<equiv> 0x06"
abbreviation UART_IIR_MSI :: u8 where "UART_IIR_MSI \<equiv> 0x00"
abbreviation UART_IIR_THRI :: u8 where "UART_IIR_THRI \<equiv> 0x02"
abbreviation UART_IIR_RDI :: u8 where "UART_IIR_RDI \<equiv> 0x04"
abbreviation UART_IIR_RLSI :: u8 where "UART_IIR_RLSI \<equiv> 0x06"
abbreviation UART_IIR_CTI :: u8 where "UART_IIR_CTI \<equiv> 0x0C"
abbreviation UART_IIR_FE :: u8 where "UART_IIR_FE \<equiv> 0xC0"
abbreviation UART_MCR_LOOP :: u8 where "UART_MCR_LOOP \<equiv> 0x10"
abbreviation UART_MCR_OUT2 :: u8 where "UART_MCR_OUT2 \<equiv> 0x08"
abbreviation UART_MSR_DCD :: u8 where "UART_MSR_DCD \<equiv> 0x80"
abbreviation UART_MSR_RI :: u8 where "UART_MSR_RI \<equiv> 0x40"
abbreviation UART_MSR_DSR :: u8 where "UART_MSR_DSR \<equiv> 0x20"
abbreviation UART_MSR_CTS :: u8 where "UART_MSR_CTS \<equiv> 0x10"
abbreviation UART_MSR_TERI :: u8 where "UART_MSR_TERI \<equiv> 0x04"
abbreviation UART_MSR_ANY_DELTA :: u8 where "UART_MSR_ANY_DELTA \<equiv> 0x0F"
abbreviation UART_LSR_TEMT :: u8 where "UART_LSR_TEMT \<equiv> 0x40"
abbreviation UART_LSR_THRE :: u8 where "UART_LSR_THRE \<equiv> 0x20"
abbreviation UART_LSR_BI :: u8 where "UART_LSR_BI \<equiv> 0x10"
abbreviation UART_LSR_OE :: u8 where "UART_LSR_OE \<equiv> 0x02"
abbreviation UART_LSR_DR :: u8 where "UART_LSR_DR \<equiv> 0x01"
abbreviation UART_LSR_INT_ANY :: u8 where "UART_LSR_INT_ANY \<equiv> 0x1E"
abbreviation UART_FCR_FE :: u8 where "UART_FCR_FE \<equiv> 0x01"
abbreviation UART_FIFO_LENGTH :: nat where "UART_FIFO_LENGTH \<equiv> 16"
abbreviation MAX_XMIT_RETRY :: int where "MAX_XMIT_RETRY \<equiv> 4"
abbreviation CHR_TIOCM_DTR :: u32 where "CHR_TIOCM_DTR \<equiv> 0x002"
abbreviation CHR_TIOCM_RTS :: u32 where "CHR_TIOCM_RTS \<equiv> 0x004"
abbreviation CHR_TIOCM_CTS :: u32 where "CHR_TIOCM_CTS \<equiv> 0x020"
abbreviation CHR_TIOCM_CAR :: u32 where "CHR_TIOCM_CAR \<equiv> 0x040"
abbreviation CHR_TIOCM_RI :: u32 where "CHR_TIOCM_RI \<equiv> 0x080"
abbreviation CHR_TIOCM_DSR :: u32 where "CHR_TIOCM_DSR \<equiv> 0x100"
abbreviation ENOTSUP :: int where "ENOTSUP \<equiv> 95"
abbreviation CHR_EVENT_BREAK :: int where "CHR_EVENT_BREAK \<equiv> 0"
abbreviation ticks_per_sec :: int where "ticks_per_sec \<equiv> 1000000000"

datatype which_fifo = XMIT_FIFO | RECV_FIFO

record SerialFIFO =
  fdata :: "nat \<Rightarrow> u8"
  fcount :: u8
  itl :: u8
  tail :: u8
  head :: u8

record SerialState =
  divider :: u16
  rbr :: u8
  thr :: u8
  tsr :: u8
  ier :: u8
  iir :: u8
  lcr :: u8
  mcr :: u8
  lsr :: u8
  msr :: u8
  scr :: u8
  fcr :: u8
  fcr_vmstate :: u8
  thr_ipending :: int
  last_break_enable :: int
  it_shift :: nat
  baudbase :: int
  tsr_retry :: int
  last_xmit_ts :: u64
  recv_fifo :: SerialFIFO
  xmit_fifo :: SerialFIFO
  fifo_timeout_timer :: "u64 option"
  timeout_ipending :: int
  transmit_timer :: "u64 option"
  char_transmit_time :: u64
  poll_msl :: int
  modem_status_poll :: "u64 option"

record serial_params =
  speed :: int
  parity :: char
  data_bits :: int
  stop_bits :: int

record 'w serial_env =
  sirq :: "'w qemu_irq"
  chr_write :: "u8 \<Rightarrow> 'w \<Rightarrow> int \<times> 'w"
  chr_set_params :: "serial_params \<Rightarrow> 'w \<Rightarrow> 'w"
  chr_get_tiocm :: "'w \<Rightarrow> int \<times> u32 \<times> 'w"
  chr_set_tiocm :: "u32 \<Rightarrow> 'w \<Rightarrow> 'w"
  chr_set_break :: "int \<Rightarrow> 'w \<Rightarrow> 'w"
  chr_accept_input :: "SerialState \<times> 'w \<Rightarrow> SerialState \<times> 'w"

definition get_fifo :: "which_fifo \<Rightarrow> SerialState \<Rightarrow> SerialFIFO" where
  "get_fifo k s = (case k of RECV_FIFO \<Rightarrow> recv_fifo s | XMIT_FIFO \<Rightarrow> xmit_fifo s)"

definition set_fifo :: "which_fifo \<Rightarrow> SerialFIFO \<Rightarrow> SerialState \<Rightarrow> SerialState" where
  "set_fifo k f s = (case k of RECV_FIFO \<Rightarrow> s\<lparr>recv_fifo := f\<rparr> | XMIT_FIFO \<Rightarrow> s\<lparr>xmit_fifo := f\<rparr>)"

definition fifo_clear :: "which_fifo \<Rightarrow> SerialState \<Rightarrow> SerialState" where
  "fifo_clear k s = set_fifo k ((get_fifo k s)\<lparr>fdata := \<lambda>_. 0, fcount := 0, head := 0, tail := 0\<rparr>) s"

definition fifo_put :: "which_fifo \<Rightarrow> u8 \<Rightarrow> SerialState \<Rightarrow> SerialState" where
  "fifo_put k chr s =
     (let f = get_fifo k s;
          f1 = (if k = XMIT_FIFO \<or> unat (fcount f) < UART_FIFO_LENGTH then
                  (let f' = f\<lparr>fdata := (fdata f)(unat (head f) := chr), head := head f + 1\<rparr>
                   in if unat (head f') = UART_FIFO_LENGTH then f'\<lparr>head := 0\<rparr> else f')
                else f)
      in if unat (fcount f1) < UART_FIFO_LENGTH then set_fifo k (f1\<lparr>fcount := fcount f1 + 1\<rparr>) s
         else if k = RECV_FIFO then (set_fifo k f1 s)\<lparr>lsr := lsr s OR UART_LSR_OE\<rparr>
         else set_fifo k f1 s)"

definition fifo_get :: "which_fifo \<Rightarrow> SerialState \<Rightarrow> u8 \<times> SerialState" where
  "fifo_get k s =
     (let f = get_fifo k s in
      if fcount f = 0 then (0, s)
      else
        (let c = fdata f (unat (tail f));
             f1 = f\<lparr>tail := tail f + 1\<rparr>;
             f2 = (if unat (tail f1) = UART_FIFO_LENGTH then f1\<lparr>tail := 0\<rparr> else f1)
         in (c, set_fifo k (f2\<lparr>fcount := fcount f2 - 1\<rparr>) s)))"

definition serial_iir :: "SerialState \<Rightarrow> u8" where
  "serial_iir s =
     (if ier s AND UART_IER_RLSI \<noteq> 0 \<and> lsr s AND UART_LSR_INT_ANY \<noteq> 0 then UART_IIR_RLSI
      else if ier s AND UART_IER_RDI \<noteq> 0 \<and> timeout_ipending s \<noteq> 0 then UART_IIR_CTI
      else if ier s AND UART_IER_RDI \<noteq> 0 \<and> lsr s AND UART_LSR_DR \<noteq> 0 \<and>
              (fcr s AND UART_FCR_FE = 0 \<or> fcount (recv_fifo s) \<ge> itl (recv_fifo s)) then UART_IIR_RDI
      else if ier s AND UART_IER_THRI \<noteq> 0 \<and> thr_ipending s \<noteq> 0 then UART_IIR_THRI
      else if ier s AND UART_IER_MSI \<noteq> 0 \<and> msr s AND UART_MSR_ANY_DELTA \<noteq> 0 then UART_IIR_MSI
      else UART_IIR_NO_INT)"

definition serial_update_irq :: "'w serial_env \<Rightarrow> SerialState \<Rightarrow> 'w \<Rightarrow> SerialState \<times> 'w" where
  "serial_update_irq E s w =
     (let tmp_iir = serial_iir s;
          s1 = s\<lparr>iir := tmp_iir OR (iir s AND 0xF0)\<rparr>
      in if tmp_iir \<noteq> UART_IIR_NO_INT then (s1, qemu_irq_raise (sirq E) w)
         else (s1, qemu_irq_lower (sirq E) w))"

definition serial_update_parameters :: "'w serial_env \<Rightarrow> SerialState \<Rightarrow> 'w \<Rightarrow> (SerialState \<times> 'w) option" where
  "serial_update_parameters E s w =
     (if divider s = 0 then Some (s, w)
      else
        (let frame_size1 = 1 + (if lcr s AND 0x08 \<noteq> 0 then 1 else 0);
             par = (if lcr s AND 0x08 \<noteq> 0 then (if lcr s AND 0x10 \<noteq> 0 then CHR ''E'' else CHR ''O'') else CHR ''N'');
             stop = (if lcr s AND 0x04 \<noteq> 0 then 2 else 1);
             bits = uint (lcr s AND 0x03) + 5;
             frame_size = frame_size1 + bits + stop;
             sp = baudbase s sdiv uint (divider s)
         in if sp = 0 then None
            else Some (s\<lparr>char_transmit_time := of_int ((ticks_per_sec sdiv sp) * frame_size)\<rparr>,
              chr_set_params E \<lparr>speed = sp, parity = par, data_bits = bits, stop_bits = stop\<rparr> w)))"

definition set_msr_bit :: "bool \<Rightarrow> u8 \<Rightarrow> u8 \<Rightarrow> u8" where
  "set_msr_bit on b m = (if on then m OR b else m AND NOT b)"

definition serial_update_msl :: "'w serial_env \<Rightarrow> u64 \<Rightarrow> SerialState \<Rightarrow> 'w \<Rightarrow> SerialState \<times> 'w" where
  "serial_update_msl E now s w =
     (let s1 = s\<lparr>modem_status_poll := None\<rparr>;
          (r, fl, w1) = chr_get_tiocm E w
      in if r = - ENOTSUP then (s1\<lparr>poll_msl := -1\<rparr>, w1)
         else
           (let omsr = msr s1;
                m1 = set_msr_bit (fl AND CHR_TIOCM_CTS \<noteq> 0) UART_MSR_CTS omsr;
                m2 = set_msr_bit (fl AND CHR_TIOCM_DSR \<noteq> 0) UART_MSR_DSR m1;
                m3 = set_msr_bit (fl AND CHR_TIOCM_CAR \<noteq> 0) UART_MSR_DCD m2;
                m4 = set_msr_bit (fl AND CHR_TIOCM_RI \<noteq> 0) UART_MSR_RI m3;
                (s2, w2) =
                  (if m4 \<noteq> omsr then
                     (let m5 = m4 OR (drop_bit 4 m4 XOR drop_bit 4 omsr);
                          m6 = (if m5 AND UART_MSR_TERI \<noteq> 0 \<and> omsr AND UART_MSR_RI = 0
                                then m5 AND NOT UART_MSR_TERI else m5)
                      in serial_update_irq E (s1\<lparr>msr := m6\<rparr>) w1)
                   else (s1\<lparr>msr := m4\<rparr>, w1))
            in if poll_msl s2 \<noteq> 0
               then (s2\<lparr>modem_status_poll := Some (now + of_int (ticks_per_sec div 100))\<rparr>, w2) else (s2, w2)))"

definition serial_receive1 :: "'w serial_env \<Rightarrow> u64 \<Rightarrow> u8 list \<Rightarrow> SerialState \<Rightarrow> 'w \<Rightarrow> SerialState \<times> 'w" where
  "serial_receive1 E now buf s w =
     (let s1 =
        (if fcr s AND UART_FCR_FE \<noteq> 0 then
           (let s' = fold (fifo_put RECV_FIFO) buf s
            in s'\<lparr>lsr := lsr s' OR UART_LSR_DR,
                 fifo_timeout_timer := Some (now + char_transmit_time s' * 4)\<rparr>)
         else
           (let s' = (if lsr s AND UART_LSR_DR \<noteq> 0 then s\<lparr>lsr := lsr s OR UART_LSR_OE\<rparr> else s)
            in s'\<lparr>rbr := hd buf, lsr := lsr s' OR UART_LSR_DR\<rparr>))
      in serial_update_irq E s1 w)"

text \<open>The three parts of \<^verbatim>\<open>serial_xmit\<close>: fetching the next byte, sending it, the status afterwards.\<close>

definition serial_xmit_fetch :: "SerialState \<Rightarrow> SerialState" where
  "serial_xmit_fetch s =
     (if tsr_retry s \<le> 0 then
        (if fcr s AND UART_FCR_FE \<noteq> 0 then
           (let (c, s') = fifo_get XMIT_FIFO s;
                s'' = s'\<lparr>tsr := c\<rparr>
            in if fcount (xmit_fifo s'') = 0 then s''\<lparr>lsr := lsr s'' OR UART_LSR_THRE\<rparr> else s'')
         else s\<lparr>tsr := thr s, lsr := lsr s OR UART_LSR_THRE\<rparr>)
      else s)"

definition serial_xmit_done :: "'w serial_env \<Rightarrow> u64 \<Rightarrow> SerialState \<Rightarrow> 'w \<Rightarrow> SerialState \<times> 'w" where
  "serial_xmit_done E now s w =
     (let s' = s\<lparr>last_xmit_ts := now\<rparr>;
          s'' = (if lsr s' AND UART_LSR_THRE = 0
                 then s'\<lparr>transmit_timer := Some (last_xmit_ts s' + char_transmit_time s')\<rparr> else s')
      in if lsr s'' AND UART_LSR_THRE \<noteq> 0
         then serial_update_irq E (s''\<lparr>lsr := lsr s'' OR UART_LSR_TEMT, thr_ipending := 1\<rparr>) w
         else (s'', w))"

definition serial_xmit :: "'w serial_env \<Rightarrow> u64 \<Rightarrow> SerialState \<Rightarrow> 'w \<Rightarrow> SerialState \<times> 'w" where
  "serial_xmit E now s w =
     (let s1 = serial_xmit_fetch s in
      if mcr s1 AND UART_MCR_LOOP \<noteq> 0 then
        (let (s2, w2) = serial_receive1 E now [tsr s1] s1 w in serial_xmit_done E now s2 w2)
      else
        (let (r, w2) = chr_write E (tsr s1) w in
         if r \<noteq> 1 then
           (if tsr_retry s1 > 0 \<and> tsr_retry s1 \<le> MAX_XMIT_RETRY then
              (s1\<lparr>tsr_retry := tsr_retry s1 + 1, transmit_timer := Some (now + char_transmit_time s1)\<rparr>, w2)
            else if poll_msl s1 < 0 then serial_xmit_done E now (s1\<lparr>tsr_retry := -1\<rparr>) w2
            else serial_xmit_done E now s1 w2)
         else serial_xmit_done E now (s1\<lparr>tsr_retry := 0\<rparr>) w2))"

definition set_itl :: "u32 \<Rightarrow> SerialFIFO \<Rightarrow> SerialFIFO" where
  "set_itl val f =
     (let k = val AND 0xC0 in
      if k = 0x00 then f\<lparr>itl := 1\<rparr> else if k = 0x40 then f\<lparr>itl := 4\<rparr>
      else if k = 0x80 then f\<lparr>itl := 8\<rparr> else if k = 0xC0 then f\<lparr>itl := 14\<rparr> else f)"

definition serial_write_thr :: "'w serial_env \<Rightarrow> u64 \<Rightarrow> u32 \<Rightarrow> SerialState \<Rightarrow> 'w \<Rightarrow> SerialState \<times> 'w" where
  "serial_write_thr E now val s w =
     (let s1 = s\<lparr>thr := ucast val\<rparr>;
          (s2, w2) =
            (if fcr s1 AND UART_FCR_FE \<noteq> 0 then
               (let s' = (fifo_put XMIT_FIFO (thr s1) s1)\<lparr>thr_ipending := 0\<rparr>;
                    s'' = s'\<lparr>lsr := lsr s' AND NOT UART_LSR_TEMT AND NOT UART_LSR_THRE\<rparr>
                in serial_update_irq E s'' w)
             else serial_update_irq E (s1\<lparr>thr_ipending := 0, lsr := lsr s1 AND NOT UART_LSR_THRE\<rparr>) w)
      in serial_xmit E now s2 w2)"

definition serial_write_ier :: "'w serial_env \<Rightarrow> u64 \<Rightarrow> u32 \<Rightarrow> SerialState \<Rightarrow> 'w \<Rightarrow> SerialState \<times> 'w" where
  "serial_write_ier E now val s w =
     (let s1 = s\<lparr>ier := ucast (val AND 0x0f)\<rparr>;
          (s2, w2) =
            (if poll_msl s1 \<ge> 0 then
               (if ier s1 AND UART_IER_MSI \<noteq> 0 then serial_update_msl E now (s1\<lparr>poll_msl := 1\<rparr>) w
                else (s1\<lparr>modem_status_poll := None, poll_msl := 0\<rparr>, w))
             else (s1, w))
      in if lsr s2 AND UART_LSR_THRE \<noteq> 0 then serial_update_irq E (s2\<lparr>thr_ipending := 1\<rparr>) w2 else (s2, w2))"

definition serial_write_fcr :: "'w serial_env \<Rightarrow> u32 \<Rightarrow> SerialState \<Rightarrow> 'w \<Rightarrow> SerialState \<times> 'w" where
  "serial_write_fcr E val0 s w =
     (let val = val0 AND 0xFF in
      if ucast (fcr s) = val then (s, w)
      else
        (let val1 = (if (val XOR ucast (fcr s)) AND 0x01 \<noteq> 0 then val OR 0x04 OR 0x02 else val);
             s1 = (if val1 AND 0x02 \<noteq> 0
                   then fifo_clear RECV_FIFO (s\<lparr>fifo_timeout_timer := None, timeout_ipending := 0\<rparr>) else s);
             s2 = (if val1 AND 0x04 \<noteq> 0 then fifo_clear XMIT_FIFO s1 else s1);
             s3 = (if val1 AND 0x01 \<noteq> 0
                   then s2\<lparr>iir := iir s2 OR UART_IIR_FE, recv_fifo := set_itl val1 (recv_fifo s2)\<rparr>
                   else s2\<lparr>iir := iir s2 AND NOT UART_IIR_FE\<rparr>)
         in serial_update_irq E (s3\<lparr>fcr := ucast (val1 AND 0xC9)\<rparr>) w))"

definition serial_write_lcr :: "'w serial_env \<Rightarrow> u32 \<Rightarrow> SerialState \<Rightarrow> 'w \<Rightarrow> (SerialState \<times> 'w) option" where
  "serial_write_lcr E val s w =
     (case serial_update_parameters E (s\<lparr>lcr := ucast val\<rparr>) w of
        None \<Rightarrow> None
      | Some (s1, w1) \<Rightarrow>
          (let break_enable = uint (drop_bit 6 val AND 1) in
           if break_enable \<noteq> last_break_enable s1
           then Some (s1\<lparr>last_break_enable := break_enable\<rparr>, chr_set_break E break_enable w1)
           else Some (s1, w1)))"

definition serial_write_mcr :: "'w serial_env \<Rightarrow> u64 \<Rightarrow> u32 \<Rightarrow> SerialState \<Rightarrow> 'w \<Rightarrow> SerialState \<times> 'w" where
  "serial_write_mcr E now val s w =
     (let old_mcr = mcr s;
          s1 = s\<lparr>mcr := ucast (val AND 0x1f)\<rparr>
      in if val AND 0x10 \<noteq> 0 then (s1, w)
         else if poll_msl s1 \<ge> 0 \<and> old_mcr \<noteq> mcr s1 then
           (let (r, fl, w1) = chr_get_tiocm E w;
                fl1 = fl AND NOT (CHR_TIOCM_RTS OR CHR_TIOCM_DTR);
                fl2 = (if val AND 0x02 \<noteq> 0 then fl1 OR CHR_TIOCM_RTS else fl1);
                fl3 = (if val AND 0x01 \<noteq> 0 then fl2 OR CHR_TIOCM_DTR else fl2);
                w2 = chr_set_tiocm E fl3 w1
            in (s1\<lparr>modem_status_poll := Some (now + char_transmit_time s1)\<rparr>, w2))
         else (s1, w))"

definition serial_ioport_write ::
  "'w serial_env \<Rightarrow> u64 \<Rightarrow> u32 \<Rightarrow> u32 \<Rightarrow> SerialState \<Rightarrow> 'w \<Rightarrow> (SerialState \<times> 'w) option" where
  "serial_ioport_write E now addr0 val s w =
     (let addr = addr0 AND 7 in
      if addr = 0 then
        (if lcr s AND UART_LCR_DLAB \<noteq> 0
         then serial_update_parameters E (s\<lparr>divider := ucast (ucast (divider s AND 0xff00) OR val)\<rparr>) w
         else Some (serial_write_thr E now val s w))
      else if addr = 1 then
        (if lcr s AND UART_LCR_DLAB \<noteq> 0
         then serial_update_parameters E (s\<lparr>divider := ucast (ucast (divider s AND 0x00ff) OR push_bit 8 val)\<rparr>) w
         else Some (serial_write_ier E now val s w))
      else if addr = 2 then Some (serial_write_fcr E val s w)
      else if addr = 3 then serial_write_lcr E val s w
      else if addr = 4 then Some (serial_write_mcr E now val s w)
      else if addr = 7 then Some (s\<lparr>scr := ucast val\<rparr>, w)
      else Some (s, w))"

definition serial_read_rbr :: "'w serial_env \<Rightarrow> u64 \<Rightarrow> SerialState \<Rightarrow> 'w \<Rightarrow> u32 \<times> SerialState \<times> 'w" where
  "serial_read_rbr E now s w =
     (let (ret, s1) =
        (if fcr s AND UART_FCR_FE \<noteq> 0 then
           (let (c, s') = fifo_get RECV_FIFO s;
                s'' = (if fcount (recv_fifo s') = 0
                       then s'\<lparr>lsr := lsr s' AND NOT (UART_LSR_DR OR UART_LSR_BI)\<rparr>
                       else s'\<lparr>fifo_timeout_timer := Some (now + char_transmit_time s' * 4)\<rparr>)
            in (ucast c, s''\<lparr>timeout_ipending := 0\<rparr>))
         else (ucast (rbr s), s\<lparr>lsr := lsr s AND NOT (UART_LSR_DR OR UART_LSR_BI)\<rparr>));
          (s2, w2) = serial_update_irq E s1 w
      in if mcr s2 AND UART_MCR_LOOP = 0 then (ret, chr_accept_input E (s2, w2)) else (ret, s2, w2))"

definition serial_read_msr :: "'w serial_env \<Rightarrow> u64 \<Rightarrow> SerialState \<Rightarrow> 'w \<Rightarrow> u32 \<times> SerialState \<times> 'w" where
  "serial_read_msr E now s w =
     (if mcr s AND UART_MCR_LOOP \<noteq> 0 then
        (push_bit 4 (ucast (mcr s AND 0x0c)) OR push_bit 3 (ucast (mcr s AND 0x02)) OR
           push_bit 5 (ucast (mcr s AND 0x01)), s, w)
      else
        (let (s1, w1) = (if poll_msl s \<ge> 0 then serial_update_msl E now s w else (s, w));
             ret = ucast (msr s1)
         in if msr s1 AND UART_MSR_ANY_DELTA \<noteq> 0
            then (ret, serial_update_irq E (s1\<lparr>msr := msr s1 AND 0xF0\<rparr>) w1) else (ret, s1, w1)))"

definition serial_ioport_read ::
  "'w serial_env \<Rightarrow> u64 \<Rightarrow> u32 \<Rightarrow> SerialState \<Rightarrow> 'w \<Rightarrow> u32 \<times> SerialState \<times> 'w" where
  "serial_ioport_read E now addr0 s w =
     (let addr = addr0 AND 7 in
      if addr = 0 then
        (if lcr s AND UART_LCR_DLAB \<noteq> 0 then (ucast (divider s AND 0xff), s, w)
         else serial_read_rbr E now s w)
      else if addr = 1 then
        (if lcr s AND UART_LCR_DLAB \<noteq> 0 then (ucast (drop_bit 8 (divider s) AND 0xff), s, w)
         else (ucast (ier s), s, w))
      else if addr = 2 then
        (let ret = ucast (iir s) in
         if iir s AND UART_IIR_ID = UART_IIR_THRI
         then (ret, serial_update_irq E (s\<lparr>thr_ipending := 0\<rparr>) w) else (ret, s, w))
      else if addr = 3 then (ucast (lcr s), s, w)
      else if addr = 4 then (ucast (mcr s), s, w)
      else if addr = 5 then
        (let ret = ucast (lsr s) in
         if lsr s AND (UART_LSR_BI OR UART_LSR_OE) \<noteq> 0
         then (ret, serial_update_irq E (s\<lparr>lsr := lsr s AND NOT (UART_LSR_BI OR UART_LSR_OE)\<rparr>) w)
         else (ret, s, w))
      else if addr = 6 then serial_read_msr E now s w
      else (ucast (scr s), s, w))"

definition serial_can_receive :: "SerialState \<Rightarrow> int" where
  "serial_can_receive s =
     (if fcr s AND UART_FCR_FE \<noteq> 0 then
        (if unat (fcount (recv_fifo s)) < UART_FIFO_LENGTH then
           (if fcount (recv_fifo s) \<le> itl (recv_fifo s)
            then uint (itl (recv_fifo s)) - uint (fcount (recv_fifo s)) else 1)
         else 0)
      else if lsr s AND UART_LSR_DR = 0 then 1 else 0)"

definition serial_receive_break :: "'w serial_env \<Rightarrow> SerialState \<Rightarrow> 'w \<Rightarrow> SerialState \<times> 'w" where
  "serial_receive_break E s w =
     (let s1 = fifo_put RECV_FIFO 0 (s\<lparr>rbr := 0\<rparr>)
      in serial_update_irq E (s1\<lparr>lsr := lsr s1 OR (UART_LSR_BI OR UART_LSR_DR)\<rparr>) w)"

definition fifo_timeout_int :: "'w serial_env \<Rightarrow> SerialState \<Rightarrow> 'w \<Rightarrow> SerialState \<times> 'w" where
  "fifo_timeout_int E s w =
     (if fcount (recv_fifo s) \<noteq> 0 then serial_update_irq E (s\<lparr>timeout_ipending := 1\<rparr>) w else (s, w))"

definition serial_event :: "'w serial_env \<Rightarrow> int \<Rightarrow> SerialState \<Rightarrow> 'w \<Rightarrow> SerialState \<times> 'w" where
  "serial_event E event s w = (if event = CHR_EVENT_BREAK then serial_receive_break E s w else (s, w))"

definition serial_pre_save :: "SerialState \<Rightarrow> SerialState" where
  "serial_pre_save s = s\<lparr>fcr_vmstate := fcr s\<rparr>"

definition serial_post_load :: "'w serial_env \<Rightarrow> u64 \<Rightarrow> int \<Rightarrow> SerialState \<Rightarrow> 'w \<Rightarrow> (SerialState \<times> 'w) option" where
  "serial_post_load E now version_id s w =
     (let s1 = (if version_id < 3 then s\<lparr>fcr_vmstate := 0\<rparr> else s) in
      case serial_ioport_write E now 0x02 (ucast (fcr_vmstate s1)) s1 w of
        None \<Rightarrow> None | Some (s2, w2) \<Rightarrow> serial_update_parameters E s2 w2)"

definition serial_reset :: "'w serial_env \<Rightarrow> u64 \<Rightarrow> SerialState \<Rightarrow> 'w \<Rightarrow> SerialState \<times> 'w" where
  "serial_reset E now s w =
     (let s1 = s\<lparr>rbr := 0, ier := 0, iir := UART_IIR_NO_INT, lcr := 0,
            lsr := UART_LSR_TEMT OR UART_LSR_THRE,
            msr := UART_MSR_DCD OR UART_MSR_DSR OR UART_MSR_CTS, divider := 0x0C, mcr := UART_MCR_OUT2,
            scr := 0, tsr_retry := 0, char_transmit_time := of_int ((ticks_per_sec div 9600) * 10),
            poll_msl := 0\<rparr>;
          s2 = fifo_clear XMIT_FIFO (fifo_clear RECV_FIFO s1);
          s3 = s2\<lparr>last_xmit_ts := now, thr_ipending := 0, last_break_enable := 0\<rparr>
      in (s3, qemu_irq_lower (sirq E) w))"

text \<open>The zeroed state of a new port, with the base rate that \<^verbatim>\<open>serial_isa_initfn\<close> sets.\<close>

definition fifo_zero :: SerialFIFO where
  "fifo_zero = \<lparr>fdata = \<lambda>_. 0, fcount = 0, itl = 0, tail = 0, head = 0\<rparr>"

definition serial_new :: SerialState where
  "serial_new = \<lparr>divider = 0, rbr = 0, thr = 0, tsr = 0, ier = 0, iir = 0, lcr = 0, mcr = 0, lsr = 0, msr = 0,
     scr = 0, fcr = 0, fcr_vmstate = 0, thr_ipending = 0, last_break_enable = 0, it_shift = 0, baudbase = 115200,
     tsr_retry = 0, last_xmit_ts = 0, recv_fifo = fifo_zero, xmit_fifo = fifo_zero, fifo_timeout_timer = None,
     timeout_ipending = 0, transmit_timer = None, char_transmit_time = 0, poll_msl = 0, modem_status_poll = None\<rparr>"

definition serial_set_frequency :: "'w serial_env \<Rightarrow> u32 \<Rightarrow> SerialState \<Rightarrow> 'w \<Rightarrow> (SerialState \<times> 'w) option" where
  "serial_set_frequency E frequency s w = serial_update_parameters E (s\<lparr>baudbase := sint frequency\<rparr>) w"

text \<open>The memory mapped interface, little endian; the big endian one swaps the bytes.\<close>

definition serial_mm_readb :: "'w serial_env \<Rightarrow> u64 \<Rightarrow> u64 \<Rightarrow> SerialState \<Rightarrow> 'w \<Rightarrow> u32 \<times> SerialState \<times> 'w" where
  "serial_mm_readb E now addr s w =
     (let (v, s1, w1) = serial_ioport_read E now (ucast (drop_bit (it_shift s) addr)) s w in (v AND 0xFF, s1, w1))"

definition serial_mm_writeb ::
  "'w serial_env \<Rightarrow> u64 \<Rightarrow> u64 \<Rightarrow> u32 \<Rightarrow> SerialState \<Rightarrow> 'w \<Rightarrow> (SerialState \<times> 'w) option" where
  "serial_mm_writeb E now addr val s w =
     serial_ioport_write E now (ucast (drop_bit (it_shift s) addr)) (val AND 0xFF) s w"

definition bswap16 :: "u32 \<Rightarrow> u32" where
  "bswap16 v = push_bit 8 (v AND 0xff) OR (drop_bit 8 v AND 0xff)"

definition bswap32 :: "u32 \<Rightarrow> u32" where
  "bswap32 v = push_bit 24 (v AND 0xff) OR push_bit 8 (v AND 0xff00) OR (drop_bit 8 v AND 0xff00) OR drop_bit 24 v"

definition serial_mm_readw :: "bool \<Rightarrow> 'w serial_env \<Rightarrow> u64 \<Rightarrow> u64 \<Rightarrow> SerialState \<Rightarrow> 'w \<Rightarrow> u32 \<times> SerialState \<times> 'w" where
  "serial_mm_readw be E now addr s w =
     (let (v, s1, w1) = serial_ioport_read E now (ucast (drop_bit (it_shift s) addr)) s w;
          v1 = v AND 0xFFFF
      in (if be then bswap16 v1 else v1, s1, w1))"

definition serial_mm_writew ::
  "bool \<Rightarrow> 'w serial_env \<Rightarrow> u64 \<Rightarrow> u64 \<Rightarrow> u32 \<Rightarrow> SerialState \<Rightarrow> 'w \<Rightarrow> (SerialState \<times> 'w) option" where
  "serial_mm_writew be E now addr val s w =
     serial_ioport_write E now (ucast (drop_bit (it_shift s) addr))
       ((if be then bswap16 val else val) AND 0xFFFF) s w"

definition serial_mm_readl :: "bool \<Rightarrow> 'w serial_env \<Rightarrow> u64 \<Rightarrow> u64 \<Rightarrow> SerialState \<Rightarrow> 'w \<Rightarrow> u32 \<times> SerialState \<times> 'w" where
  "serial_mm_readl be E now addr s w =
     (let (v, s1, w1) = serial_ioport_read E now (ucast (drop_bit (it_shift s) addr)) s w
      in (if be then bswap32 v else v, s1, w1))"

definition serial_mm_writel ::
  "bool \<Rightarrow> 'w serial_env \<Rightarrow> u64 \<Rightarrow> u64 \<Rightarrow> u32 \<Rightarrow> SerialState \<Rightarrow> 'w \<Rightarrow> (SerialState \<times> 'w) option" where
  "serial_mm_writel be E now addr val s w =
     serial_ioport_write E now (ucast (drop_bit (it_shift s) addr)) (if be then bswap32 val else val) s w"

section \<open>Specification\<close>

text \<open>
  The accesses and events of the port.  A timer event happens only when the timer runs; the
  character device delivers at least one byte at a time.
\<close>

datatype serial_op =
    SWrite u64 u32 u32
  | SRead u64 u32
  | SReceive u64 "u8 list"
  | SEvent int
  | SFifoTimeout
  | STransmit u64
  | SModemPoll u64
  | SReset u64
  | SFrequency u32

fun serial_step :: "'w serial_env \<Rightarrow> (SerialState \<times> 'w) option \<Rightarrow> serial_op \<Rightarrow> (SerialState \<times> 'w) option" where
  "serial_step E None op = None"
| "serial_step E (Some (s, w)) (SWrite now a v) = serial_ioport_write E now a v s w"
| "serial_step E (Some (s, w)) (SRead now a) = Some (snd (serial_ioport_read E now a s w))"
| "serial_step E (Some (s, w)) (SReceive now buf) = Some (serial_receive1 E now buf s w)"
| "serial_step E (Some (s, w)) (SEvent e) = Some (serial_event E e s w)"
| "serial_step E (Some (s, w)) SFifoTimeout = Some (fifo_timeout_int E s w)"
| "serial_step E (Some (s, w)) (STransmit now) =
     (if transmit_timer s = None then Some (s, w) else Some (serial_xmit E now (s\<lparr>transmit_timer := None\<rparr>) w))"
| "serial_step E (Some (s, w)) (SModemPoll now) = Some (serial_update_msl E now s w)"
| "serial_step E (Some (s, w)) (SReset now) = Some (serial_reset E now s w)"
| "serial_step E (Some (s, w)) (SFrequency f) = serial_set_frequency E f s w"

fun serial_op_ok :: "serial_op \<Rightarrow> bool" where
  "serial_op_ok (SReceive now buf) \<longleftrightarrow> buf \<noteq> []"
| "serial_op_ok (SFrequency f) \<longleftrightarrow> 65535 \<le> sint f"
| "serial_op_ok _ \<longleftrightarrow> True"

definition fifo_wf :: "SerialFIFO \<Rightarrow> bool" where
  "fifo_wf f \<longleftrightarrow> unat (tail f) < 16 \<and> unat (fcount f) \<le> 16 \<and>
     unat (head f) = (unat (tail f) + unat (fcount f)) mod 16"

definition fifo_list :: "SerialFIFO \<Rightarrow> u8 list" where
  "fifo_list f = ring_list 16 (fdata f) (unat (tail f)) (unat (fcount f))"

definition serial_core :: "SerialState \<Rightarrow> bool" where
  "serial_core s \<longleftrightarrow> tsr_retry s \<le> 0 \<and> fifo_wf (recv_fifo s) \<and> fifo_wf (xmit_fifo s) \<and>
     itl (recv_fifo s) \<le> 14 \<and> transmit_timer s = None \<and> 65535 \<le> baudbase s"

definition serial_ok :: "SerialState \<Rightarrow> bool" where
  "serial_ok s \<longleftrightarrow> serial_core s \<and> fcount (xmit_fifo s) = 0 \<and> bit (lsr s) 5"

text \<open>The pin level \<open>L\<close> is the one of the pending interrupt, and the identification register shows it.\<close>

definition serial_inv :: "('w \<Rightarrow> bool) \<Rightarrow> SerialState \<times> 'w \<Rightarrow> bool" where
  "serial_inv L = (\<lambda>(s, w). serial_ok s \<and> (L w \<longleftrightarrow> serial_iir s \<noteq> UART_IIR_NO_INT) \<and>
     iir s AND 0x0f = serial_iir s)"

text \<open>
  What the port relies on: the character device does not drive the port's pin, and accepting
  input delivers bytes through the port's receive handler.
\<close>

definition chr_keeps :: "('w \<Rightarrow> bool) \<Rightarrow> 'w serial_env \<Rightarrow> bool" where
  "chr_keeps L E \<longleftrightarrow>
     (\<forall>w c. L (snd (chr_write E c w)) = L w) \<and> (\<forall>w p. L (chr_set_params E p w) = L w) \<and>
     (\<forall>w. L (snd (snd (chr_get_tiocm E w))) = L w) \<and> (\<forall>w f. L (chr_set_tiocm E f w) = L w) \<and>
     (\<forall>w b. L (chr_set_break E b w) = L w) \<and>
     (\<forall>s w. \<exists>now bufs w'. L w' = L w \<and>
        chr_accept_input E (s, w) = fold (\<lambda>b (s, w). serial_receive1 E now [b] s w) bufs (s, w'))"

definition drives :: "('w \<Rightarrow> bool) \<Rightarrow> 'w qemu_irq \<Rightarrow> bool" where
  "drives L irq \<longleftrightarrow> (\<forall>l w. L (qemu_set_irq irq l w) \<longleftrightarrow> l \<noteq> 0)"

fun serial_reads :: "'w serial_env \<Rightarrow> u64 \<Rightarrow> nat \<Rightarrow> SerialState \<times> 'w \<Rightarrow> u32 list \<times> SerialState \<times> 'w" where
  "serial_reads E now 0 r = ([], r)"
| "serial_reads E now (Suc n) (s, w) =
     (let (v, r1) = serial_ioport_read E now 0 s w; (vs, r2) = serial_reads E now n r1 in (v # vs, r2))"

text \<open>Putting into a FIFO with room, and taking from one that is not empty.\<close>

definition ring_put :: "u8 \<Rightarrow> SerialFIFO \<Rightarrow> SerialFIFO" where
  "ring_put c f = f\<lparr>fdata := (fdata f)(unat (head f) := c), head := (if unat (head f + 1) = 16 then 0 else head f + 1),
     fcount := fcount f + 1\<rparr>"

definition ring_get :: "SerialFIFO \<Rightarrow> SerialFIFO" where
  "ring_get f = f\<lparr>tail := (if unat (tail f + 1) = 16 then 0 else tail f + 1), fcount := fcount f - 1\<rparr>"

definition serial_run :: "'w serial_env \<Rightarrow> u64 \<Rightarrow> 'w \<Rightarrow> serial_op list \<Rightarrow> (SerialState \<times> 'w) option" where
  "serial_run E t0 w0 ops = run (serial_step E) (Some (serial_reset E t0 serial_new w0)) ops"

text \<open>A character device that logs what it is sent, on a world with the level of the pin.\<close>

definition log_uart :: "int \<Rightarrow> (bool \<times> u8 list) serial_env" where
  "log_uart r = \<lparr>sirq = Some \<lparr>handler = \<lambda>_ l w. (l \<noteq> 0, snd w), line_no = 4\<rparr>,
     chr_write = \<lambda>c w. (r, fst w, snd w @ [c]), chr_set_params = \<lambda>_ w. w, chr_get_tiocm = \<lambda>w. (- ENOTSUP, 0, w),
     chr_set_tiocm = \<lambda>_ w. w, chr_set_break = \<lambda>_ w. w, chr_accept_input = \<lambda>x. x\<rparr>"

text \<open>The port after reset with its FIFOs enabled.\<close>

definition fifo_port :: SerialState where
  "fifo_port = serial_new\<lparr>iir := 0xC1, lsr := 0x60, msr := 0xB0, divider := 0x0C, mcr := 8,
     char_transmit_time := 1041660, recv_fifo := fifo_zero\<lparr>itl := 1\<rparr>, fcr := 1\<rparr>"

section \<open>The FIFOs\<close>

lemma get_set_fifo [simp]: "get_fifo j (set_fifo k f s) = (if j = k then f else get_fifo j s)"
  by (cases j; cases k) (simp_all add: get_fifo_def set_fifo_def)

lemma get_fifo_lsr [simp]: "get_fifo k (s\<lparr>lsr := x\<rparr>) = get_fifo k s"
  by (cases k) (simp_all add: get_fifo_def)

lemma fifo_put_room: "unat (fcount (get_fifo k s)) < 16 \<Longrightarrow> fifo_put k c s = set_fifo k (ring_put c (get_fifo k s)) s"
  by (auto simp: fifo_put_def Let_def ring_put_def)

lemma fifo_get_some: "fcount (get_fifo k s) \<noteq> 0 \<Longrightarrow>
    fifo_get k s = (fdata (get_fifo k s) (unat (tail (get_fifo k s))), set_fifo k (ring_get (get_fifo k s)) s)"
  by (auto simp: fifo_get_def Let_def ring_get_def)

lemma unat_succ_small: "unat (x :: u8) < 255 \<Longrightarrow> unat (x + 1) = Suc (unat x)"
  by (simp add: unat_word_ariths)

lemma unat_pred_pos: "(x :: u8) \<noteq> 0 \<Longrightarrow> unat (x - 1) = unat x - 1"
  by (metis unat_minus_one)

lemma ring_next: "unat (t :: u8) < 16 \<Longrightarrow> unat (if unat (t + 1) = 16 then 0 else t + 1) = Suc (unat t) mod 16"
  by (auto simp: unat_succ_small)

lemma ring_put_wf: "fifo_wf f \<Longrightarrow> unat (fcount f) < 16 \<Longrightarrow> fifo_wf (ring_put c f)"
  using ring_next [of "head f"] by (auto simp: fifo_wf_def ring_put_def unat_succ_small mod_Suc_eq)

lemma ring_put_list: "fifo_wf f \<Longrightarrow> unat (fcount f) < 16 \<Longrightarrow> fifo_list (ring_put c f) = fifo_list f @ [c]"
  using ring_list_put [of "unat (fcount f)" 16 "fdata f" "unat (tail f)" c]
  by (simp add: fifo_wf_def ring_put_def fifo_list_def unat_succ_small)

lemma ring_get_wf:
  assumes "fifo_wf f" and "fcount f \<noteq> 0"
  shows "fifo_wf (ring_get f)"
proof -
  obtain k where k: "unat (fcount f) = Suc k" using assms(2) by (cases "unat (fcount f)") (auto simp: unat_eq_zero)
  have "(Suc (unat (tail f)) mod 16 + k) mod 16 = (unat (tail f) + Suc k) mod 16"
    by (simp add: mod_add_left_eq)
  then show ?thesis
    using assms ring_next [of "tail f"] k by (auto simp: fifo_wf_def ring_get_def unat_pred_pos)
qed

lemma ring_get_list:
  "fifo_wf f \<Longrightarrow> fcount f \<noteq> 0 \<Longrightarrow> fifo_list f = fdata f (unat (tail f)) # fifo_list (ring_get f)"
  using ring_list_get [of "unat (fcount f)" 16 "fdata f" "unat (tail f)"] ring_next [of "tail f"]
  by (simp add: fifo_wf_def ring_get_def fifo_list_def unat_pred_pos unat_gt_0)

lemma length_fifo_list [simp]: "length (fifo_list f) = unat (fcount f)"
  by (simp add: fifo_list_def)

lemma fifo_list_Nil [simp]: "fifo_list f = [] \<longleftrightarrow> fcount f = 0"
  using length_fifo_list [of f] by (metis length_0_conv unat_eq_0)

interpretation sfifo: fifo "fifo_put k" "fifo_get k" "\<lambda>s. fifo_list (get_fifo k s)" "\<lambda>s. fifo_wf (get_fifo k s)" 16
  for k
  by unfold_locales (simp_all add: fifo_put_room fifo_get_some ring_put_wf ring_put_list ring_get_wf ring_get_list)

section \<open>The invariant\<close>

lemmas serial_upd_defs = serial_core_def serial_ok_def get_fifo_def set_fifo_def

lemma serial_iir_low: "(serial_iir s OR (i AND 0xF0)) AND 0x0f = serial_iir s"
  by (simp add: serial_iir_def word_bw_assocs bit.conj_disj_distrib2)

lemma serial_iir_frame [simp]:
  "serial_iir (s\<lparr>modem_status_poll := x_modem_status_poll\<rparr>) = serial_iir s"
  "serial_iir (s\<lparr>poll_msl := xpoll_msl\<rparr>) = serial_iir s"
  "serial_iir (s\<lparr>last_xmit_ts := xlast_xmit_ts\<rparr>) = serial_iir s"
  "serial_iir (s\<lparr>tsr := xtsr\<rparr>) = serial_iir s"
  "serial_iir (s\<lparr>thr := xthr\<rparr>) = serial_iir s"
  "serial_iir (s\<lparr>rbr := xrbr\<rparr>) = serial_iir s"
  "serial_iir (s\<lparr>scr := xscr\<rparr>) = serial_iir s"
  "serial_iir (s\<lparr>divider := xdivider\<rparr>) = serial_iir s"
  "serial_iir (s\<lparr>lcr := xlcr\<rparr>) = serial_iir s"
  "serial_iir (s\<lparr>mcr := xmcr\<rparr>) = serial_iir s"
  "serial_iir (s\<lparr>iir := xiir\<rparr>) = serial_iir s"
  "serial_iir (s\<lparr>last_break_enable := xlast_break_enable\<rparr>) = serial_iir s"
  "serial_iir (s\<lparr>char_transmit_time := xchar_transmit_time\<rparr>) = serial_iir s"
  "serial_iir (s\<lparr>fifo_timeout_timer := xfifo_timeout_timer\<rparr>) = serial_iir s"
  "serial_iir (s\<lparr>transmit_timer := xtransmit_timer\<rparr>) = serial_iir s"
  "serial_iir (s\<lparr>tsr_retry := xtsr_retry\<rparr>) = serial_iir s"
  "serial_iir (s\<lparr>baudbase := xbaudbase\<rparr>) = serial_iir s"
  "serial_iir (s\<lparr>xmit_fifo := xxmit_fifo\<rparr>) = serial_iir s"
  by (simp_all add: serial_iir_def)

lemma serial_core_frame [simp]:
  "serial_core (s\<lparr>modem_status_poll := x_modem_status_poll\<rparr>) = serial_core s"
  "serial_core (s\<lparr>poll_msl := xpoll_msl\<rparr>) = serial_core s"
  "serial_core (s\<lparr>last_xmit_ts := xlast_xmit_ts\<rparr>) = serial_core s"
  "serial_core (s\<lparr>tsr := xtsr\<rparr>) = serial_core s"
  "serial_core (s\<lparr>thr := xthr\<rparr>) = serial_core s"
  "serial_core (s\<lparr>rbr := xrbr\<rparr>) = serial_core s"
  "serial_core (s\<lparr>scr := xscr\<rparr>) = serial_core s"
  "serial_core (s\<lparr>divider := xdivider\<rparr>) = serial_core s"
  "serial_core (s\<lparr>lcr := xlcr\<rparr>) = serial_core s"
  "serial_core (s\<lparr>mcr := xmcr\<rparr>) = serial_core s"
  "serial_core (s\<lparr>iir := xiir\<rparr>) = serial_core s"
  "serial_core (s\<lparr>ier := xier\<rparr>) = serial_core s"
  "serial_core (s\<lparr>fcr := xfcr\<rparr>) = serial_core s"
  "serial_core (s\<lparr>msr := xmsr\<rparr>) = serial_core s"
  "serial_core (s\<lparr>thr_ipending := xthr_ipending\<rparr>) = serial_core s"
  "serial_core (s\<lparr>timeout_ipending := xtimeout_ipending\<rparr>) = serial_core s"
  "serial_core (s\<lparr>last_break_enable := xlast_break_enable\<rparr>) = serial_core s"
  "serial_core (s\<lparr>char_transmit_time := xchar_transmit_time\<rparr>) = serial_core s"
  "serial_core (s\<lparr>fifo_timeout_timer := xfifo_timeout_timer\<rparr>) = serial_core s"
  "serial_core (s\<lparr>lsr := xlsr\<rparr>) = serial_core s"
  by (simp_all add: serial_core_def)

lemma serial_ok_frame [simp]:
  "serial_ok (s\<lparr>modem_status_poll := x_modem_status_poll\<rparr>) = serial_ok s"
  "serial_ok (s\<lparr>poll_msl := xpoll_msl\<rparr>) = serial_ok s"
  "serial_ok (s\<lparr>last_xmit_ts := xlast_xmit_ts\<rparr>) = serial_ok s"
  "serial_ok (s\<lparr>tsr := xtsr\<rparr>) = serial_ok s"
  "serial_ok (s\<lparr>thr := xthr\<rparr>) = serial_ok s"
  "serial_ok (s\<lparr>rbr := xrbr\<rparr>) = serial_ok s"
  "serial_ok (s\<lparr>scr := xscr\<rparr>) = serial_ok s"
  "serial_ok (s\<lparr>divider := xdivider\<rparr>) = serial_ok s"
  "serial_ok (s\<lparr>lcr := xlcr\<rparr>) = serial_ok s"
  "serial_ok (s\<lparr>mcr := xmcr\<rparr>) = serial_ok s"
  "serial_ok (s\<lparr>iir := xiir\<rparr>) = serial_ok s"
  "serial_ok (s\<lparr>ier := xier\<rparr>) = serial_ok s"
  "serial_ok (s\<lparr>fcr := xfcr\<rparr>) = serial_ok s"
  "serial_ok (s\<lparr>msr := xmsr\<rparr>) = serial_ok s"
  "serial_ok (s\<lparr>thr_ipending := xthr_ipending\<rparr>) = serial_ok s"
  "serial_ok (s\<lparr>timeout_ipending := xtimeout_ipending\<rparr>) = serial_ok s"
  "serial_ok (s\<lparr>last_break_enable := xlast_break_enable\<rparr>) = serial_ok s"
  "serial_ok (s\<lparr>char_transmit_time := xchar_transmit_time\<rparr>) = serial_ok s"
  "serial_ok (s\<lparr>fifo_timeout_timer := xfifo_timeout_timer\<rparr>) = serial_ok s"
  by (simp_all add: serial_ok_def)

lemma serial_update_irq_fst: "fst (serial_update_irq E s w) = s\<lparr>iir := serial_iir s OR (iir s AND 0xF0)\<rparr>"
  by (simp add: serial_update_irq_def Let_def)

lemma serial_update_irq_inv:
  assumes "drives L (sirq E)" and "serial_ok s"
  shows "serial_inv L (serial_update_irq E s w)"
  using assms serial_iir_low [of s "iir s"]
  by (auto simp: serial_inv_def serial_update_irq_def Let_def drives_def qemu_irq_raise_def qemu_irq_lower_def)

lemma fifo_put_core:
  assumes "serial_core s"
  shows "serial_core (fifo_put RECV_FIFO c s)"
  using assms ring_put_wf [of "recv_fifo s" c]
  by (cases "unat (fcount (recv_fifo s)) < 16")
    (auto simp: fifo_put_room fifo_put_def [of _ _ s] Let_def serial_upd_defs ring_put_def)

lemma set_fifo_lsr_id: "(set_fifo k f s)\<lparr>lsr := lsr s\<rparr> = set_fifo k f s"
  by (cases k) (simp_all add: set_fifo_def)

lemma fifo_put_shape: "\<exists>f x. fifo_put k c s = (set_fifo k f s)\<lparr>lsr := x\<rparr> \<and> bit x 5 = bit (lsr s) 5"
proof -
  have "bit (lsr s OR UART_LSR_OE) 5 = bit (lsr s) 5" by (simp add: bit_simps)
  then show ?thesis
    unfolding fifo_put_def Let_def by (metis set_fifo_lsr_id)
qed

lemma fifo_put_lsr5 [simp]: "bit (lsr (fifo_put k c s)) 5 = bit (lsr s) 5"
proof -
  obtain f x where e: "fifo_put k c s = (set_fifo k f s)\<lparr>lsr := x\<rparr>" and b: "bit x 5 = bit (lsr s) 5"
    using fifo_put_shape by blast
  show ?thesis unfolding e by (simp add: b)
qed

lemma fifo_put_fields [simp]:
  "xmit_fifo (fifo_put RECV_FIFO c s) = xmit_fifo s"
  "fcr (fifo_put k c s) = fcr s" "mcr (fifo_put k c s) = mcr s" "lcr (fifo_put k c s) = lcr s"
proof -
  obtain f x where e: "fifo_put k c s = (set_fifo k f s)\<lparr>lsr := x\<rparr>" using fifo_put_shape by blast
  obtain g y where r: "fifo_put RECV_FIFO c s = (set_fifo RECV_FIFO g s)\<lparr>lsr := y\<rparr>" using fifo_put_shape by blast
  show "xmit_fifo (fifo_put RECV_FIFO c s) = xmit_fifo s" unfolding r by (simp add: set_fifo_def)
  show "fcr (fifo_put k c s) = fcr s" "mcr (fifo_put k c s) = mcr s" "lcr (fifo_put k c s) = lcr s"
    unfolding e by (cases k; simp add: set_fifo_def)+
qed

lemma fold_put_core: "serial_core s \<Longrightarrow> serial_core (fold (fifo_put RECV_FIFO) cs s)"
  by (induction cs arbitrary: s) (auto simp: fifo_put_core)

lemma fold_put_fields:
  "xmit_fifo (fold (fifo_put RECV_FIFO) cs s) = xmit_fifo s"
  "bit (lsr (fold (fifo_put RECV_FIFO) cs s)) 5 = bit (lsr s) 5"
  "fcr (fold (fifo_put RECV_FIFO) cs s) = fcr s" "lcr (fold (fifo_put RECV_FIFO) cs s) = lcr s"
  by (induction cs arbitrary: s) (auto simp: fifo_put_fields)

lemma serial_receive1_core:
  "serial_core s \<Longrightarrow> serial_core (fst (serial_receive1 E now buf s w))"
  using fold_put_core [of s buf] by (simp add: serial_receive1_def Let_def serial_update_irq_fst serial_core_def)

lemma serial_receive1_fields:
  "xmit_fifo (fst (serial_receive1 E now buf s w)) = xmit_fifo s"
  "bit (lsr (fst (serial_receive1 E now buf s w))) 5 = bit (lsr s) 5"
  by (simp_all add: serial_receive1_def Let_def serial_update_irq_fst fold_put_fields bit_simps)

lemma serial_receive1_inv:
  assumes "drives L (sirq E)" and "serial_ok s"
  shows "serial_inv L (serial_receive1 E now buf s w)"
proof -
  have "serial_core (fold (fifo_put RECV_FIFO) buf s)" using assms(2) by (simp add: serial_ok_def fold_put_core)
  then show ?thesis
    using assms(2) unfolding serial_receive1_def Let_def
    by (intro serial_update_irq_inv assms(1)) (simp add: serial_ok_def serial_core_def fold_put_fields bit_simps)
qed

lemma serial_receives_inv:
  assumes "drives L (sirq E)" and "serial_inv L r"
  shows "serial_inv L (fold (\<lambda>b (s, w). serial_receive1 E now [b] s w) bufs r)"
  using assms(2)
proof (induction bufs arbitrary: r)
  case (Cons b bufs)
  obtain s w where r: "r = (s, w)" by (cases r)
  have "serial_ok s" using Cons.prems by (simp add: r serial_inv_def)
  then show ?case using Cons.IH [OF serial_receive1_inv [OF assms(1)]] by (simp add: r)
qed simp

lemma chr_keeps_accept:
  "chr_keeps L E \<Longrightarrow> \<exists>now bufs w'. L w' = L w \<and>
     chr_accept_input E (s, w) = fold (\<lambda>b (s, w). serial_receive1 E now [b] s w) bufs (s, w')"
  unfolding chr_keeps_def by (elim conjE allE)

lemma chr_keeps_level:
  assumes "chr_keeps L E"
  shows "L (snd (chr_write E c w)) = L w" "L (chr_set_params E p w) = L w"
    "L (snd (snd (chr_get_tiocm E w))) = L w" "L (chr_set_tiocm E f w) = L w" "L (chr_set_break E b w) = L w"
proof -
  note k = assms [unfolded chr_keeps_def]
  show "L (snd (chr_write E c w)) = L w" using k [THEN conjunct1] by blast
  note k = k [THEN conjunct2]
  show "L (chr_set_params E p w) = L w" using k [THEN conjunct1] by blast
  note k = k [THEN conjunct2]
  show "L (snd (snd (chr_get_tiocm E w))) = L w" using k [THEN conjunct1] by blast
  note k = k [THEN conjunct2]
  show "L (chr_set_tiocm E f w) = L w" using k [THEN conjunct1] by blast
  show "L (chr_set_break E b w) = L w" using k [THEN conjunct2, THEN conjunct1] by blast
qed

lemma serial_accept_inv:
  assumes "drives L (sirq E)" and "chr_keeps L E" and "serial_inv L r"
  shows "serial_inv L (chr_accept_input E r)"
proof -
  obtain s w where r: "r = (s, w)" by (cases r)
  obtain now bufs w' where "L w' = L w"
    and a: "chr_accept_input E (s, w) = fold (\<lambda>b (s, w). serial_receive1 E now [b] s w) bufs (s, w')"
    using chr_keeps_accept [OF assms(2)] by blast
  then have "serial_inv L (s, w')" using assms(3) by (simp add: r serial_inv_def)
  then show ?thesis unfolding r a by (rule serial_receives_inv [OF assms(1)])
qed

lemma serial_update_msl_inv:
  assumes "drives L (sirq E)" and "chr_keeps L E" and "serial_inv L (s, w)"
  shows "serial_inv L (serial_update_msl E now s w)"
proof -
  obtain r fl w1 where g: "chr_get_tiocm E w = (r, fl, w1)" by (cases "chr_get_tiocm E w") auto
  have L: "L w1 = L w" using chr_keeps_level(3) [OF assms(2), of w] g by simp
  have u: "serial_inv L (fst p\<lparr>modem_status_poll := t\<rparr>, snd p)" if "serial_inv L p" for p t
    using that by (simp add: serial_inv_def case_prod_beta)
  have i: "serial_inv L (serial_update_irq E (s\<lparr>modem_status_poll := None, msr := m\<rparr>) w1)" for m
    using assms(3) by (intro serial_update_irq_inv assms(1)) (simp add: serial_inv_def)
  have k: "serial_inv L (s\<lparr>modem_status_poll := None, poll_msl := -1\<rparr>, w1)"
    "serial_inv L (s\<lparr>modem_status_poll := None, msr := msr s\<rparr>, w1)"
    using assms(3) L by (simp_all add: serial_inv_def)
  show ?thesis
    unfolding serial_update_msl_def Let_def g prod.case case_prod_beta
    using u [OF i] i k u [OF k(2)] by simp
qed

lemma serial_ok_xmit_empty: "serial_ok s \<Longrightarrow> fcount (xmit_fifo s) = 0"
  by (simp add: serial_ok_def)

lemma serial_inv_ok: "serial_inv L (s, w) \<Longrightarrow> serial_ok s"
  by (simp add: serial_inv_def)

lemma serial_xmit_done_inv:
  assumes "drives L (sirq E)" and "serial_ok s"
  shows "serial_inv L (serial_xmit_done E now s w)"
proof -
  have l: "lsr s AND UART_LSR_THRE \<noteq> 0" using assms(2) by (simp add: serial_ok_def masks)
  have "serial_ok (s\<lparr>last_xmit_ts := now, lsr := lsr s OR UART_LSR_TEMT, thr_ipending := 1\<rparr>)"
    using assms(2) by (simp add: serial_ok_def bit_simps)
  then show ?thesis using l by (simp add: serial_xmit_done_def Let_def serial_update_irq_inv [OF assms(1)])
qed

text \<open>What the transmitter finds: an empty FIFO, or one byte in it.\<close>

lemma serial_fetch_ok:
  assumes "serial_core s" and "fcount (xmit_fifo s) = 0 \<or> fcr s AND UART_FCR_FE \<noteq> 0 \<and> fcount (xmit_fifo s) = 1"
  shows "serial_ok (serial_xmit_fetch s)"
proof -
  have t: "tsr_retry s \<le> 0" using assms(1) by (simp add: serial_core_def)
  consider "fcr s AND UART_FCR_FE = 0" "fcount (xmit_fifo s) = 0"
    | "fcr s AND UART_FCR_FE \<noteq> 0" "fcount (xmit_fifo s) = 0"
    | "fcr s AND UART_FCR_FE \<noteq> 0" "fcount (xmit_fifo s) = 1" using assms(2) by blast
  then show ?thesis
  proof cases
    case 1
    then show ?thesis using t assms(1) by (simp add: serial_xmit_fetch_def serial_ok_def bit_simps)
  next
    case 2
    then show ?thesis
      using t assms(1) by (simp add: serial_xmit_fetch_def serial_ok_def bit_simps fifo_get_def get_fifo_def)
  next
    case 3
    then have "fifo_wf (ring_get (xmit_fifo s))" "fcount (ring_get (xmit_fifo s)) = 0"
      using assms(1) ring_get_wf [of "xmit_fifo s"] by (simp_all add: serial_core_def ring_get_def)
    then have "serial_core (set_fifo XMIT_FIFO (ring_get (xmit_fifo s)) s)"
      using assms(1) by (simp add: serial_core_def set_fifo_def)
    then show ?thesis
      using t 3 \<open>fcount (ring_get (xmit_fifo s)) = 0\<close>
      by (simp add: serial_xmit_fetch_def serial_ok_def bit_simps fifo_get_some get_fifo_def set_fifo_def)
  qed
qed

lemma serial_xmit_inv:
  assumes "drives L (sirq E)" and "serial_core s"
    and "fcount (xmit_fifo s) = 0 \<or> fcr s AND UART_FCR_FE \<noteq> 0 \<and> fcount (xmit_fifo s) = 1"
  shows "serial_inv L (serial_xmit E now s w)"
proof -
  let ?s = "serial_xmit_fetch s"
  have ok: "serial_ok ?s" by (rule serial_fetch_ok [OF assms(2,3)])
  have fin: "serial_inv L (serial_xmit_done E now (?s\<lparr>tsr_retry := k\<rparr>) w')" if "k \<le> 0" for k w'
    using ok that by (intro serial_xmit_done_inv assms(1)) (simp add: serial_ok_def serial_core_def)
  have loop: "serial_inv L (serial_xmit_done E now s2 w2)" if "serial_receive1 E now [tsr ?s] ?s w = (s2, w2)" for s2 w2
    using serial_receive1_inv [OF assms(1) ok, of now "[tsr ?s]" w] that
    by (intro serial_xmit_done_inv assms(1)) (auto dest: serial_inv_ok)
  have t: "\<not> tsr_retry ?s > 0" using ok by (simp add: serial_ok_def serial_core_def)
  show ?thesis
    using fin [of 0] fin [of "-1"] serial_xmit_done_inv [OF assms(1) ok, of now] loop t
    by (auto simp: serial_xmit_def Let_def split: prod.splits)
qed

lemma serial_write_thr_inv:
  assumes "drives L (sirq E)" and "serial_ok s"
  shows "serial_inv L (serial_write_thr E now val s w)"
proof (cases "fcr s AND UART_FCR_FE = 0")
  case True
  then show ?thesis
    using assms(2)
    by (simp add: serial_write_thr_def Let_def case_prod_beta serial_update_irq_fst serial_ok_def
        serial_xmit_inv [OF assms(1)])
next
  case False
  have x: "fcount (xmit_fifo s) = 0" "fifo_wf (xmit_fifo s)" "serial_core s"
    using assms(2) by (simp_all add: serial_ok_def serial_core_def)
  then have w: "fifo_wf (ring_put c (xmit_fifo s))" "fcount (ring_put c (xmit_fifo s)) = 1" for c
    using ring_put_wf [of "xmit_fifo s" c] by (simp_all add: ring_put_def)
  have p: "fifo_put XMIT_FIFO c (s\<lparr>thr := y\<rparr>) = s\<lparr>thr := y, xmit_fifo := ring_put c (xmit_fifo s)\<rparr>" for c y
    using x(1) by (simp add: fifo_put_room get_fifo_def set_fifo_def)
  show ?thesis
    using x(3) w False
    by (simp add: serial_write_thr_def Let_def case_prod_beta serial_update_irq_fst p)
      (intro serial_xmit_inv assms(1); simp add: serial_core_def)
qed

lemma serial_update_parameters_inv:
  assumes "chr_keeps L E" and "serial_inv L (s, w)"
  shows "\<exists>r. serial_update_parameters E s w = Some r \<and> serial_inv L r"
proof (cases "divider s = 0")
  case True
  then show ?thesis using assms(2) by (simp add: serial_update_parameters_def)
next
  case False
  have b: "65535 \<le> baudbase s" using assms(2) by (simp add: serial_inv_def serial_ok_def serial_core_def)
  have d: "0 < uint (divider s)" "uint (divider s) \<le> 65535"
    using False unat_less [of "divider s"] uint_lt2p [of "divider s"] by (simp_all add: word_neq_0_conv word_less_def)
  have "baudbase s sdiv uint (divider s) = baudbase s div uint (divider s)"
    using b d by (simp add: signed_divide_int_def sgn_if)
  also have "\<dots> \<ge> 1" using b d by (simp add: pos_imp_zdiv_pos_iff flip: zle_add1_eq_le)
  finally have "baudbase s sdiv uint (divider s) \<noteq> 0" by simp
  then show ?thesis
    using False assms(2) chr_keeps_level(2) [OF assms(1)]
    by (simp add: serial_update_parameters_def Let_def serial_inv_def)
qed

lemma serial_update_msl_ok:
  assumes "serial_ok s"
  shows "serial_ok (fst (serial_update_msl E now s w))"
  using assms by (simp add: serial_update_msl_def Let_def case_prod_beta serial_update_irq_fst)

lemma serial_write_ier_inv:
  assumes "drives L (sirq E)" and "chr_keeps L E" and "serial_inv L (s, w)"
  shows "serial_inv L (serial_write_ier E now val s w)"
proof -
  have ok: "serial_ok s" using assms(3) by (rule serial_inv_ok)
  have fin: "serial_inv L (if lsr s2 AND UART_LSR_THRE \<noteq> 0 then serial_update_irq E (s2\<lparr>thr_ipending := 1\<rparr>) w2 else (s2, w2))"
    if "serial_ok s2" for s2 w2
    using that by (simp add: serial_update_irq_inv [OF assms(1)]) (simp add: serial_ok_def masks)
  have m: "serial_ok (fst (serial_update_msl E now (s\<lparr>ier := i, poll_msl := 1\<rparr>) w))" for i
    using serial_update_msl_ok [of "s\<lparr>ier := i, poll_msl := 1\<rparr>" E now w] ok by simp
  show ?thesis
    unfolding serial_write_ier_def Let_def case_prod_beta by (rule fin) (use ok m in simp)
qed

lemma fifo_clear_ok:
  assumes "serial_ok s"
  shows "serial_ok (fifo_clear k s)"
  using assms by (cases k) (simp_all add: fifo_clear_def serial_ok_def serial_core_def get_fifo_def set_fifo_def fifo_wf_def)

lemma set_itl_ok:
  "serial_ok s \<Longrightarrow> serial_ok (s\<lparr>recv_fifo := set_itl v (recv_fifo s)\<rparr>)"
  by (auto simp: set_itl_def Let_def serial_ok_def serial_core_def fifo_wf_def)

lemma serial_write_fcr_inv:
  assumes "drives L (sirq E)" and "serial_inv L (s, w)"
  shows "serial_inv L (serial_write_fcr E val s w)"
proof -
  have ok: "serial_ok s" using assms(2) by (rule serial_inv_ok)
  have u: "serial_ok (s'\<lparr>iir := i, recv_fifo := set_itl v (recv_fifo s')\<rparr>)" if "serial_ok s'" for s' i v
    using set_itl_ok [of "s'\<lparr>iir := i\<rparr>" v] that by simp
  show ?thesis
    using assms(2) ok
    by (auto simp: serial_write_fcr_def Let_def fifo_clear_ok u intro!: serial_update_irq_inv assms(1))
qed

lemma serial_write_lcr_inv:
  assumes "chr_keeps L E" and "serial_inv L (s, w)"
  shows "\<exists>r. serial_write_lcr E val s w = Some r \<and> serial_inv L r"
proof -
  have "serial_inv L (s\<lparr>lcr := ucast val\<rparr>, w)" using assms(2) by (simp add: serial_inv_def)
  from serial_update_parameters_inv [OF assms(1) this] obtain s1 w1
    where "serial_update_parameters E (s\<lparr>lcr := ucast val\<rparr>) w = Some (s1, w1)" "serial_inv L (s1, w1)" by auto
  then show ?thesis
    using chr_keeps_level(5) [OF assms(1)] by (simp add: serial_write_lcr_def Let_def serial_inv_def)
qed

lemma serial_write_mcr_inv:
  assumes "chr_keeps L E" and "serial_inv L (s, w)"
  shows "serial_inv L (serial_write_mcr E now val s w)"
proof -
  have "L (chr_set_tiocm E f (snd (snd (chr_get_tiocm E w)))) = L w" for f
    using chr_keeps_level(3,4) [OF assms(1)] by simp
  then show ?thesis
    using assms(2) by (simp add: serial_write_mcr_def Let_def case_prod_beta serial_inv_def)
qed

lemma serial_ioport_write_inv:
  assumes "drives L (sirq E)" and "chr_keeps L E" and "serial_inv L (s, w)"
  shows "\<exists>r. serial_ioport_write E now addr val s w = Some r \<and> serial_inv L r"
proof -
  have d: "serial_inv L (s\<lparr>divider := v\<rparr>, w)" "serial_inv L (s\<lparr>scr := v'\<rparr>, w)" for v v'
    using assms(3) by (simp_all add: serial_inv_def)
  show ?thesis
    unfolding serial_ioport_write_def Let_def
    using serial_update_parameters_inv [OF assms(2) d(1)] d(2) serial_write_lcr_inv [OF assms(2,3)]
      serial_write_thr_inv [OF assms(1) serial_inv_ok [OF assms(3)]] serial_write_ier_inv [OF assms]
      serial_write_fcr_inv [OF assms(1,3)] serial_write_mcr_inv [OF assms(2,3)] assms(3)
    by (simp del: split_paired_Ex)
qed

lemma fifo_get_none: "fcount (get_fifo k s) = 0 \<Longrightarrow> fifo_get k s = (0, s)"
  by (simp add: fifo_get_def Let_def)

lemma ring_get_itl [simp]: "itl (ring_get f) = itl f"
  by (simp add: ring_get_def)

lemma serial_read_rbr_inv:
  assumes "drives L (sirq E)" and "chr_keeps L E" and "serial_ok s"
  shows "serial_inv L (snd (serial_read_rbr E now s w))"
proof -
  have u: "serial_inv L (serial_update_irq E s1 w)" if "serial_ok s1" for s1
    using that by (rule serial_update_irq_inv [OF assms(1)])
  have g: "serial_ok (snd (fifo_get RECV_FIFO s))"
    using assms(3) ring_get_wf [of "recv_fifo s"]
    by (cases "fcount (recv_fifo s) = 0")
      (simp_all add: fifo_get_none get_fifo_def fifo_get_some serial_ok_def serial_core_def set_fifo_def)
  have l: "serial_ok (s'\<lparr>lsr := lsr s' AND NOT (UART_LSR_DR OR UART_LSR_BI)\<rparr>)" if "serial_ok s'" for s'
    using that by (simp add: serial_ok_def bit_simps)
  have "serial_inv L (serial_update_irq E s1 w)" if "s1 =
     (if fcr s AND UART_FCR_FE \<noteq> 0 then
        (let s' = snd (fifo_get RECV_FIFO s) in
         (if fcount (recv_fifo s') = 0 then s'\<lparr>lsr := lsr s' AND NOT (UART_LSR_DR OR UART_LSR_BI)\<rparr>
          else s'\<lparr>fifo_timeout_timer := Some (now + char_transmit_time s' * 4)\<rparr>)\<lparr>timeout_ipending := 0\<rparr>)
      else s\<lparr>lsr := lsr s AND NOT (UART_LSR_DR OR UART_LSR_BI)\<rparr>)" for s1
    using that by (intro u) (simp add: Let_def g l [simplified] assms(3))
  note i = this [OF refl, unfolded Let_def]
  show ?thesis
    using i serial_accept_inv [OF assms(1,2) i]
    by (simp add: serial_read_rbr_def Let_def case_prod_beta if_distrib [of fst] if_distrib [of snd] cong: if_cong)
qed

lemma serial_ioport_read_inv:
  assumes "drives L (sirq E)" and "chr_keeps L E" and "serial_inv L (s, w)"
  shows "serial_inv L (snd (serial_ioport_read E now addr s w))"
proof -
  have ok: "serial_ok s" using assms(3) by (rule serial_inv_ok)
  have u: "serial_inv L (serial_update_irq E s1 w1)" if "serial_ok s1" for s1 w1
    using that by (rule serial_update_irq_inv [OF assms(1)])
  have l: "serial_ok (s\<lparr>lsr := lsr s AND NOT (UART_LSR_BI OR UART_LSR_OE)\<rparr>)"
    using ok by (simp add: serial_ok_def bit_simps)
  have m: "serial_inv L (snd (serial_read_msr E now s w))"
    using serial_update_msl_inv [OF assms, of now] serial_update_msl_ok [OF ok, of E now w] assms(3) ok
    by (simp add: serial_read_msr_def Let_def case_prod_beta u)
  show ?thesis
    unfolding serial_ioport_read_def Let_def
    using assms(3) m serial_read_rbr_inv [OF assms(1,2) ok] u [OF l] u ok
    by simp
qed

lemma serial_event_inv:
  assumes "drives L (sirq E)" and "serial_inv L (s, w)"
  shows "serial_inv L (serial_event E e s w)"
proof -
  have "serial_core (fifo_put RECV_FIFO 0 (s\<lparr>rbr := 0\<rparr>))" "bit (lsr s) 5" "fcount (xmit_fifo s) = 0"
    using assms(2) by (simp_all add: fifo_put_core serial_inv_def serial_ok_def)
  then have "serial_inv L (serial_receive_break E s w)"
    unfolding serial_receive_break_def Let_def
    by (intro serial_update_irq_inv assms(1)) (simp add: serial_ok_def bit_simps)
  then show ?thesis using assms(2) by (simp add: serial_event_def)
qed

lemma serial_reset_inv:
  assumes "drives L (sirq E)" and "serial_core s"
  shows "serial_inv L (serial_reset E now s w)"
proof -
  let ?s = "fst (serial_reset E now s w)"
  have "serial_ok ?s"
    using assms(2)
    by (simp add: serial_reset_def Let_def fifo_clear_def get_fifo_def set_fifo_def serial_ok_def serial_core_def fifo_wf_def bit_simps)
  moreover have "serial_iir ?s = UART_IIR_NO_INT" "iir ?s = UART_IIR_NO_INT"
    by (simp_all add: serial_reset_def Let_def fifo_clear_def get_fifo_def set_fifo_def serial_iir_def)
  moreover have "\<not> L (snd (serial_reset E now s w))"
    using assms(1) by (simp add: serial_reset_def Let_def drives_def qemu_irq_lower_def)
  ultimately show ?thesis by (simp add: serial_inv_def case_prod_beta)
qed

lemma serial_step_inv:
  assumes "drives L (sirq E)" and "chr_keeps L E" and "serial_inv L (s, w)" and "serial_op_ok op"
  shows "\<exists>r. serial_step E (Some (s, w)) op = Some r \<and> serial_inv L r"
proof -
  have ok: "serial_ok s" using assms(3) by (rule serial_inv_ok)
  then have core: "serial_core s" and t: "transmit_timer s = None" by (simp_all add: serial_ok_def serial_core_def)
  have f: "serial_inv L (s\<lparr>baudbase := b\<rparr>, w)" if "65535 \<le> b" for b
    using assms(3) that by (simp add: serial_inv_def serial_ok_def serial_core_def)
  show ?thesis
    using assms(3,4) ok t serial_ioport_write_inv [OF assms(1-3)] serial_ioport_read_inv [OF assms(1-3)]
      serial_receive1_inv [OF assms(1) ok] serial_event_inv [OF assms(1,3)] serial_update_msl_inv [OF assms(1-3)]
      serial_reset_inv [OF assms(1) core] serial_update_parameters_inv [OF assms(2) f]
    by (cases op) (simp_all add: fifo_timeout_int_def serial_set_frequency_def serial_update_irq_inv [OF assms(1)] del: split_paired_Ex)
qed

interpretation uart: device "serial_step E" serial_op_ok
    "\<lambda>r. drives L (sirq E) \<and> chr_keeps L E \<longrightarrow> (\<exists>x. r = Some x \<and> serial_inv L x)" for E L
proof
  fix r op
  assume "drives L (sirq E) \<and> chr_keeps L E \<longrightarrow> (\<exists>x. r = Some x \<and> serial_inv L x)" and op: "serial_op_ok op"
  then show "drives L (sirq E) \<and> chr_keeps L E \<longrightarrow> (\<exists>x. serial_step E r op = Some x \<and> serial_inv L x)"
    using serial_step_inv [OF _ _ _ op] by (auto simp del: split_paired_Ex)
qed

lemma serial_new_core: "serial_core serial_new"
  by (simp add: serial_core_def serial_new_def fifo_wf_def fifo_zero_def)

lemma serial_run_inv:
  assumes "drives L (sirq E)" and "chr_keeps L E" and "list_all serial_op_ok ops"
  shows "\<exists>r. serial_run E t0 w0 ops = Some r \<and> serial_inv L r"
  using uart.run_inv [OF _ assms(3), of L E "Some (serial_reset E t0 serial_new w0)"] assms(1,2)
    serial_reset_inv [OF assms(1) serial_new_core, of t0 w0]
  by (auto simp: serial_run_def simp del: split_paired_Ex)

lemma serial_update_irq_world: "\<exists>l. snd (serial_update_irq E s w) = qemu_set_irq (sirq E) l w"
  by (auto simp: serial_update_irq_def Let_def qemu_irq_raise_def qemu_irq_lower_def)

lemma serial_xmit_done_world:
  "serial_ok s \<Longrightarrow> \<exists>l. snd (serial_xmit_done E now s w) = qemu_set_irq (sirq E) l w"
  using serial_update_irq_world by (simp add: serial_xmit_done_def Let_def serial_ok_def masks)

lemma serial_xmit_world:
  assumes "serial_ok (serial_xmit_fetch s)" and "mcr (serial_xmit_fetch s) AND UART_MCR_LOOP = 0"
  shows "\<exists>l. snd (serial_xmit E now s w) = qemu_set_irq (sirq E) l (snd (chr_write E (tsr (serial_xmit_fetch s)) w))"
proof -
  let ?s = "serial_xmit_fetch s"
  have t: "\<not> tsr_retry ?s > 0" using assms(1) by (simp add: serial_ok_def serial_core_def)
  have d: "\<exists>l. snd (serial_xmit_done E now (?s\<lparr>tsr_retry := k\<rparr>) w') = qemu_set_irq (sirq E) l w'" if "k \<le> 0" for k w'
    using assms(1) that by (intro serial_xmit_done_world) (simp add: serial_ok_def serial_core_def)
  show ?thesis
    using t d [of 0] d [of "-1"] serial_xmit_done_world [OF assms(1), of E now] assms(2)
    by (simp add: serial_xmit_def Let_def case_prod_beta)
qed

lemma serial_fetch_one:
  assumes "tsr_retry s \<le> 0" and "fcr s AND UART_FCR_FE \<noteq> 0" and "fifo_list (xmit_fifo s) = [c]" and "fifo_wf (xmit_fifo s)"
  shows "tsr (serial_xmit_fetch s) = c"
proof -
  have "fcount (xmit_fifo s) \<noteq> 0" using assms(3) by (metis fifo_list_Nil list.distinct(1))
  then show ?thesis
    using assms ring_get_list [of "xmit_fifo s"]
    by (simp add: serial_xmit_fetch_def fifo_get_some get_fifo_def set_fifo_def Let_def)
qed

lemma serial_fetch_mcr [simp]: "mcr (serial_xmit_fetch s) = mcr s"
  by (simp add: serial_xmit_fetch_def Let_def case_prod_beta fifo_get_def set_fifo_def get_fifo_def)

lemma serial_write_thr_xmit:
  assumes "serial_ok s"
  obtains s' l where "serial_write_thr E now val s w = serial_xmit E now s' (qemu_set_irq (sirq E) l w)"
    and "serial_ok (serial_xmit_fetch s')" and "tsr (serial_xmit_fetch s') = ucast val" and "mcr s' = mcr s"
    and "fcr s' = fcr s" and "recv_fifo s' = recv_fifo s"
proof -
  define s1 where "s1 = (if fcr s AND UART_FCR_FE \<noteq> 0
     then s\<lparr>thr := ucast val, xmit_fifo := ring_put (ucast val) (xmit_fifo s), thr_ipending := 0,
            lsr := lsr s AND NOT UART_LSR_TEMT AND NOT UART_LSR_THRE\<rparr>
     else s\<lparr>thr := ucast val, thr_ipending := 0, lsr := lsr s AND NOT UART_LSR_THRE\<rparr>)"
  have x: "fcount (xmit_fifo s) = 0" "fifo_wf (xmit_fifo s)" "serial_core s"
    using assms(1) by (simp_all add: serial_ok_def serial_core_def)
  then have w: "fifo_wf (ring_put c (xmit_fifo s))" "fcount (ring_put c (xmit_fifo s)) = 1"
    "fifo_list (ring_put c (xmit_fifo s)) = [c]" for c
    using ring_put_wf [of "xmit_fifo s" c] ring_put_list [of "xmit_fifo s" c] by (simp_all add: ring_put_def)
  have p: "fifo_put XMIT_FIFO c (s\<lparr>thr := y\<rparr>) = s\<lparr>thr := y, xmit_fifo := ring_put c (xmit_fifo s)\<rparr>" for c y
    using x(1) by (simp add: fifo_put_room get_fifo_def set_fifo_def)
  let ?s = "fst (serial_update_irq E s1 w)"
  have e: "serial_write_thr E now val s w = serial_xmit E now ?s (snd (serial_update_irq E s1 w))"
    by (simp add: serial_write_thr_def Let_def case_prod_beta p s1_def)
  have ok: "serial_ok (serial_xmit_fetch ?s)"
    by (rule serial_fetch_ok) (use x w in \<open>auto simp: serial_update_irq_fst s1_def serial_core_def\<close>)
  have t: "tsr (serial_xmit_fetch ?s) = ucast val"
  proof (cases "fcr s AND UART_FCR_FE = 0")
    case True
    then show ?thesis using x(3) by (simp add: serial_update_irq_fst s1_def serial_xmit_fetch_def serial_core_def)
  next
    case False
    then show ?thesis
      using x w by (intro serial_fetch_one) (simp_all add: serial_update_irq_fst s1_def serial_core_def)
  qed
  obtain l where l: "snd (serial_update_irq E s1 w) = qemu_set_irq (sirq E) l w" using serial_update_irq_world [of E s1 w] by metis
  show ?thesis by (rule that [OF e [unfolded l] ok t]) (simp_all add: serial_update_irq_fst s1_def)
qed

lemma serial_write_thr_world:
  assumes "serial_ok s" and "mcr s AND UART_MCR_LOOP = 0"
  shows "\<exists>l1 l2. snd (serial_write_thr E now val s w) =
     qemu_set_irq (sirq E) l2 (snd (chr_write E (ucast val) (qemu_set_irq (sirq E) l1 w)))"
proof -
  obtain s' l where "serial_write_thr E now val s w = serial_xmit E now s' (qemu_set_irq (sirq E) l w)"
    "serial_ok (serial_xmit_fetch s')" "tsr (serial_xmit_fetch s') = ucast val" "mcr s' = mcr s"
    using serial_write_thr_xmit [OF assms(1)] by metis
  then show ?thesis using serial_xmit_world [of s' E now "qemu_set_irq (sirq E) l w"] assms(2) by force
qed

lemma serial_fetch_receiver [simp]:
  "fcr (serial_xmit_fetch s) = fcr s" "recv_fifo (serial_xmit_fetch s) = recv_fifo s"
  by (simp_all add: serial_xmit_fetch_def Let_def case_prod_beta fifo_get_def set_fifo_def get_fifo_def)

lemma serial_xmit_done_receiver:
  "recv_fifo (fst (serial_xmit_done E now s w)) = recv_fifo s" "rbr (fst (serial_xmit_done E now s w)) = rbr s"
  "bit (lsr (fst (serial_xmit_done E now s w))) 0 = bit (lsr s) 0"
  by (simp_all add: serial_xmit_done_def Let_def serial_update_irq_fst bit_simps)

lemma serial_receive_fifo:
  assumes "fcr s AND UART_FCR_FE \<noteq> 0" and "fifo_wf (recv_fifo s)" and "unat (fcount (recv_fifo s)) + length buf \<le> 16"
  shows "fifo_list (recv_fifo (fst (serial_receive1 E now buf s w))) = fifo_list (recv_fifo s) @ buf"
    "fifo_wf (recv_fifo (fst (serial_receive1 E now buf s w)))"
    "fcr (fst (serial_receive1 E now buf s w)) = fcr s" "lcr (fst (serial_receive1 E now buf s w)) = lcr s"
  using sfifo.puts_abs [of RECV_FIFO s buf] assms
  by (simp_all add: serial_receive1_def Let_def serial_update_irq_fst get_fifo_def fold_put_fields)

lemma serial_receive1_one:
  assumes "serial_ok s"
  shows "\<exists>l. snd (serial_receive1 E now [c] s w) = qemu_set_irq (sirq E) l w"
    and "serial_ok (fst (serial_receive1 E now [c] s w))" and "bit (lsr (fst (serial_receive1 E now [c] s w))) 0"
    and "fcr s AND UART_FCR_FE = 0 \<Longrightarrow> rbr (fst (serial_receive1 E now [c] s w)) = c"
    and "fcr s AND UART_FCR_FE \<noteq> 0 \<Longrightarrow> fcount (recv_fifo s) < 16 \<Longrightarrow>
      fifo_list (recv_fifo (fst (serial_receive1 E now [c] s w))) = fifo_list (recv_fifo s) @ [c]"
proof -
  show "\<exists>l. snd (serial_receive1 E now [c] s w) = qemu_set_irq (sirq E) l w"
    by (simp add: serial_receive1_def Let_def serial_update_irq_world)
  show "serial_ok (fst (serial_receive1 E now [c] s w))"
    using assms serial_receive1_core [of s E now "[c]" w] by (simp add: serial_ok_def serial_receive1_fields)
  show "bit (lsr (fst (serial_receive1 E now [c] s w))) 0"
    by (simp add: serial_receive1_def Let_def serial_update_irq_fst bit_simps)
  show "rbr (fst (serial_receive1 E now [c] s w)) = c" if "fcr s AND UART_FCR_FE = 0"
    using that by (simp add: serial_receive1_def Let_def serial_update_irq_fst)
  show "fifo_list (recv_fifo (fst (serial_receive1 E now [c] s w))) = fifo_list (recv_fifo s) @ [c]"
    if "fcr s AND UART_FCR_FE \<noteq> 0" "fcount (recv_fifo s) < 16"
    using serial_receive_fifo(1) [of s "[c]" E now w] that assms
    by (simp add: serial_ok_def serial_core_def word_less_nat_alt)
qed

lemma serial_write_thr_loop:
  assumes "serial_ok s" and "mcr s AND UART_MCR_LOOP \<noteq> 0"
  shows "\<exists>ls. snd (serial_write_thr E now val s w) = fold (qemu_set_irq (sirq E)) ls w"
    and "bit (lsr (fst (serial_write_thr E now val s w))) 0"
    and "fcr s AND UART_FCR_FE = 0 \<Longrightarrow> rbr (fst (serial_write_thr E now val s w)) = ucast val"
    and "fcr s AND UART_FCR_FE \<noteq> 0 \<Longrightarrow> fcount (recv_fifo s) < 16 \<Longrightarrow>
      fifo_list (recv_fifo (fst (serial_write_thr E now val s w))) = fifo_list (recv_fifo s) @ [ucast val]"
proof -
  obtain s' l where s: "serial_write_thr E now val s w = serial_xmit E now s' (qemu_set_irq (sirq E) l w)"
    "serial_ok (serial_xmit_fetch s')" "tsr (serial_xmit_fetch s') = ucast val" "mcr s' = mcr s" "fcr s' = fcr s"
    "recv_fifo s' = recv_fifo s"
    using serial_write_thr_xmit [OF assms(1)] by metis
  define r where "r = serial_receive1 E now [ucast val] (serial_xmit_fetch s') (qemu_set_irq (sirq E) l w)"
  have x: "serial_write_thr E now val s w = serial_xmit_done E now (fst r) (snd r)"
    using s assms(2) by (simp add: serial_xmit_def Let_def case_prod_beta r_def)
  note one = serial_receive1_one [OF s(2), of E now "ucast val" "qemu_set_irq (sirq E) l w", folded r_def]
  obtain l2 l3 where "snd r = qemu_set_irq (sirq E) l2 (qemu_set_irq (sirq E) l w)"
    "snd (serial_xmit_done E now (fst r) (snd r)) = qemu_set_irq (sirq E) l3 (snd r)"
    using one(1) serial_xmit_done_world [OF one(2), of E now "snd r"] by blast
  then show "\<exists>ls. snd (serial_write_thr E now val s w) = fold (qemu_set_irq (sirq E)) ls w"
    by (intro exI [of _ "[l, l2, l3]"]) (simp add: x)
  show "bit (lsr (fst (serial_write_thr E now val s w))) 0" using one(3) by (simp add: x serial_xmit_done_receiver)
  show "rbr (fst (serial_write_thr E now val s w)) = ucast val" if "fcr s AND UART_FCR_FE = 0"
    using one(4) s(5) that by (simp add: x serial_xmit_done_receiver)
  show "fifo_list (recv_fifo (fst (serial_write_thr E now val s w))) = fifo_list (recv_fifo s) @ [ucast val]"
    if "fcr s AND UART_FCR_FE \<noteq> 0" "fcount (recv_fifo s) < 16"
    using one(5) s(5,6) that by (simp add: x serial_xmit_done_receiver)
qed

text \<open>
  C20.  Transmission: whatever accesses and events the port has seen since reset, writing the
  transmit register hands exactly that byte on, once and at once.  With the loopback bit of the
  modem control register clear it goes to the character device, between two updates of the pin.
  With the bit set nothing reaches the character device; the byte comes in at the port's own
  receiver, which shows data ready: in the receive register, or with the FIFOs enabled at the end
  of a receive FIFO that has room.  In both modes the transmitter is empty again afterwards, and
  no retry is ever scheduled: the retry counter never becomes positive, so a byte the character
  device refuses is lost although the code means to retry it \<open>MAX_XMIT_RETRY\<close> times.
\<close>

theorem serial_transmits_at_once:
  assumes "drives L (sirq E)" and "chr_keeps L E" and "list_all serial_op_ok ops"
    and "serial_run E t0 w0 ops = Some (s, w)"
    and "addr AND 7 = 0" and "lcr s AND UART_LCR_DLAB = 0"
  shows "\<exists>s' w'. serial_ioport_write E now addr val s w = Some (s', w') \<and>
     (if mcr s AND UART_MCR_LOOP = 0
      then \<exists>l1 l2. w' = qemu_set_irq (sirq E) l2 (snd (chr_write E (ucast val) (qemu_set_irq (sirq E) l1 w)))
      else (\<exists>ls. w' = fold (qemu_set_irq (sirq E)) ls w) \<and> bit (lsr s') 0 \<and>
        (if fcr s AND UART_FCR_FE = 0 then rbr s' = ucast val
         else fcount (recv_fifo s) < 16 \<longrightarrow> fifo_list (recv_fifo s') = fifo_list (recv_fifo s) @ [ucast val])) \<and>
     fifo_list (xmit_fifo s') = [] \<and> bit (lsr s') 5 \<and> tsr_retry s' \<le> 0 \<and> transmit_timer s' = None"
proof -
  have ok: "serial_ok s" using serial_run_inv [OF assms(1-3), of t0 w0] assms(4) by (auto dest: serial_inv_ok)
  have "serial_ioport_write E now addr val s w = Some (serial_write_thr E now val s w)"
    using assms(5,6) by (simp add: serial_ioport_write_def)
  moreover have "serial_inv L (serial_write_thr E now val s w)" by (rule serial_write_thr_inv [OF assms(1) ok])
  then have "serial_ok (fst (serial_write_thr E now val s w))" by (auto simp: serial_inv_def case_prod_beta)
  ultimately show ?thesis
    using serial_write_thr_world [OF ok, of E now val w] serial_write_thr_loop [OF ok, of E now val w]
    by (intro exI [of _ "fst (serial_write_thr E now val s w)"] exI [of _ "snd (serial_write_thr E now val s w)"])
      (simp add: serial_ok_def serial_core_def)
qed

lemma log_uart_env: "drives fst (sirq (log_uart r))" "chr_keeps fst (log_uart r)"
proof -
  have "\<exists>bufs w'. fst w' = fst w \<and> (s, w) = fold (\<lambda>b (s, w). serial_receive1 (log_uart r) now [b] s w) bufs (s, w')"
    for s w and now :: u64
    by (rule exI [of _ "[]"], rule exI [of _ w]) simp
  then show "chr_keeps fst (log_uart r)" unfolding chr_keeps_def by (simp add: log_uart_def del: split_paired_Ex split_paired_All)
qed (simp add: drives_def log_uart_def qemu_set_irq_def)

lemma serial_run_Nil: "serial_run E t0 w0 [] = Some (serial_reset E t0 serial_new w0)"
  by (simp add: serial_run_def)

lemma serial_reset_lines:
  "lcr (fst (serial_reset E t s w)) = 0" "mcr (fst (serial_reset E t s w)) = UART_MCR_OUT2"
  "snd (serial_reset E t s w) = qemu_irq_lower (sirq E) w"
  by (simp_all add: serial_reset_def Let_def fifo_clear_def get_fifo_def set_fifo_def)

theorem serial_transmits_at_once_witness:
  "(\<exists>s' w'. serial_ioport_write (log_uart 0) 7 0x3f8 0x41 (fst (serial_reset (log_uart 0) 0 serial_new (True, [])))
      (False, []) = Some (s', w') \<and> snd w' = [0x41] \<and> transmit_timer s' = None) \<and>
   (\<exists>s' w'. serial_ioport_write (log_uart 0) 7 0x3f8 0x41
      ((fst (serial_reset (log_uart 0) 0 serial_new (True, [])))\<lparr>mcr := 0x10\<rparr>)
      (False, []) = Some (s', w') \<and> rbr s' = 0x41 \<and> bit (lsr s') 0)"
proof -
  let ?r = "serial_reset (log_uart 0) 0 serial_new (True, [])"
  have w: "snd ?r = (False, [])" by (simp add: serial_reset_lines qemu_irq_lower_def qemu_set_irq_def log_uart_def)
  have r: "serial_run (log_uart 0) 0 (True, []) [] = Some (fst ?r, (False, []))"
    using w by (simp add: serial_run_Nil prod_eq_iff)
  have f: "fcr (fst ?r) = 0" by (simp add: serial_reset_def Let_def fifo_clear_def get_fifo_def set_fifo_def serial_new_def)
  have m: "serial_run (log_uart 0) 0 (True, []) [SWrite 5 0x3fc 0x10] = Some ((fst ?r)\<lparr>mcr := 0x10\<rparr>, (False, []))"
    using w by (cases ?r) (simp add: serial_run_def serial_ioport_write_def serial_write_mcr_def)
  show ?thesis
  proof
    show "\<exists>s' w'. serial_ioport_write (log_uart 0) 7 0x3f8 0x41 (fst ?r) (False, []) = Some (s', w') \<and>
        snd w' = [0x41] \<and> transmit_timer s' = None"
      using serial_transmits_at_once [OF log_uart_env _ r, of "0x3f8" 7 "0x41"]
      by (auto simp: serial_reset_lines log_uart_def qemu_set_irq_def)
    show "\<exists>s' w'. serial_ioport_write (log_uart 0) 7 0x3f8 0x41 ((fst ?r)\<lparr>mcr := 0x10\<rparr>) (False, []) = Some (s', w') \<and>
        rbr s' = 0x41 \<and> bit (lsr s') 0"
      using serial_transmits_at_once [OF log_uart_env _ m, of "0x3f8" 7 "0x41"]
      by (auto simp: serial_reset_lines f)
  qed
qed

text \<open>
  C21.  The interrupt pin: after any accesses and events since reset the port is still running (the
  baud rate division never fails), its pin has the level of the pending interrupt, and the low
  bits of the identification register name the pending interrupt of highest priority.
\<close>

theorem serial_pin_shows_pending:
  assumes "drives L (sirq E)" and "chr_keeps L E" and "list_all serial_op_ok ops"
  shows "\<exists>s w. serial_run E t0 w0 ops = Some (s, w) \<and> (L w \<longleftrightarrow> serial_iir s \<noteq> UART_IIR_NO_INT) \<and>
     iir s AND 0x0f = serial_iir s"
  using serial_run_inv [OF assms, of t0 w0] by (auto simp: serial_inv_def)

lemma fold_put_lsr:
  assumes "fifo_wf (recv_fifo s)" and "unat (fcount (recv_fifo s)) + length buf \<le> 16"
  shows "lsr (fold (fifo_put RECV_FIFO) buf s) = lsr s"
  using assms
proof (induction buf arbitrary: s)
  case (Cons b buf)
  then have "fifo_put RECV_FIFO b s = s\<lparr>recv_fifo := ring_put b (recv_fifo s)\<rparr>"
    by (simp add: fifo_put_room get_fifo_def set_fifo_def)
  moreover have "unat (fcount (ring_put b (recv_fifo s))) = Suc (unat (fcount (recv_fifo s)))"
    using Cons.prems by (simp add: ring_put_def unat_succ_small)
  ultimately show ?case using Cons.IH [of "fifo_put RECV_FIFO b s"] Cons.prems by (simp add: ring_put_wf)
qed simp

lemma serial_read_one:
  assumes "chr_accept_input E = (\<lambda>x. x)" and "fcr s AND UART_FCR_FE \<noteq> 0" and "lcr s AND UART_LCR_DLAB = 0"
    and "fcount (recv_fifo s) \<noteq> 0" and "serial_ioport_read E now 0 s w = (v, s', w')"
  shows "v = ucast (fdata (recv_fifo s) (unat (tail (recv_fifo s))))" "recv_fifo s' = ring_get (recv_fifo s)"
    "fcr s' = fcr s" "lcr s' = lcr s" "fcount (recv_fifo s') = 0 \<Longrightarrow> \<not> bit (lsr s') 0"
  using assms
  by (auto simp: serial_ioport_read_def serial_read_rbr_def Let_def case_prod_beta fifo_get_some get_fifo_def
      set_fifo_def serial_update_irq_def bit_simps split: if_splits)

lemma serial_reads_fifo:
  assumes "chr_accept_input E = (\<lambda>x. x)" and "fcr s AND UART_FCR_FE \<noteq> 0" and "lcr s AND UART_LCR_DLAB = 0"
    and "fifo_wf (recv_fifo s)" and "n = unat (fcount (recv_fifo s))"
  shows "fst (serial_reads E now n (s, w)) = map ucast (fifo_list (recv_fifo s)) \<and>
     fifo_list (recv_fifo (fst (snd (serial_reads E now n (s, w))))) = [] \<and>
     (0 < n \<longrightarrow> \<not> bit (lsr (fst (snd (serial_reads E now n (s, w))))) 0)"
  using assms(2-)
proof (induction n arbitrary: s w)
  case 0
  then have "fcount (recv_fifo s) = 0" by (simp add: unat_eq_zero)
  then show ?case using fifo_list_Nil [of "recv_fifo s"] by simp
next
  case (Suc n)
  then have c: "fcount (recv_fifo s) \<noteq> 0" by auto
  obtain v s' w' where r: "serial_ioport_read E now 0 s w = (v, s', w')" by (metis prod_cases3)
  note o = serial_read_one [OF assms(1) Suc.prems(1,2) c r]
  have n: "n = unat (fcount (recv_fifo s'))"
    using Suc.prems(4) c by (simp add: o(2) ring_get_def unat_pred_pos)
  have rec: "serial_reads E now (Suc n) (s, w) =
      (v # fst (serial_reads E now n (s', w')), snd (serial_reads E now n (s', w')))"
    by (simp add: r Let_def case_prod_beta)
  have "fifo_wf (recv_fifo s')" using Suc.prems(3) c by (simp add: o(2) ring_get_wf)
  then have ih: "fst (serial_reads E now n (s', w')) = map ucast (fifo_list (recv_fifo s')) \<and>
     fifo_list (recv_fifo (fst (snd (serial_reads E now n (s', w'))))) = [] \<and>
     (0 < n \<longrightarrow> \<not> bit (lsr (fst (snd (serial_reads E now n (s', w'))))) 0)"
    using Suc.prems(1,2) n o(3,4) by (intro Suc.IH) simp_all
  have "\<not> bit (lsr (fst (snd (serial_reads E now n (s', w'))))) 0"
    using ih o(5) n by (cases n) (simp_all add: unat_eq_zero)
  then show ?case
    unfolding rec using ih ring_get_list [OF Suc.prems(3) c] by (simp add: o(1,2))
qed

text \<open>
  C22.  Reception refines a queue: with the FIFOs enabled, a delivery of at most the number of
  bytes that \<open>serial_can_receive\<close> advertised is never an overrun, and reading the receive
  register then returns the bytes that were waiting followed by the new ones, in order, after
  which no data is ready.
\<close>

theorem serial_receive_read_in_order:
  assumes "drives L (sirq E)" and "chr_keeps L E" and "list_all serial_op_ok ops"
    and "serial_run E t0 w0 ops = Some (s, w)" and "chr_accept_input E = (\<lambda>x. x)"
    and "fcr s AND UART_FCR_FE \<noteq> 0" and "lcr s AND UART_LCR_DLAB = 0"
    and "int (length buf) \<le> serial_can_receive s" and "queued = fifo_list (recv_fifo s) @ buf"
    and "serial_receive1 E now buf s w = (s1, w1)"
    and "serial_reads E now' (length queued) (s1, w1) = (vs, s2, w2)"
  shows "bit (lsr s1) 1 = bit (lsr s) 1 \<and> vs = map ucast queued \<and>
     fifo_list (recv_fifo s2) = [] \<and> (queued \<noteq> [] \<longrightarrow> \<not> bit (lsr s2) 0)"
proof -
  have ok: "fifo_wf (recv_fifo s)" "itl (recv_fifo s) \<le> 14"
    using serial_run_inv [OF assms(1-3), of t0 w0] assms(4)
    by (auto simp: serial_inv_def serial_ok_def serial_core_def)
  have "uint (itl (recv_fifo s)) \<le> 14" using ok(2) by (simp add: word_le_def)
  moreover have "unat (fcount (recv_fifo s)) \<le> 16" using ok(1) by (simp add: fifo_wf_def)
  moreover have "int (length buf) \<le> (if unat (fcount (recv_fifo s)) < 16
      then max 1 (uint (itl (recv_fifo s)) - uint (fcount (recv_fifo s))) else 0)"
    using assms(6,8) unfolding serial_can_receive_def by (auto split: if_splits)
  ultimately have room: "unat (fcount (recv_fifo s)) + length buf \<le> 16"
    using uint_nat [of "fcount (recv_fifo s)"] by (simp only: max_def split: if_splits)
  note f = serial_receive_fifo [OF assms(6) ok(1) room, of E now w, unfolded assms(10) fst_conv]
  have n: "length queued = unat (fcount (recv_fifo s1))" using assms(9) f(1) by (metis length_fifo_list)
  have "lsr s1 = lsr s OR UART_LSR_DR"
    using assms(6,10) fold_put_lsr [OF ok(1) room]
    by (auto simp: serial_receive1_def Let_def serial_update_irq_def split: if_splits)
  then show ?thesis
    using serial_reads_fifo [OF assms(5) _ _ f(2) n, of now' w1] f assms(6,7,9,11)
    by (auto simp: bit_simps)
qed

lemma serial_run_fifo: "serial_run (log_uart 1) 0 (True, []) [SWrite 0 2 1] = Some (fifo_port, (False, []))"
  by (simp add: serial_run_def serial_reset_def Let_def fifo_clear_def get_fifo_def set_fifo_def serial_new_def fifo_zero_def
      serial_ioport_write_def serial_write_fcr_def set_itl_def serial_update_irq_def serial_iir_def fifo_port_def
      log_uart_def qemu_irq_lower_def qemu_set_irq_def)

theorem serial_pin_shows_pending_witness:
  "\<exists>s w. serial_run (log_uart 1) 0 (True, []) [SWrite 0 2 1, SWrite 1 1 2] = Some (s, w) \<and>
     (fst w \<longleftrightarrow> serial_iir s \<noteq> UART_IIR_NO_INT)"
  using serial_pin_shows_pending [OF log_uart_env, of "[SWrite 0 2 1, SWrite 1 1 2]" 1 0 "(True, [])"] by auto

theorem serial_receive_read_in_order_witness:
  "let (s1, w1) = serial_receive1 (log_uart 1) 5 [0x41] fifo_port (False, []);
       (vs, s2, w2) = serial_reads (log_uart 1) 6 1 (s1, w1)
   in vs = [0x41] \<and> \<not> bit (lsr s2) 0"
proof -
  have c: "int (length [0x41 :: u8]) \<le> serial_can_receive fifo_port" "fcr fifo_port AND UART_FCR_FE \<noteq> 0"
    "lcr fifo_port AND UART_LCR_DLAB = 0" "[0x41] = fifo_list (recv_fifo fifo_port) @ [0x41]"
    by (simp_all add: serial_can_receive_def fifo_port_def serial_new_def fifo_zero_def)
  have a: "chr_accept_input (log_uart 1) = (\<lambda>x. x)" "list_all serial_op_ok [SWrite 0 2 1]" by (simp_all add: log_uart_def)
  obtain s1 w1 where r: "serial_receive1 (log_uart 1) 5 [0x41] fifo_port (False, []) = (s1, w1)" by (metis surj_pair)
  obtain vs s2 w2 where v: "serial_reads (log_uart 1) 6 (length [0x41 :: u8]) (s1, w1) = (vs, s2, w2)" by (metis prod_cases3)
  have "vs = [0x41] \<and> \<not> bit (lsr s2) 0"
    using serial_receive_read_in_order [OF log_uart_env a(2) serial_run_fifo a(1) c(2,3,1,4) r v] by simp
  then show ?thesis using v by (simp only: r Let_def prod.case list.size One_nat_def add_0) simp
qed

text \<open>
  Reset does not clear the FIFO control register.  A guest that enables the FIFOs again with the
  same value finds them reported as disabled: the write is ignored because the value is unchanged.
\<close>

lemma serial_reset_keeps_fifo_control:
  assumes "fcr s = 1"
  shows "fcr (fst (serial_reset E t s w)) = 1"
    "serial_ioport_write E now 2 1 (fst (serial_reset E t s w)) w' = Some (fst (serial_reset E t s w), w')"
    "iir (fst (serial_reset E t s w)) AND UART_IIR_FE = 0"
  using assms
  by (simp_all add: serial_reset_def Let_def fifo_clear_def get_fifo_def set_fifo_def serial_ioport_write_def serial_write_fcr_def)

context irq_lines
begin

lemma drives_pin: "valid n \<Longrightarrow> drives (level_of n) (pin n)"
  by (simp add: drives_def level_set)

end

end
