(* ===== verification/I8254.thy ===== *)
theory I8254
  imports Irq "HOL-Library.Monad_Syntax"
begin

text \<open>
  The 8254 interval timer (\<^verbatim>\<open>hw/i8254.c\<close>) and the scaling function \<^verbatim>\<open>muldiv64\<close> of
  \<^verbatim>\<open>qemu-common.h\<close> that converts between its ticks and nanoseconds.  Times are 64-bit words in
  nanoseconds, \<open>now\<close> is the clock.  A channel whose \<open>has_timer\<close> is false has no \<^verbatim>\<open>irq_timer\<close>;
  otherwise \<open>irq_timer\<close> is the time it expires at.  \<open>None\<close> as the result of an operation is a
  division by a zero count, or an access outside the three channels.
\<close>

section \<open>Model\<close>

abbreviation (input) PIT_FREQ :: u32 where "PIT_FREQ \<equiv> 1193182"
abbreviation (input) get_ticks_per_sec :: u32 where "get_ticks_per_sec \<equiv> 1000000000"
abbreviation (input) RW_STATE_LSB :: u8 where "RW_STATE_LSB \<equiv> 1"
abbreviation (input) RW_STATE_MSB :: u8 where "RW_STATE_MSB \<equiv> 2"
abbreviation (input) RW_STATE_WORD0 :: u8 where "RW_STATE_WORD0 \<equiv> 3"
abbreviation (input) RW_STATE_WORD1 :: u8 where "RW_STATE_WORD1 \<equiv> 4"

definition muldiv64 :: "u64 \<Rightarrow> u32 \<Rightarrow> u32 \<Rightarrow> u64" where
  "muldiv64 a b c =
     (let rl = ucast (ucast a :: u32) * ucast b :: u64;
          rh0 = ucast (ucast (drop_bit 32 a) :: u32) * ucast b :: u64;
          rh = rh0 + drop_bit 32 rl;
          res_high = ucast (rh div ucast c) :: u32;
          res_low = ucast ((push_bit 32 (rh mod ucast c) + (rl AND 0xffffffff)) div ucast c) :: u32
      in push_bit 32 (ucast res_high) OR ucast res_low)"

record PITChannelState =
  count :: int
  latched_count :: u16
  count_latched :: u8
  status_latched :: u8
  status :: u8
  read_state :: u8
  write_state :: u8
  write_latch :: u8
  rw_mode :: u8
  mode :: u8
  bcd :: u8
  gate :: u8
  count_load_time :: u64
  next_transition_time :: u64
  has_timer :: bool
  irq_timer :: "u64 option"

type_synonym PITState = "nat \<Rightarrow> PITChannelState"

definition pit_ticks :: "PITChannelState \<Rightarrow> u64 \<Rightarrow> u64" where
  "pit_ticks s t = muldiv64 (t - count_load_time s) PIT_FREQ get_ticks_per_sec"

definition pit_get_count :: "u64 \<Rightarrow> PITChannelState \<Rightarrow> int option" where
  "pit_get_count now s =
     (let d = pit_ticks s now; c = of_int (count s) :: u64 in
      if mode s = 0 \<or> mode s = 1 \<or> mode s = 4 \<or> mode s = 5 then Some (uint ((c - d) AND 0xffff))
      else if c = 0 then None
      else if mode s = 3 then Some (sint (ucast (c - (2 * d) mod c) :: u32))
      else Some (sint (ucast (c - d mod c) :: u32)))"

definition pit_get_out1 :: "PITChannelState \<Rightarrow> u64 \<Rightarrow> bool option" where
  "pit_get_out1 s current_time =
     (let d = pit_ticks s current_time; c = of_int (count s) :: u64 in
      if mode s = 1 then Some (d < c)
      else if mode s = 2 then (if c = 0 then None else Some (d mod c = 0 \<and> d \<noteq> 0))
      else if mode s = 3 then (if c = 0 then None else Some (d mod c < of_int ((count s + 1) div 2)))
      else if mode s = 4 \<or> mode s = 5 then Some (d = c)
      else Some (d \<ge> c))"

definition next_tick :: "PITChannelState \<Rightarrow> u64 \<Rightarrow> u64 option option" where
  "next_tick s d =
     (let c = of_int (count s) :: u64 in
      if mode s = 2 then
        (if c = 0 then None
         else (let base = (d div c) * c in
               Some (Some (if d - base = 0 \<and> d \<noteq> 0 then base + c else base + c + 1))))
      else if mode s = 3 then
        (if c = 0 then None
         else (let base = (d div c) * c; period2 = of_int ((count s + 1) div 2) in
               Some (Some (if d - base < period2 then base + period2 else base + c))))
      else if mode s = 4 \<or> mode s = 5 then
        Some (if d < c then Some c else if d = c then Some (c + 1) else None)
      else Some (if d < c then Some c else None))"

definition pit_get_next_transition_time :: "PITChannelState \<Rightarrow> u64 \<Rightarrow> u64 option" where
  "pit_get_next_transition_time s current_time =
     (case next_tick s (pit_ticks s current_time) of
        None \<Rightarrow> None
      | Some None \<Rightarrow> Some (-1)
      | Some (Some n) \<Rightarrow>
          (let next_time = count_load_time s + muldiv64 n get_ticks_per_sec PIT_FREQ
           in Some (if next_time \<le> current_time then current_time + 1 else next_time)))"

definition pit_irq_timer_update ::
  "'w qemu_irq \<Rightarrow> PITChannelState \<Rightarrow> u64 \<Rightarrow> 'w \<Rightarrow> (PITChannelState \<times> 'w) option" where
  "pit_irq_timer_update irq s current_time w =
     (if \<not> has_timer s then Some (s, w)
      else do {
        expire_time \<leftarrow> pit_get_next_transition_time s current_time;
        irq_level \<leftarrow> pit_get_out1 s current_time;
        let w1 = qemu_set_irq irq (of_bool irq_level) w;
        Some (s\<lparr>next_transition_time := expire_time,
                irq_timer := (if expire_time \<noteq> -1 then Some expire_time else None)\<rparr>, w1)
      })"

definition pit_irq_timer :: "'w qemu_irq \<Rightarrow> PITChannelState \<Rightarrow> 'w \<Rightarrow> (PITChannelState \<times> 'w) option" where
  "pit_irq_timer irq s w = pit_irq_timer_update irq s (next_transition_time s) w"

definition on_channel ::
  "nat \<Rightarrow> (PITChannelState \<Rightarrow> (PITChannelState \<times> 'w) option) \<Rightarrow> PITState \<Rightarrow> (PITState \<times> 'w) option" where
  "on_channel k f pit = (case f (pit k) of None \<Rightarrow> None | Some (s, w) \<Rightarrow> Some (pit(k := s), w))"

definition set_gate :: "'w qemu_irq \<Rightarrow> u64 \<Rightarrow> u8 \<Rightarrow> PITChannelState \<Rightarrow> 'w \<Rightarrow> (PITChannelState \<times> 'w) option" where
  "set_gate irq now val s w =
     (if mode s = 1 \<or> mode s = 5 \<or> mode s = 2 \<or> mode s = 3 then
        (if gate s < val then do {
           (s1, w1) \<leftarrow> pit_irq_timer_update irq (s\<lparr>count_load_time := now\<rparr>) now w;
           Some (s1\<lparr>gate := val\<rparr>, w1)
         }
         else Some (s\<lparr>gate := val\<rparr>, w))
      else Some (s\<lparr>gate := val\<rparr>, w))"

definition pit_set_gate :: "'w qemu_irq \<Rightarrow> u64 \<Rightarrow> nat \<Rightarrow> u8 \<Rightarrow> PITState \<Rightarrow> 'w \<Rightarrow> (PITState \<times> 'w) option" where
  "pit_set_gate irq now channel val pit w =
     (if channel < 3 then on_channel channel (\<lambda>s. set_gate irq now val s w) pit else None)"

definition pit_get_gate :: "PITState \<Rightarrow> nat \<Rightarrow> u8" where
  "pit_get_gate pit channel = gate (pit channel)"

definition pit_get_initial_count :: "PITState \<Rightarrow> nat \<Rightarrow> int" where
  "pit_get_initial_count pit channel = count (pit channel)"

definition pit_get_mode :: "PITState \<Rightarrow> nat \<Rightarrow> u8" where
  "pit_get_mode pit channel = mode (pit channel)"

definition pit_get_out :: "PITState \<Rightarrow> nat \<Rightarrow> u64 \<Rightarrow> bool option" where
  "pit_get_out pit channel current_time = pit_get_out1 (pit channel) current_time"

definition pit_load_count :: "'w qemu_irq \<Rightarrow> u64 \<Rightarrow> int \<Rightarrow> PITChannelState \<Rightarrow> 'w \<Rightarrow> (PITChannelState \<times> 'w) option" where
  "pit_load_count irq now val s w =
     (let v = (if val = 0 then 0x10000 else val)
      in pit_irq_timer_update irq (s\<lparr>count_load_time := now, count := v\<rparr>) now w)"

definition pit_latch_count :: "u64 \<Rightarrow> PITChannelState \<Rightarrow> PITChannelState option" where
  "pit_latch_count now s =
     (if count_latched s = 0 then
        (case pit_get_count now s of
           None \<Rightarrow> None
         | Some n \<Rightarrow> Some (s\<lparr>latched_count := of_int n, count_latched := rw_mode s\<rparr>))
      else Some s)"

definition read_back :: "u64 \<Rightarrow> u32 \<Rightarrow> nat \<Rightarrow> PITChannelState \<Rightarrow> PITChannelState option" where
  "read_back now val channel s =
     (if val AND push_bit channel 2 \<noteq> 0 then do {
        s1 \<leftarrow> (if val AND 0x20 = 0 then pit_latch_count now s else Some s);
        (if val AND 0x10 = 0 \<and> status_latched s1 = 0 then do {
           out \<leftarrow> pit_get_out1 s1 now;
           Some (s1\<lparr>status := push_bit 7 (of_bool out) OR push_bit 4 (rw_mode s1) OR push_bit 1 (mode s1) OR bcd s1,
                    status_latched := 1\<rparr>)
         } else Some s1)
      } else Some s)"

fun read_back_loop :: "u64 \<Rightarrow> u32 \<Rightarrow> nat list \<Rightarrow> PITState \<Rightarrow> PITState option" where
  "read_back_loop now val [] pit = Some pit"
| "read_back_loop now val (k # ks) pit =
     (case read_back now val k (pit k) of None \<Rightarrow> None | Some s \<Rightarrow> read_back_loop now val ks (pit(k := s)))"

definition control_word :: "u64 \<Rightarrow> u32 \<Rightarrow> PITChannelState \<Rightarrow> PITChannelState option" where
  "control_word now val s =
     (let access = ucast (drop_bit 4 val AND 3) :: u8 in
      if access = 0 then pit_latch_count now s
      else Some (s\<lparr>rw_mode := access, read_state := access, write_state := access,
                   mode := ucast (drop_bit 1 val AND 7), bcd := ucast (val AND 1)\<rparr>))"

definition write_counter :: "'w qemu_irq \<Rightarrow> u64 \<Rightarrow> u32 \<Rightarrow> PITChannelState \<Rightarrow> 'w \<Rightarrow> (PITChannelState \<times> 'w) option" where
  "write_counter irq now val s w =
     (if write_state s = RW_STATE_MSB then pit_load_count irq now (sint (push_bit 8 val)) s w
      else if write_state s = RW_STATE_WORD0 then
        Some (s\<lparr>write_latch := ucast val, write_state := RW_STATE_WORD1\<rparr>, w)
      else if write_state s = RW_STATE_WORD1 then do {
        (s1, w1) \<leftarrow> pit_load_count irq now (sint (ucast (write_latch s) OR push_bit 8 val)) s w;
        Some (s1\<lparr>write_state := RW_STATE_WORD0\<rparr>, w1)
      }
      else pit_load_count irq now (sint val) s w)"

definition pit_ioport_write ::
  "'w qemu_irq \<Rightarrow> u64 \<Rightarrow> u32 \<Rightarrow> u32 \<Rightarrow> PITState \<Rightarrow> 'w \<Rightarrow> (PITState \<times> 'w) option" where
  "pit_ioport_write irq now addr0 val pit w =
     (let addr = unat (addr0 AND 3) in
      if addr = 3 then
        (let channel = unat (drop_bit 6 val) in
         if channel = 3 then map_option (\<lambda>pit'. (pit', w)) (read_back_loop now val [0, 1, 2] pit)
         else if channel < 3 then on_channel channel (\<lambda>s. map_option (\<lambda>s'. (s', w)) (control_word now val s)) pit
         else None)
      else on_channel addr (\<lambda>s. write_counter irq now val s w) pit)"

definition read_counter :: "u64 \<Rightarrow> PITChannelState \<Rightarrow> (int \<times> PITChannelState) option" where
  "read_counter now s =
     (if status_latched s \<noteq> 0 then Some (uint (status s), s\<lparr>status_latched := 0\<rparr>)
      else if count_latched s \<noteq> 0 then
        (if count_latched s = RW_STATE_MSB then
           Some (uint (drop_bit 8 (latched_count s)), s\<lparr>count_latched := 0\<rparr>)
         else if count_latched s = RW_STATE_WORD0 then
           Some (uint (latched_count s AND 0xff), s\<lparr>count_latched := RW_STATE_MSB\<rparr>)
         else Some (uint (latched_count s AND 0xff), s\<lparr>count_latched := 0\<rparr>))
      else do {
        n \<leftarrow> pit_get_count now s;
        (if read_state s = RW_STATE_MSB then Some ((n div 256) mod 256, s)
         else if read_state s = RW_STATE_WORD0 then Some (n mod 256, s\<lparr>read_state := RW_STATE_WORD1\<rparr>)
         else if read_state s = RW_STATE_WORD1 then Some ((n div 256) mod 256, s\<lparr>read_state := RW_STATE_WORD0\<rparr>)
         else Some (n mod 256, s))
      })"

definition pit_ioport_read :: "u64 \<Rightarrow> u32 \<Rightarrow> PITState \<Rightarrow> (int \<times> PITState) option" where
  "pit_ioport_read now addr0 pit =
     (let addr = unat (addr0 AND 3) in
      if addr = 3 then None
      else map_option (\<lambda>(ret, s). (ret, pit(addr := s))) (read_counter now (pit addr)))"

definition reset_channel :: "'w qemu_irq \<Rightarrow> u64 \<Rightarrow> nat \<Rightarrow> PITChannelState \<Rightarrow> 'w \<Rightarrow> (PITChannelState \<times> 'w) option" where
  "reset_channel irq now i s w = pit_load_count irq now 0 (s\<lparr>mode := 3, gate := of_bool (i \<noteq> 2)\<rparr>) w"

fun reset_loop :: "'w qemu_irq \<Rightarrow> u64 \<Rightarrow> nat list \<Rightarrow> PITState \<Rightarrow> 'w \<Rightarrow> (PITState \<times> 'w) option" where
  "reset_loop irq now [] pit w = Some (pit, w)"
| "reset_loop irq now (i # is) pit w =
     (case on_channel i (\<lambda>s. reset_channel irq now i s w) pit of
        None \<Rightarrow> None | Some (pit', w') \<Rightarrow> reset_loop irq now is pit' w')"

definition pit_reset :: "'w qemu_irq \<Rightarrow> u64 \<Rightarrow> PITState \<Rightarrow> 'w \<Rightarrow> (PITState \<times> 'w) option" where
  "pit_reset irq now pit w = reset_loop irq now [0, 1, 2] pit w"

definition hpet_pit_disable :: "PITState \<Rightarrow> PITState" where
  "hpet_pit_disable pit = (if has_timer (pit 0) then pit(0 := (pit 0)\<lparr>irq_timer := None\<rparr>) else pit)"

definition hpet_pit_enable :: "'w qemu_irq \<Rightarrow> u64 \<Rightarrow> PITState \<Rightarrow> 'w \<Rightarrow> (PITState \<times> 'w) option" where
  "hpet_pit_enable irq now pit w =
     on_channel 0 (\<lambda>s. pit_load_count irq now 0 (s\<lparr>mode := 3, gate := 1\<rparr>) w) pit"

definition pit_channel_zero :: PITChannelState where
  "pit_channel_zero = \<lparr>count = 0, latched_count = 0, count_latched = 0, status_latched = 0, status = 0, read_state = 0,
     write_state = 0, write_latch = 0, rw_mode = 0, mode = 0, bcd = 0, gate = 0, count_load_time = 0,
     next_transition_time = 0, has_timer = False, irq_timer = None\<rparr>"

definition pit_initfn :: PITState where
  "pit_initfn = (\<lambda>_. pit_channel_zero)(0 := pit_channel_zero\<lparr>has_timer := True\<rparr>)"

section \<open>Specification\<close>

datatype pit_op =
    PWrite u64 u32 u32
  | PRead u64 u32
  | PTimer
  | PGate u64 nat u8
  | PReset u64
  | PHpetOff
  | PHpetOn u64

fun pit_step :: "'w qemu_irq \<Rightarrow> (PITState \<times> 'w) option \<Rightarrow> pit_op \<Rightarrow> (PITState \<times> 'w) option" where
  "pit_step irq None op = None"
| "pit_step irq (Some (pit, w)) (PWrite now a v) = pit_ioport_write irq now a v pit w"
| "pit_step irq (Some (pit, w)) (PRead now a) = map_option (\<lambda>(_, pit'). (pit', w)) (pit_ioport_read now a pit)"
| "pit_step irq (Some (pit, w)) PTimer =
     (if irq_timer (pit 0) = None then Some (pit, w) else on_channel 0 (\<lambda>s. pit_irq_timer irq s w) pit)"
| "pit_step irq (Some (pit, w)) (PGate now k v) = pit_set_gate irq now k v pit w"
| "pit_step irq (Some (pit, w)) (PReset now) = pit_reset irq now pit w"
| "pit_step irq (Some (pit, w)) PHpetOff = Some (hpet_pit_disable pit, w)"
| "pit_step irq (Some (pit, w)) (PHpetOn now) = hpet_pit_enable irq now pit w"

text \<open>What the port dispatcher and the speaker can do: byte writes to four ports, reads of three.\<close>

fun pit_op_ok :: "pit_op \<Rightarrow> bool" where
  "pit_op_ok (PWrite now a v) \<longleftrightarrow> v < 0x100"
| "pit_op_ok (PRead now a) \<longleftrightarrow> a AND 3 \<noteq> 3"
| "pit_op_ok (PGate now k v) \<longleftrightarrow> k < 3"
| "pit_op_ok _ \<longleftrightarrow> True"

definition channel_ok :: "PITChannelState \<Rightarrow> bool" where
  "channel_ok s \<longleftrightarrow> 1 \<le> count s \<and> count s \<le> 0x10000"

definition pit_inv :: "(PITState \<times> 'w) option \<Rightarrow> bool" where
  "pit_inv r = (case r of None \<Rightarrow> False | Some (pit, _) \<Rightarrow> \<forall>k<3. channel_ok (pit k))"

text \<open>The time in nanoseconds of a tick, and the ticks passed after some nanoseconds, both rounded down.\<close>

definition tick_ns :: "nat \<Rightarrow> nat" where
  "tick_ns n = n * 1000000000 div 1193182"

definition ns_ticks :: "nat \<Rightarrow> nat" where
  "ns_ticks x = x * 1193182 div 1000000000"

text \<open>A channel that counts from \<open>count_load_time\<close> with its timer set for tick \<open>m\<close>.\<close>

definition armed :: "PITChannelState \<Rightarrow> nat \<Rightarrow> PITChannelState" where
  "armed s m = (let t = of_nat (unat (count_load_time s) + tick_ns m)
     in s\<lparr>next_transition_time := t, irq_timer := Some t\<rparr>)"

primrec pit_fires :: "'w qemu_irq \<Rightarrow> nat \<Rightarrow> PITChannelState \<times> 'w \<Rightarrow> (PITChannelState \<times> 'w) option" where
  "pit_fires irq 0 r = Some r"
| "pit_fires irq (Suc n) r = do { (s, w) \<leftarrow> pit_fires irq n r; pit_irq_timer irq s w }"

definition log_irq :: "int list qemu_irq" where
  "log_irq = Some \<lparr>handler = \<lambda>_ l w. w @ [l], line_no = 0\<rparr>"

section \<open>Scaling\<close>

lemma div_split_64:
  fixes A B C :: nat
  assumes "0 < C"
  defines "rh \<equiv> A div 2 ^ 32 * B + A mod 2 ^ 32 * B div 2 ^ 32"
  shows "A * B div C = rh div C * 2 ^ 32 + (rh mod C * 2 ^ 32 + A mod 2 ^ 32 * B mod 2 ^ 32) div C"
proof -
  have "A * B = (A div 2 ^ 32 * 2 ^ 32 + A mod 2 ^ 32) * B" by simp
  also have "\<dots> = A div 2 ^ 32 * B * 2 ^ 32 + A mod 2 ^ 32 * B" by (simp only: algebra_simps)
  also have "\<dots> = A div 2 ^ 32 * B * 2 ^ 32 + (A mod 2 ^ 32 * B div 2 ^ 32 * 2 ^ 32 + A mod 2 ^ 32 * B mod 2 ^ 32)"
    by (simp only: div_mult_mod_eq)
  also have "\<dots> = rh * 2 ^ 32 + A mod 2 ^ 32 * B mod 2 ^ 32" by (simp only: rh_def algebra_simps)
  also have "rh * 2 ^ 32 = (rh div C * C + rh mod C) * 2 ^ 32" by simp
  also have "\<dots> + A mod 2 ^ 32 * B mod 2 ^ 32 =
      rh div C * 2 ^ 32 * C + (rh mod C * 2 ^ 32 + A mod 2 ^ 32 * B mod 2 ^ 32)" by (simp only: algebra_simps)
  finally show ?thesis using assms(1) by simp
qed

lemma mod_square: "l < M \<Longrightarrow> (q * M + l) mod (M * M) = q mod M * M + (l :: nat)"
  by (simp add: mod_mult2_eq)

lemma unat_mult_u32: "unat (ucast (x :: u32) * ucast (y :: u32) :: u64) = unat x * unat y"
proof -
  have "unat x * unat y < 2 ^ 32 * 2 ^ 32"
    using unat_less [of x] unat_less [of y] by (intro mult_strict_mono) simp_all
  then show ?thesis by (simp add: unat_word_ariths unat_ucast_up)
qed

lemma hi_lo_value: "unat (push_bit 32 (ucast (h :: u32)) OR ucast (l :: u32) :: u64) = unat h * 2 ^ 32 + unat l"
proof -
  have d: "push_bit 32 (ucast h) OR ucast l = push_bit 32 (ucast h) + (ucast l :: u64)"
    by (rule disjunctive_add [symmetric]) (auto simp: bit_simps dest: bit_imp_le_length)
  have b: "unat h * 2 ^ 32 + unat l < 2 ^ 64" using unat_less [of h] unat_less [of l] by simp
  have "unat (push_bit 32 (ucast h) :: u64) = unat h * 2 ^ 32"
    using b by (simp add: push_bit_eq_mult unat_word_ariths unat_ucast_up)
  then show ?thesis unfolding d using b by (simp add: unat_word_ariths unat_ucast_up)
qed

lemma muldiv64_value:
  assumes "c \<noteq> 0"
  shows "unat (muldiv64 a b c) = (unat a * unat b div unat c) mod 2 ^ 64"
proof -
  let ?A = "unat a" and ?B = "unat b" and ?C = "unat c"
  define rl :: u64 where "rl = ucast (ucast a :: u32) * ucast b"
  define rh :: u64 where "rh = ucast (ucast (drop_bit 32 a) :: u32) * ucast b + drop_bit 32 rl"
  have C: "0 < ?C" "?C < 2 ^ 32" using assms unat_less [of c] by (simp_all add: unat_gt_0)
  have lo: "unat (ucast a :: u32) = ?A mod 2 ^ 32" by (simp add: unsigned_ucast_eq take_bit_eq_mod)
  have "?A div 2 ^ 32 < 2 ^ 32" using unat_less [of a] by (simp add: less_mult_imp_div_less)
  then have hi: "unat (ucast (drop_bit 32 a) :: u32) = ?A div 2 ^ 32"
    by (simp add: unsigned_ucast_eq take_bit_eq_mod drop_bit_eq_div unat_div_distrib)
  have rl: "unat rl = ?A mod 2 ^ 32 * ?B" by (simp add: rl_def unat_mult_u32 lo)
  have "?A div 2 ^ 32 * ?B \<le> (2 ^ 32 - 1) * (2 ^ 32 - 1)"
    using \<open>?A div 2 ^ 32 < 2 ^ 32\<close> unat_less [of b] by (intro mult_le_mono) simp_all
  moreover have "unat rl div 2 ^ 32 < 2 ^ 32" using unat_less [of rl] by (simp add: less_mult_imp_div_less)
  ultimately have rh: "unat rh = ?A div 2 ^ 32 * ?B + ?A mod 2 ^ 32 * ?B div 2 ^ 32"
    unfolding rh_def by (subst unat_add_lem [THEN iffD1])
      (simp_all add: unat_mult_u32 hi [unfolded drop_bit_eq_div, simplified] rl drop_bit_eq_div unat_div_distrib)
  have m: "unat (rl AND 0xffffffff) = unat rl mod 2 ^ 32"
    using unat_and_mask [of rl 32] by (simp add: mask_eq_exp_minus_1)
  have "unat rh mod ?C * 2 ^ 32 + unat rl mod 2 ^ 32 < ?C * 2 ^ 32"
  proof -
    have "Suc (unat rh mod ?C) * 2 ^ 32 \<le> ?C * 2 ^ 32"
      using C(1) by (intro mult_le_mono1) (simp add: Suc_leI)
    moreover have "unat rl mod 2 ^ 32 < 2 ^ 32" by simp
    ultimately show ?thesis by (simp only: mult_Suc)
  qed
  then have b: "unat rh mod ?C * 2 ^ 32 + unat rl mod 2 ^ 32 < 2 ^ 64"
    "(unat rh mod ?C * 2 ^ 32 + unat rl mod 2 ^ 32) div ?C < 2 ^ 32"
    using C by (simp_all add: less_mult_imp_div_less mult.commute)
  have s: "unat (push_bit 32 (rh mod ucast c) + (rl AND 0xffffffff)) = unat rh mod ?C * 2 ^ 32 + unat rl mod 2 ^ 32"
    using b(1) by (simp add: push_bit_eq_mult unat_word_ariths unat_mod_distrib unat_ucast_up m)
  have cm: "?C mod 2 ^ 64 = ?C" using C(2) by simp
  have "unat (muldiv64 a b c) = (unat rh div ?C) mod 2 ^ 32 * 2 ^ 32 +
      (unat rh mod ?C * 2 ^ 32 + unat rl mod 2 ^ 32) div ?C"
    unfolding muldiv64_def Let_def hi_lo_value rl_def [symmetric] rh_def [symmetric]
    using b(2) cm by (simp add: unsigned_ucast_eq take_bit_eq_mod unat_div_distrib s)
  also have "\<dots> = (unat rh div ?C * 2 ^ 32 + (unat rh mod ?C * 2 ^ 32 + unat rl mod 2 ^ 32) div ?C) mod (2 ^ 32 * 2 ^ 32)"
    using b(2) by (rule mod_square [symmetric])
  finally have "unat (muldiv64 a b c) = (?A * ?B div ?C) mod (2 ^ 32 * 2 ^ 32)"
    by (simp only: div_split_64 [OF C(1), of ?A ?B] rh rl)
  moreover have "(2 :: nat) ^ 32 * 2 ^ 32 = 2 ^ 64" by simp
  ultimately show ?thesis by (simp only:)
qed

section \<open>The counters stay in range\<close>

lemma count_word:
  assumes "channel_ok s"
  shows "uint (of_int (count s) :: u64) = count s" "(of_int (count s) :: u64) \<noteq> 0"
proof -
  show u: "uint (of_int (count s) :: u64) = count s"
    using assms by (simp add: channel_ok_def uint_word_of_int)
  then show "(of_int (count s) :: u64) \<noteq> 0" using assms by (auto simp: channel_ok_def)
qed

lemma channel_ok_total:
  assumes "channel_ok s"
  shows "\<exists>n. pit_get_count now s = Some n" "\<exists>b. pit_get_out1 s t = Some b"
    "\<exists>x. pit_get_next_transition_time s t = Some x"
  using count_word(2) [OF assms]
  by (simp_all add: pit_get_count_def pit_get_out1_def pit_get_next_transition_time_def next_tick_def Let_def)

lemma timer_update_ok:
  assumes "channel_ok s"
  shows "\<exists>s' w'. pit_irq_timer_update irq s t w = Some (s', w') \<and> channel_ok s'"
proof -
  obtain b x where "pit_get_out1 s t = Some b" "pit_get_next_transition_time s t = Some x"
    using channel_ok_total [OF assms] by blast
  then show ?thesis using assms by (simp add: pit_irq_timer_update_def channel_ok_def)
qed

lemma load_count_ok:
  assumes "0 \<le> v" and "v \<le> 0x10000"
  shows "\<exists>s' w'. pit_load_count irq now v s w = Some (s', w') \<and> channel_ok s'"
  unfolding pit_load_count_def Let_def using assms by (intro timer_update_ok) (auto simp: channel_ok_def)

lemma latch_ok:
  assumes "channel_ok s"
  shows "\<exists>s'. pit_latch_count now s = Some s' \<and> channel_ok s'"
proof -
  obtain n where "pit_get_count now s = Some n" using channel_ok_total [OF assms] by blast
  then show ?thesis using assms by (simp add: pit_latch_count_def channel_ok_def)
qed

lemma read_back_ok:
  assumes "channel_ok s"
  shows "\<exists>s'. read_back now val k s = Some s' \<and> channel_ok s'"
proof -
  obtain s1 where s1: "(if val AND 0x20 = 0 then pit_latch_count now s else Some s) = Some s1" "channel_ok s1"
    using latch_ok [OF assms, of now] assms by (cases "val AND 0x20 = 0") auto
  obtain b where "pit_get_out1 s1 now = Some b" using channel_ok_total [OF s1(2)] by blast
  then show ?thesis using s1 assms by (simp add: read_back_def channel_ok_def)
qed

lemma read_back_loop_ok:
  "\<forall>k<3. channel_ok (pit k) \<Longrightarrow> list_all (\<lambda>k. k < 3) ks \<Longrightarrow>
     \<exists>pit'. read_back_loop now val ks pit = Some pit' \<and> (\<forall>k<3. channel_ok (pit' k))"
proof (induction ks arbitrary: pit)
  case (Cons k ks)
  then obtain s where r: "read_back now val k (pit k) = Some s" and s: "channel_ok s"
    using read_back_ok [of "pit k" now val k] by auto
  have "\<forall>j<3. channel_ok ((pit(k := s)) j)" using s Cons.prems(1) by simp
  from Cons.IH [OF this] show ?case using r Cons.prems(2) by (simp del: fun_upd_apply)
qed simp

lemma on_channel_ok:
  assumes "\<exists>s w. f (pit k) = Some (s, w) \<and> channel_ok s" and "\<forall>k<3. channel_ok (pit k)"
  shows "pit_inv (on_channel k f pit)"
  using assms by (auto simp: on_channel_def pit_inv_def)

text \<open>The counts that one or two bytes can form.\<close>

lemma byte_counts:
  fixes v :: u32
  assumes "v < 0x100"
  shows "0 \<le> sint v \<and> sint v \<le> 0xffff" "0 \<le> sint (push_bit 8 v) \<and> sint (push_bit 8 v) \<le> 0xffff"
    "0 \<le> sint (ucast (l :: u8) OR push_bit 8 v) \<and> sint (ucast l OR push_bit 8 v) \<le> 0xffff"
proof -
  have small: "0 \<le> sint x \<and> sint x \<le> 0xffff" if "unat x < 2 ^ 16" for x :: u32
  proof -
    have "int (unat x) < int (2 ^ 16)" using that by (simp only: of_nat_less_iff)
    then have u: "uint x < 65536" by simp
    have "sint x = uint x" unfolding sint_uint
      by (rule signed_take_bit_int_eq_self) (use u in \<open>simp_all add: order_trans [OF _ uint_ge_0]\<close>)
    then show ?thesis using u by simp
  qed
  have u: "unat v < 256" using assms by (simp add: word_less_nat_alt)
  have p: "unat (push_bit 8 v) = unat v * 256" using u by (simp add: push_bit_eq_mult unat_word_ariths)
  show "0 \<le> sint v \<and> sint v \<le> 0xffff" using u by (intro small) simp
  show "0 \<le> sint (push_bit 8 v) \<and> sint (push_bit 8 v) \<le> 0xffff" using u p by (intro small) simp
  have "ucast l OR push_bit 8 v = ucast l + push_bit 8 v"
    by (rule disjunctive_add [symmetric]) (auto simp: bit_simps dest: bit_imp_le_length)
  moreover have "unat (ucast l + push_bit 8 v) = unat l + unat v * 256"
    using u p unat_less [of l] by (simp add: unat_word_ariths unat_ucast_up)
  ultimately show "0 \<le> sint (ucast l OR push_bit 8 v) \<and> sint (ucast l OR push_bit 8 v) \<le> 0xffff"
    using u unat_less [of l] by (intro small) simp
qed

lemma write_counter_ok:
  assumes "channel_ok s" and "v < 0x100"
  shows "\<exists>s' w'. write_counter irq now v s w = Some (s', w') \<and> channel_ok s'"
proof -
  note L = load_count_ok [of _ irq now s w]
  obtain s1 w1 where "pit_load_count irq now (sint (ucast (write_latch s) OR push_bit 8 v)) s w = Some (s1, w1)"
    "channel_ok s1" using L [of "sint (ucast (write_latch s) OR push_bit 8 v)"] byte_counts(3) [OF assms(2), of "write_latch s"] by auto
  then show ?thesis
    using L [of "sint v"] L [of "sint (push_bit 8 v)"] byte_counts(1,2) [OF assms(2)] assms(1)
    by (simp add: write_counter_def channel_ok_def)
qed

lemma set_gate_ok:
  assumes "channel_ok s"
  shows "\<exists>s' w'. set_gate irq now v s w = Some (s', w') \<and> channel_ok s'"
proof -
  have "channel_ok (s\<lparr>count_load_time := now\<rparr>)" using assms by (simp add: channel_ok_def)
  then obtain s1 w1 where "pit_irq_timer_update irq (s\<lparr>count_load_time := now\<rparr>) now w = Some (s1, w1)" "channel_ok s1"
    using timer_update_ok [of "s\<lparr>count_load_time := now\<rparr>" irq now w] by auto
  then show ?thesis using assms by (simp add: set_gate_def channel_ok_def)
qed

lemma read_counter_ok:
  assumes "channel_ok s"
  shows "\<exists>v s'. read_counter now s = Some (v, s') \<and> channel_ok s'"
proof -
  obtain n where "pit_get_count now s = Some n" using channel_ok_total [OF assms] by blast
  then show ?thesis using assms by (simp add: read_counter_def channel_ok_def)
qed

lemma reset_loop_ok:
  "\<forall>k<3. k \<in> set ks \<or> channel_ok (pit k) \<Longrightarrow> pit_inv (reset_loop irq now ks pit w)"
proof (induction ks arbitrary: pit w)
  case (Cons k ks)
  obtain s w' where r: "reset_channel irq now k (pit k) w = Some (s, w')" "channel_ok s"
    using load_count_ok [of 0 irq now "(pit k)\<lparr>mode := 3, gate := of_bool (k \<noteq> 2)\<rparr>" w]
    by (auto simp: reset_channel_def)
  have "\<forall>j<3. j \<in> set ks \<or> channel_ok ((pit(k := s)) j)" using r(2) Cons.prems by auto
  from Cons.IH [OF this] show ?case using r(1) by (simp add: on_channel_def del: fun_upd_apply)
qed (simp add: pit_inv_def)

lemma pit_write_ok:
  assumes "\<forall>k<3. channel_ok (pit k)" and "v < 0x100"
  shows "pit_inv (pit_ioport_write irq now a v pit w)"
proof -
  have c: "pit_inv (on_channel k (\<lambda>s. map_option (\<lambda>s'. (s', w)) (control_word now v s)) pit)" if "k < 3" for k
    using latch_ok [of "pit k" now] assms(1) that
    by (intro on_channel_ok) (auto simp: control_word_def Let_def channel_ok_def)
  have x: "unat (a AND 3) < 4" using unat_and_le [of a 3] by simp
  have b: "pit_inv (map_option (\<lambda>pit'. (pit', w)) (read_back_loop now v [0, 1, 2] pit))"
    using read_back_loop_ok [OF assms(1), of "[0, 1, 2]" now v] by (auto simp: pit_inv_def)
  have "unat (drop_bit 6 v) < 4" using assms(2) by (simp add: drop_bit_eq_div unat_div_distrib word_less_nat_alt)
  moreover have "pit_inv (on_channel (unat (a AND 3)) (\<lambda>s. write_counter irq now v s w) pit)"
    if "unat (a AND 3) \<noteq> 3"
    using x that assms(1) write_counter_ok [OF _ assms(2), of "pit (unat (a AND 3))" irq now w]
    by (intro on_channel_ok) simp_all
  ultimately show ?thesis using b c by (simp add: pit_ioport_write_def Let_def del: read_back_loop.simps)
qed

lemma pit_step_inv:
  assumes "pit_inv r" and "pit_op_ok op"
  shows "pit_inv (pit_step irq r op)"
proof -
  obtain pit w where r: "r = Some (pit, w)" and ok: "\<forall>k<3. channel_ok (pit k)"
    using assms(1) by (auto simp: pit_inv_def split: option.splits)
  have o: "channel_ok (pit 0)" using ok by simp
  show ?thesis
  proof (cases op)
    case (PWrite now a v)
    then show ?thesis using pit_write_ok [OF ok] assms(2) by (simp add: r)
  next
    case (PRead now a)
    have "unat (a AND 3) < 4" using unat_and_le [of a 3] by simp
    moreover have "unat (a AND 3) \<noteq> 3" using PRead assms(2) by (simp add: word_unat_eq_iff)
    ultimately have "unat (a AND 3) < 3" by simp
    then obtain x s where "read_counter now (pit (unat (a AND 3))) = Some (x, s)" "channel_ok s"
      using read_counter_ok ok by blast
    then show ?thesis using PRead ok \<open>unat (a AND 3) \<noteq> 3\<close> by (simp add: r pit_ioport_read_def Let_def pit_inv_def)
  next
    case PTimer
    then show ?thesis
      using timer_update_ok [OF o, of irq "next_transition_time (pit 0)" w] ok by (auto simp: r pit_inv_def [of "Some _"] pit_irq_timer_def intro!: on_channel_ok)
  next
    case (PGate now k v)
    then show ?thesis
      using set_gate_ok [of "pit k" irq now v w] ok assms(2) by (auto simp: r pit_set_gate_def intro!: on_channel_ok)
  next
    case (PReset now)
    then show ?thesis using reset_loop_ok [of "[0, 1, 2]" pit] ok by (simp add: r pit_reset_def)
  next
    case PHpetOff
    then show ?thesis using ok by (auto simp: r hpet_pit_disable_def pit_inv_def channel_ok_def)
  next
    case (PHpetOn now)
    then show ?thesis
      using load_count_ok [of 0 irq now "(pit 0)\<lparr>mode := 3, gate := 1\<rparr>" w] ok by (auto simp: r hpet_pit_enable_def intro!: on_channel_ok)
  qed
qed

interpretation pitd: device "pit_step irq" pit_op_ok pit_inv for irq
  by unfold_locales (rule pit_step_inv)

text \<open>
  C24.  The timer never fails: from its reset, no sequence of byte accesses to its ports, gate
  changes, resets and expiries divides by zero or leaves the three channels, and every counter
  holds a start value from 1 to 65536.
\<close>

theorem pit_counts_in_range:
  assumes "list_all pit_op_ok ops"
  shows "\<exists>pit w'. run (pit_step irq) (pit_reset irq now pit_initfn w) ops = Some (pit, w') \<and>
     (\<forall>k<3. 1 \<le> count (pit k) \<and> count (pit k) \<le> 0x10000)"
proof -
  have "pit_inv (pit_reset irq now pit_initfn w)"
    unfolding pit_reset_def by (rule reset_loop_ok) (auto simp: numeral_eq_Suc less_Suc_eq)
  from pitd.run_inv [OF this assms, of irq] show ?thesis
    by (auto simp: pit_inv_def channel_ok_def split: option.splits)
qed

theorem pit_counts_in_range_witness:
  "\<exists>pit w'. run (pit_step None) (pit_reset None 5 pit_initfn ()) [PWrite 9 0x43 0x34, PWrite 9 0x40 0, PWrite 9 0x40 0, PTimer]
      = Some (pit, w') \<and> 1 \<le> count (pit 0)"
  using pit_counts_in_range [of "[PWrite 9 0x43 0x34, PWrite 9 0x40 0, PWrite 9 0x40 0, PTimer]" None 5 "()"] by fastforce

section \<open>The rate generator\<close>

lemma tick_ns_mono: "m < n \<Longrightarrow> tick_ns m < tick_ns n"
proof -
  assume "m < n"
  then have "m * 1000000000 + 1193182 \<le> n * 1000000000" by linarith
  then have "(m * 1000000000 + 1193182) div 1193182 \<le> tick_ns n" unfolding tick_ns_def by (rule div_le_mono)
  then show "tick_ns m < tick_ns n" by (simp add: tick_ns_def)
qed

lemma tick_exact: "(1193182 :: nat) dvd n * 1000000000 \<longleftrightarrow> 596591 dvd n"
proof -
  have "coprime (596591 :: nat) 500000000"
  proof (rule coprimeI)
    fix k :: nat
    assume "k dvd 596591" and "k dvd 500000000"
    then have "k dvd 596591 * 21562511" and "k dvd 500000000 * 25728" by (blast intro: dvd_mult2)+
    then have "k dvd 596591 * 21562511 - 500000000 * 25728" by (rule dvd_diff_nat)
    then show "k dvd 1" by simp
  qed
  then have "(596591 :: nat) dvd n * 500000000 \<longleftrightarrow> 596591 dvd n" by (rule coprime_dvd_mult_left_iff)
  moreover have "(2 * 596591 :: nat) dvd 2 * (n * 500000000) \<longleftrightarrow> 596591 dvd n * 500000000"
    by (rule nat_mult_dvd_cancel1) simp
  ultimately show ?thesis by (simp add: mult.left_commute)
qed

text \<open>
  Converting a tick to nanoseconds and back loses one tick, unless the tick falls on a whole
  nanosecond: every 596591 ticks.
\<close>

lemma ns_ticks_tick_ns:
  assumes "0 < n"
  shows "ns_ticks (tick_ns n) = (if 596591 dvd n then n else n - 1)"
proof -
  let ?r = "n * 1000000000 mod 1193182"
  have e: "tick_ns n * 1193182 = n * 1000000000 - ?r" unfolding tick_ns_def by (simp add: minus_mod_eq_div_mult)
  show ?thesis
  proof (cases "596591 dvd n")
    case True
    then have "?r = 0" using tick_exact [of n] by (simp add: dvd_eq_mod_eq_0)
    then show ?thesis using True unfolding ns_ticks_def e by simp
  next
    case False
    then have "0 < ?r" "?r < 1193182" using tick_exact [of n] by (simp_all add: dvd_eq_mod_eq_0)
    moreover have "n * 1000000000 - ?r = (n - 1) * 1000000000 + (1000000000 - ?r)"
      using assms calculation(2) by (cases n) simp_all
    moreover have "(m * 1000000000 + (1000000000 - r)) div 1000000000 = m" if "0 < r" for m r :: nat
      using that by (intro div_nat_eqI) simp_all
    ultimately have "ns_ticks (tick_ns n) = n - 1" unfolding ns_ticks_def e by (simp only:)
    then show ?thesis using False by simp
  qed
qed

lemma pit_ticks_value:
  assumes "unat cur = unat (count_load_time s) + x"
  shows "unat (pit_ticks s cur) = ns_ticks x"
proof -
  have "unat (cur - count_load_time s) = x" using assms by (simp add: unat_sub word_le_nat_alt)
  moreover have "x < 2 ^ 64" using assms unat_less [of cur] by simp
  then have "x * 1193182 div 1000000000 < 2 ^ 64" by (simp add: less_mult_imp_div_less)
  ultimately show ?thesis by (simp add: pit_ticks_def muldiv64_value ns_ticks_def)
qed

lemma pit_next_value:
  assumes "unat t0 + tick_ns (unat n) < 2 ^ 64"
  shows "t0 + muldiv64 n 1000000000 1193182 = of_nat (unat t0 + tick_ns (unat n))"
proof -
  have "unat (muldiv64 n 1000000000 1193182) = tick_ns (unat n)"
    using assms by (simp add: muldiv64_value tick_ns_def)
  then have "of_nat (unat t0 + tick_ns (unat n)) =
      (of_nat (unat t0) + of_nat (unat (muldiv64 n 1000000000 1193182)) :: u64)" by (simp only: of_nat_add)
  then show ?thesis by simp
qed

lemma mode2_event:
  assumes s: "has_timer s" "mode s = 2" "count s = int c" "2 \<le> c" "c \<le> 65536"
    and x: "unat cur = unat (count_load_time s) + x"
    and n: "n = (if c dvd ns_ticks x \<and> ns_ticks x \<noteq> 0 then ns_ticks x div c * c + c else ns_ticks x div c * c + c + 1)"
    and later: "x < tick_ns n" and room: "unat (count_load_time s) + tick_ns n < 2 ^ 64 - 1"
  shows "pit_irq_timer_update irq s cur w =
     Some (armed s n, qemu_set_irq irq (of_bool (c dvd ns_ticks x \<and> ns_ticks x \<noteq> 0)) w)"
proof -
  let ?d = "pit_ticks s cur" and ?c = "of_nat c :: u64"
  have d: "unat ?d = ns_ticks x" by (rule pit_ticks_value [OF x])
  have c: "unat ?c = c" using s(5) by (intro unat_of_nat_small) simp
  have n64: "n < 2 ^ 64"
  proof -
    have "n \<le> tick_ns n" unfolding tick_ns_def by (simp add: less_eq_div_iff_mult_less_eq)
    then show ?thesis using room by simp
  qed
  have m: "?d mod ?c = 0 \<longleftrightarrow> c dvd ns_ticks x"
    by (simp add: word_unat_eq_iff unat_mod_distrib d c dvd_eq_mod_eq_0)
  have z: "?d = 0 \<longleftrightarrow> ns_ticks x = 0" by (simp add: word_unat_eq_iff d)
  have out: "pit_get_out1 s cur = Some (c dvd ns_ticks x \<and> ns_ticks x \<noteq> 0)"
    using s c by (simp add: pit_get_out1_def m z word_unat_eq_iff [of ?c])
  have div: "?d div ?c * ?c = of_nat (ns_ticks x div c * c)"
    by (simp add: word_arith_nat_div d c) 
  have b: "?d - ?d div ?c * ?c = 0 \<longleftrightarrow> c dvd ns_ticks x"
    by (metis m minus_div_mult_eq_mod)
  have c0: "(?c = 0) = False" using c s(4) by (auto simp: word_unat_eq_iff)
  have "next_tick s ?d = Some (Some (if c dvd ns_ticks x \<and> ns_ticks x \<noteq> 0
      then of_nat (ns_ticks x div c * c) + ?c else of_nat (ns_ticks x div c * c) + ?c + 1))"
    by (simp only: next_tick_def Let_def s(2,3) of_int_of_nat_eq c0 b [unfolded div] z div simp_thms if_True if_False)
  then have tick: "next_tick s ?d = Some (Some (of_nat n))" by (simp add: n)
  have un: "unat (of_nat n :: u64) = n" using n64 by (intro unat_of_nat_small) simp
  have t: "count_load_time s + muldiv64 (of_nat n) 1000000000 1193182 =
      of_nat (unat (count_load_time s) + tick_ns n)" (is "_ = ?t")
    using pit_next_value [of "count_load_time s" "of_nat n"] room un by simp
  have ut: "unat ?t = unat (count_load_time s) + tick_ns n" using room by (intro unat_of_nat_small) simp
  have "\<not> ?t \<le> cur" using x later ut by (simp add: word_le_nat_alt)
  moreover have "unat (-1 :: u64) = 2 ^ 64 - 1" by (simp add: unsigned_minus_1_eq_mask mask_eq_exp_minus_1)
  then have "?t \<noteq> -1" using ut room by (metis nat_less_le)
  ultimately show ?thesis
    using s(1) by (simp add: pit_irq_timer_update_def pit_get_next_transition_time_def tick out t Let_def armed_def)
qed

lemma armed_fields [simp]:
  "has_timer (armed s m) = has_timer s" "mode (armed s m) = mode s" "count (armed s m) = count s"
  "count_load_time (armed s m) = count_load_time s" "armed (armed s m) n = armed s n"
  by (simp_all add: armed_def Let_def)

lemma mode2_timer:
  assumes s: "has_timer s" "mode s = 2" "count s = int c" "2 \<le> c" "c \<le> 65536" and "0 < m"
    and d: "d = (if 596591 dvd m then m else m - 1)"
    and n: "n = (if c dvd d \<and> d \<noteq> 0 then d div c * c + c else d div c * c + c + 1)"
    and "m < n" and room: "unat (count_load_time s) + tick_ns n < 2 ^ 64 - 1"
  shows "pit_irq_timer irq (armed s m) w = Some (armed s n, qemu_set_irq irq (of_bool (c dvd d \<and> d \<noteq> 0)) w)"
proof -
  have t: "tick_ns m < tick_ns n" by (rule tick_ns_mono [OF \<open>m < n\<close>])
  have u: "unat (next_transition_time (armed s m)) = unat (count_load_time (armed s m)) + tick_ns m"
    using unat_of_nat_small [where 'a = 64, of "unat (count_load_time s) + tick_ns m"] t room
    by (simp add: armed_def Let_def)
  have dd: "ns_ticks (tick_ns m) = d" using \<open>0 < m\<close> d by (simp add: ns_ticks_tick_ns)
  show ?thesis
    unfolding pit_irq_timer_def
    by (rule mode2_event [OF _ _ _ s(4,5) u, of n irq w, unfolded dd armed_fields]) (rule s n t room)+
qed

lemma mode2_raise:
  assumes "has_timer s" "mode s = 2" "count s = int c" "2 \<le> c" "c \<le> 65536"
    and "1 \<le> k" and "\<not> 596591 dvd k * c + 1" and "unat (count_load_time s) + tick_ns ((k + 1) * c) < 2 ^ 64 - 1"
  shows "pit_irq_timer irq (armed s (k * c + 1)) w = Some (armed s ((k + 1) * c), qemu_set_irq irq 1 w)"
  using assms mode2_timer [OF assms(1-5), of "k * c + 1" "k * c" "(k + 1) * c" irq w] by simp

lemma last_tick: "0 < c \<Longrightarrow> ((k + 1) * c - 1) div c = k" "2 \<le> c \<Longrightarrow> \<not> c dvd (k + 1) * c - (1 :: nat)"
proof -
  show "((k + 1) * c - 1) div c = k" if "0 < c" using that by (intro div_nat_eqI) (simp_all add: mult.commute)
  have "c dvd 1" if "c dvd (k + 1) * c - 1" "0 < c"
  proof -
    have "c dvd (k + 1) * c - ((k + 1) * c - 1)" by (rule dvd_diff_nat) (use that in simp_all)
    moreover have "(k + 1) * c - ((k + 1) * c - 1) = 1" using that by (simp add: diff_diff_right)
    ultimately show ?thesis by simp
  qed
  then show "\<not> c dvd (k + 1) * c - 1" if "2 \<le> c" using that by fastforce
qed

lemma mode2_lower:
  assumes "has_timer s" "mode s = 2" "count s = int c" "2 \<le> c" "c \<le> 65536"
    and "\<not> 596591 dvd (k + 1) * c" and "unat (count_load_time s) + tick_ns ((k + 1) * c + 1) < 2 ^ 64 - 1"
  shows "pit_irq_timer irq (armed s ((k + 1) * c)) w = Some (armed s ((k + 1) * c + 1), qemu_set_irq irq 0 w)"
  using assms last_tick [of c k] mode2_timer [OF assms(1-5), of "(k + 1) * c" "(k + 1) * c - 1" "(k + 1) * c + 1" irq w]
  by simp

lemma mode2_load:
  assumes "has_timer s" "mode s = 2" "2 \<le> c" "c \<le> 65536" and "unat now + tick_ns (c + 1) < 2 ^ 64 - 1"
  shows "pit_load_count irq now (int (c mod 65536)) s w =
     Some (armed (s\<lparr>count_load_time := now, count := int c\<rparr>) (c + 1), qemu_set_irq irq 0 w)"
proof -
  let ?s = "s\<lparr>count_load_time := now, count := int c\<rparr>"
  have v: "(if int (c mod 65536) = 0 then 0x10000 else int (c mod 65536)) = int c"
    using assms(3,4) by (cases "c = 65536") auto
  have "pit_irq_timer_update irq ?s now w = Some (armed ?s (c + 1), qemu_set_irq irq 0 w)"
    using mode2_event [of ?s c now 0 "c + 1" irq w] assms tick_ns_mono [of 0 "c + 1"]
    by (simp add: ns_ticks_def tick_ns_def)
  then show ?thesis unfolding pit_load_count_def Let_def v .
qed

text \<open>
  C23.  The rate generator keeps the period: after a count \<open>c\<close> is loaded in mode 2, the timer
  events raise and lower the interrupt pin once every \<open>c\<close> ticks, for every number of periods in
  which no edge falls on a whole nanosecond.
\<close>

theorem pit_rate_generator:
  assumes "has_timer s" and "mode s = 2" and "2 \<le> c" and "c \<le> 65536"
    and "\<forall>i\<in>{1..j}. \<not> 596591 dvd i * c + 1 \<and> \<not> 596591 dvd (i + 1) * c"
    and "unat now + tick_ns ((j + 1) * c + 1) < 2 ^ 64 - 1"
  shows "\<exists>s1 s2. pit_load_count irq now (int (c mod 65536)) s w = Some (s1, qemu_set_irq irq 0 w) \<and>
     pit_fires irq (2 * j) (s1, qemu_set_irq irq 0 w) = Some (s2, (qemu_irq_pulse irq ^^ j) (qemu_set_irq irq 0 w)) \<and>
     irq_timer s2 = Some (of_nat (unat now + tick_ns ((j + 1) * c + 1)))"
proof -
  let ?s = "s\<lparr>count_load_time := now, count := int c\<rparr>"
  have mono: "tick_ns a \<le> tick_ns ((j + 1) * c + 1)" if "a \<le> (j + 1) * c + 1" for a
    using that tick_ns_mono [of a "(j + 1) * c + 1"] by (cases "a = (j + 1) * c + 1") simp_all
  have load: "pit_load_count irq now (int (c mod 65536)) s w = Some (armed ?s (1 * c + 1), qemu_set_irq irq 0 w)"
    using mode2_load [OF assms(1-4), of now irq w] mono [of "c + 1"] assms(6) by simp
  have "pit_fires irq (2 * i) (armed ?s (1 * c + 1), v) = Some (armed ?s ((i + 1) * c + 1), (qemu_irq_pulse irq ^^ i) v)"
    if "i \<le> j" for i v
    using that
  proof (induction i)
    case (Suc i)
    let ?k = "Suc i"
    have "?k \<in> {1..j}" using Suc.prems by simp
    then have e: "\<not> 596591 dvd ?k * c + 1" "\<not> 596591 dvd (?k + 1) * c" using assms(5) by blast+
    have l: "(?k + 1) * c \<le> (j + 1) * c" using Suc.prems by (intro mult_le_mono1) simp
    have r: "unat now + tick_ns ((?k + 1) * c) < 2 ^ 64 - 1" "unat now + tick_ns ((?k + 1) * c + 1) < 2 ^ 64 - 1"
      using mono [of "(?k + 1) * c"] mono [of "(?k + 1) * c + 1"] l assms(6) by linarith+
    have up: "pit_irq_timer irq (armed ?s (?k * c + 1)) x = Some (armed ?s ((?k + 1) * c), qemu_set_irq irq 1 x)" for x
      by (rule mode2_raise) (use assms(1-4) e r in simp_all)
    have down: "pit_irq_timer irq (armed ?s ((?k + 1) * c)) x = Some (armed ?s ((?k + 1) * c + 1), qemu_set_irq irq 0 x)" for x
      by (rule mode2_lower) (use assms(1-4) e r in simp_all)
    have "2 * Suc i = Suc (Suc (2 * i))" by simp
    then show ?case
      using Suc.IH Suc.prems up down by (simp add: qemu_irq_pulse_def)
  qed simp
  from this [of j "qemu_set_irq irq 0 w"] show ?thesis using load by (simp add: armed_def Let_def)
qed

theorem pit_rate_generator_witness:
  "\<exists>s1 s2. pit_load_count log_irq 1000 11932 (pit_channel_zero\<lparr>has_timer := True, mode := 2\<rparr>) [] = Some (s1, [0]) \<and>
     pit_fires log_irq 4 (s1, [0]) = Some (s2, [0, 1, 0, 1, 0])"
proof -
  have i: "{1..2} = {1, 2 :: nat}" by auto
  have e: "\<forall>i\<in>{1..2}. \<not> 596591 dvd i * 11932 + 1 \<and> \<not> 596591 dvd (i + 1) * (11932 :: nat)"
    unfolding i by (simp add: dvd_eq_mod_eq_0)
  let ?s = "pit_channel_zero\<lparr>has_timer := True, mode := 2\<rparr>"
  have s: "has_timer ?s" "mode ?s = 2" "(2 :: nat) \<le> 11932" "(11932 :: nat) \<le> 65536"
    "unat (1000 :: u64) + tick_ns ((2 + 1) * 11932 + 1) < 2 ^ 64 - 1" by (simp_all add: tick_ns_def)
  from pit_rate_generator [OF s(1-4) e s(5), of log_irq "[]"] obtain s1 s2 where
    "pit_load_count log_irq 1000 (int (11932 mod 65536)) ?s [] = Some (s1, qemu_set_irq log_irq 0 [])"
    "pit_fires log_irq (2 * 2) (s1, qemu_set_irq log_irq 0 []) =
      Some (s2, (qemu_irq_pulse log_irq ^^ 2) (qemu_set_irq log_irq 0 []))" by blast
  moreover have "(qemu_irq_pulse log_irq ^^ 2) [0] = [0, 1, 0, 1, 0]" "qemu_set_irq log_irq 0 [] = [0]"
    by (simp_all add: numeral_2_eq_2 log_irq_def qemu_set_irq_def qemu_irq_pulse_def)
  ultimately show ?thesis by (intro exI [of _ s1] exI [of _ s2]) simp
qed

text \<open>
  The rate generator loses interrupts: when the expiry \<open>k * c + 1\<close> falls on a whole nanosecond,
  the conversion to ticks does not round down, the output is already low again, and the timer
  event lowers the pin and waits for the next period without having raised it.
\<close>

theorem pit_rate_generator_skips:
  assumes "has_timer s" and "mode s = 2" and "count s = int c" and "2 \<le> c" and "c \<le> 65536"
    and "596591 dvd k * c + 1" and "unat (count_load_time s) + tick_ns ((k + 1) * c + 1) < 2 ^ 64 - 1"
    and "next_transition_time s = of_nat (unat (count_load_time s) + tick_ns (k * c + 1))"
    and "irq_timer s = Some (next_transition_time s)"
  shows "\<exists>s'. pit_irq_timer irq s w = Some (s', qemu_set_irq irq 0 w) \<and>
     irq_timer s' = Some (of_nat (unat (count_load_time s) + tick_ns ((k + 1) * c + 1)))"
proof -
  have a: "armed s (k * c + 1) = s" using assms(8,9) by (simp add: armed_def Let_def)
  have "(k * c + 1) div c = k" using assms(4) by (intro div_nat_eqI) (simp_all add: mult.commute)
  moreover have "\<not> c dvd k * c + 1" using assms(4) dvd_add_times_triv_left_iff [of c k 1] by auto
  ultimately have "pit_irq_timer irq (armed s (k * c + 1)) w = Some (armed s ((k + 1) * c + 1), qemu_set_irq irq 0 w)"
    using mode2_timer [OF assms(1-5), of "k * c + 1" "k * c + 1" "(k + 1) * c + 1" irq w] assms(4,6,7) by simp
  then show ?thesis by (simp only: a) (simp add: armed_def Let_def)
qed

theorem pit_rate_generator_skips_witness:
  "\<exists>s'. pit_irq_timer log_irq (pit_channel_zero\<lparr>has_timer := True, mode := 2, count := 59659,
       next_transition_time := 500000000, irq_timer := Some 500000000\<rparr>) [] = Some (s', [0]) \<and>
     irq_timer s' = Some 549999916"
proof -
  have "(596591 :: nat) dvd 10 * 59659 + 1" by simp
  then show ?thesis
    using pit_rate_generator_skips [of "pit_channel_zero\<lparr>has_timer := True, mode := 2, count := 59659,
       next_transition_time := 500000000, irq_timer := Some 500000000\<rparr>" 59659 10 log_irq "[]"]
    by (simp add: tick_ns_def log_irq_def qemu_set_irq_def pit_channel_zero_def)
qed

lemma pit_ticks_start: "pit_ticks s (count_load_time s) = 0"
  using pit_ticks_value [of "count_load_time s" s 0] by (simp add: ns_ticks_def word_unat_eq_iff)

lemma pit_get_count_start:
  assumes "channel_ok s"
  shows "\<exists>n. pit_get_count (count_load_time s) s = Some n \<and> (of_int n :: u16) = of_int (count s)"
proof -
  let ?c = "of_int (count s) :: u64"
  have low: "of_int (sint (ucast ?c :: u32)) = (of_int (count s) :: u16)"
    "of_int (uint (?c AND 0xffff)) = (of_int (count s) :: u16)"
  proof -
    have m: "(0xffff :: u64) = mask 16" by (simp add: mask_eq_exp_minus_1)
    show "of_int (sint (ucast ?c :: u32)) = (of_int (count s) :: u16)"
      by (rule bit_word_eqI) (simp add: bit_simps)
    show "of_int (uint (?c AND 0xffff)) = (of_int (count s) :: u16)"
      unfolding m by (rule bit_word_eqI) (simp add: bit_simps)
  qed
  show ?thesis
    using count_word(2) [OF assms] low by (simp add: pit_get_count_def pit_ticks_start Let_def)
qed

lemma byte_halves:
  fixes lo hi :: u32
  assumes "lo < 0x100" and "hi < 0x100"
  shows "uint (of_int (sint (ucast (ucast lo :: u8) OR push_bit 8 hi)) AND 0xff :: u16) = uint lo"
    "uint (drop_bit 8 (of_int (sint (ucast (ucast lo :: u8) OR push_bit 8 hi)) :: u16)) = uint hi"
proof -
  have b: "bit lo k \<Longrightarrow> k < 8" "bit hi k \<Longrightarrow> k < 8" for k
    using assms not_bit_small [of lo 8 k] not_bit_small [of hi 8 k] by (auto simp: word_less_nat_alt not_less [symmetric])
  have m: "(0xff :: u16) = mask 8" by (simp add: mask_eq_exp_minus_1)
  show "uint (of_int (sint (ucast (ucast lo :: u8) OR push_bit 8 hi)) AND 0xff :: u16) = uint lo"
    unfolding m by (rule bit_eqI) (auto simp: bit_simps min_def dest: b)
  show "uint (drop_bit 8 (of_int (sint (ucast (ucast lo :: u8) OR push_bit 8 hi)) :: u16)) = uint hi"
    by (rule bit_eqI) (auto simp: bit_simps min_def dest: b)
qed

lemma timer_update_frame:
  "pit_irq_timer_update irq s t w = Some (s', w') \<Longrightarrow> \<exists>a b. s' = s\<lparr>next_transition_time := a, irq_timer := b\<rparr>"
  by (auto simp: pit_irq_timer_update_def Let_def split: if_splits Option.bind_splits)
    (metis PITChannelState.surjective PITChannelState.update_convs(14,16))

lemma latch_loaded:
  assumes "0 \<le> v" and "v \<le> 0xffff" and "count_latched s = 0" and "status_latched s = 0" and "rw_mode s = 3"
  shows "\<exists>s1 w1 s2. pit_load_count irq now v s w = Some (s1, w1) \<and>
     pit_latch_count now (s1\<lparr>write_state := x\<rparr>) = Some s2 \<and> latched_count s2 = of_int v \<and> count_latched s2 = 3 \<and>
     status_latched s2 = 0"
proof -
  let ?v = "if v = 0 then 0x10000 else v"
  obtain s1 w1 where l: "pit_load_count irq now v s w = Some (s1, w1)" using load_count_ok [of v irq now s w] assms(1,2) by auto
  then obtain a b where s1: "s1 = s\<lparr>count_load_time := now, count := ?v, next_transition_time := a, irq_timer := b\<rparr>"
    unfolding pit_load_count_def Let_def by (auto dest!: timer_update_frame)
  let ?s = "s1\<lparr>write_state := x\<rparr>"
  have "channel_ok ?s" using assms(1,2) by (simp add: s1 channel_ok_def)
  from pit_get_count_start [OF this] obtain n where
    "pit_get_count now ?s = Some n" "(of_int n :: u16) = of_int ?v" by (auto simp: s1)
  moreover have "(of_int ?v :: u16) = of_int v" by simp
  ultimately show ?thesis using l assms(3-5) by (simp add: pit_latch_count_def s1)
qed

text \<open>
  Programming and reading back: after a control word with two-byte access, the low and high
  byte written to a counter, and the latch command at the time of loading, the next two reads
  return the two bytes, whenever they happen and whatever the mode.
\<close>

theorem pit_program_latch_read:
  assumes "k < 3" and "unat (addr AND 3) = k" and "unat (cmd AND 3) = 3"
    and "unat (drop_bit 6 ctl) = k" and "drop_bit 4 ctl AND 3 = 3"
    and "unat (drop_bit 6 lat) = k" and "drop_bit 4 lat AND 3 = 0" and "lo < 0x100" and "hi < 0x100"
    and "count_latched (pit k) = 0" and "status_latched (pit k) = 0"
  shows "do { (p1, w1) \<leftarrow> pit_ioport_write irq t1 cmd ctl pit w;
              (p2, w2) \<leftarrow> pit_ioport_write irq t2 addr lo p1 w1;
              (p3, w3) \<leftarrow> pit_ioport_write irq t3 addr hi p2 w2;
              (p4, w4) \<leftarrow> pit_ioport_write irq t3 cmd lat p3 w3;
              (v1, p5) \<leftarrow> pit_ioport_read t4 addr p4;
              (v2, p6) \<leftarrow> pit_ioport_read t5 addr p5;
              Some (v1, v2) } = Some (uint lo, uint hi)"
proof -
  let ?a = "(pit k)\<lparr>rw_mode := 3, read_state := 3, write_state := 3, mode := ucast (drop_bit 1 ctl AND 7),
       bcd := ucast (ctl AND 1)\<rparr>"
  let ?b = "?a\<lparr>write_latch := ucast lo, write_state := 4\<rparr>"
  let ?v = "sint (ucast (ucast lo :: u8) OR push_bit 8 hi)"
  have v: "0 \<le> ?v" "?v \<le> 0xffff" using byte_counts(3) [OF assms(9)] by simp_all
  obtain s1 w1 s2 where l: "pit_load_count irq t3 ?v ?b w = Some (s1, w1)"
    and latch: "pit_latch_count t3 (s1\<lparr>write_state := 3\<rparr>) = Some s2" and s2: "latched_count s2 = of_int ?v" "count_latched s2 = 3"
      "status_latched s2 = 0"
    using latch_loaded [OF v, of ?b irq t3 w 3] assms(10,11) by auto
  have c: "ucast (drop_bit 4 ctl AND 3) = (3 :: u8)" "ucast (drop_bit 4 lat AND 3) = (0 :: u8)"
    using assms(5,7) by simp_all
  have k: "k \<noteq> 3" using assms(1) by simp
  have W1: "pit_ioport_write irq t1 cmd ctl pit w = Some (pit(k := ?a), w)"
    using assms(1,3,4) by (simp add: pit_ioport_write_def on_channel_def control_word_def c)
  have W2: "pit_ioport_write irq t2 addr lo (pit(k := ?a)) w = Some (pit(k := ?b), w)"
    using k assms(2) by (simp add: pit_ioport_write_def on_channel_def write_counter_def)
  have W3: "pit_ioport_write irq t3 addr hi (pit(k := ?b)) w = Some (pit(k := s1\<lparr>write_state := 3\<rparr>), w1)"
    using k assms(2) l by (simp add: pit_ioport_write_def on_channel_def write_counter_def)
  have W4: "pit_ioport_write irq t3 cmd lat (pit(k := s1\<lparr>write_state := 3\<rparr>)) w1 = Some (pit(k := s2), w1)"
    using assms(1,3,6) latch by (simp add: pit_ioport_write_def on_channel_def control_word_def c)
  have R: "pit_ioport_read t4 addr (pit(k := s2)) = Some (uint lo, pit(k := s2\<lparr>count_latched := 2\<rparr>))"
    "pit_ioport_read t5 addr (pit(k := s2\<lparr>count_latched := 2\<rparr>)) = Some (uint hi, pit(k := s2\<lparr>count_latched := 0\<rparr>))"
    using k assms(2) s2 byte_halves [OF assms(8,9)] by (simp_all add: pit_ioport_read_def read_counter_def)
  show ?thesis by (simp only: W1 W2 W3 W4 R Option.bind.simps prod.case)
qed

theorem pit_program_latch_read_witness:
  "do { (p1, w1) \<leftarrow> pit_ioport_write None 1 0x43 0x34 pit_initfn ();
        (p2, w2) \<leftarrow> pit_ioport_write None 2 0x40 0x9c p1 w1;
        (p3, w3) \<leftarrow> pit_ioport_write None 3 0x40 0x2e p2 w2;
        (p4, w4) \<leftarrow> pit_ioport_write None 3 0x43 0x00 p3 w3;
        (v1, p5) \<leftarrow> pit_ioport_read 4 0x40 p4;
        (v2, p6) \<leftarrow> pit_ioport_read 5 0x40 p5;
        Some (v1, v2) } = Some (0x9c, 0x2e)"
  using pit_program_latch_read [of 0 "0x40" "0x43" "0x34" 0 "0x9c" "0x2e" pit_initfn None 1 "()" 2 3 4 5]
  by (simp add: pit_initfn_def pit_channel_zero_def drop_bit_eq_div del: bind_eq_Some_conv)

text \<open>
  The scaling of times: \<open>muldiv64\<close> computes the product divided by \<open>c\<close> exactly, without losing
  the bits of the 96-bit intermediate product, whenever the result fits.
\<close>

theorem muldiv64_exact:
  assumes "c \<noteq> 0" and "unat a * unat b div unat c < 2 ^ 64"
  shows "unat (muldiv64 a b c) = unat a * unat b div unat c"
  using assms by (simp add: muldiv64_value)

theorem muldiv64_exact_witness:
  "unat (muldiv64 0xfffffffffffffff0 1193182 1000000000) = 22010322987356910"
  using muldiv64_exact [of 1000000000 "0xfffffffffffffff0" 1193182] by simp

end
