(* ===== verification/Mc146818rtc.thy ===== *)
theory Mc146818rtc
  imports I8254 "HOL-Library.Signed_Division"
begin

text \<open>
  The real time clock and CMOS memory (\<^verbatim>\<open>hw/mc146818rtc.c\<close>), built for the i386 target.  The
  environment holds the pins, the host's calendar time, the notification of a changed date and
  the counter of delivered interrupts of the APIC; these work on the world \<open>'w\<close>.  A timer field is
  the time it expires at in nanoseconds, \<open>None\<close> when it is not running; \<open>now\<close> is the clock.
  The fields of \<^verbatim>\<open>struct tm\<close> are integers: they stay far from the bounds of a C \<^verbatim>\<open>int\<close>.
\<close>

section \<open>Model\<close>

abbreviation (input) RTC_REINJECT_ON_ACK_COUNT :: u16 where "RTC_REINJECT_ON_ACK_COUNT \<equiv> 20"
abbreviation (input) RTC_SECONDS :: nat where "RTC_SECONDS \<equiv> 0"
abbreviation (input) RTC_SECONDS_ALARM :: nat where "RTC_SECONDS_ALARM \<equiv> 1"
abbreviation (input) RTC_MINUTES :: nat where "RTC_MINUTES \<equiv> 2"
abbreviation (input) RTC_MINUTES_ALARM :: nat where "RTC_MINUTES_ALARM \<equiv> 3"
abbreviation (input) RTC_HOURS :: nat where "RTC_HOURS \<equiv> 4"
abbreviation (input) RTC_HOURS_ALARM :: nat where "RTC_HOURS_ALARM \<equiv> 5"
abbreviation (input) RTC_DAY_OF_WEEK :: nat where "RTC_DAY_OF_WEEK \<equiv> 6"
abbreviation (input) RTC_DAY_OF_MONTH :: nat where "RTC_DAY_OF_MONTH \<equiv> 7"
abbreviation (input) RTC_MONTH :: nat where "RTC_MONTH \<equiv> 8"
abbreviation (input) RTC_YEAR :: nat where "RTC_YEAR \<equiv> 9"
abbreviation (input) RTC_REG_A :: nat where "RTC_REG_A \<equiv> 10"
abbreviation (input) RTC_REG_B :: nat where "RTC_REG_B \<equiv> 11"
abbreviation (input) RTC_REG_C :: nat where "RTC_REG_C \<equiv> 12"
abbreviation (input) RTC_REG_D :: nat where "RTC_REG_D \<equiv> 13"
abbreviation (input) REG_A_UIP :: u8 where "REG_A_UIP \<equiv> 0x80"
abbreviation (input) REG_B_SET :: u8 where "REG_B_SET \<equiv> 0x80"
abbreviation (input) REG_B_PIE :: u8 where "REG_B_PIE \<equiv> 0x40"
abbreviation (input) REG_B_AIE :: u8 where "REG_B_AIE \<equiv> 0x20"
abbreviation (input) REG_B_UIE :: u8 where "REG_B_UIE \<equiv> 0x10"
abbreviation (input) REG_B_SQWE :: u8 where "REG_B_SQWE \<equiv> 0x08"
abbreviation (input) REG_B_DM :: u8 where "REG_B_DM \<equiv> 0x04"
abbreviation (input) REG_B_24H :: u8 where "REG_B_24H \<equiv> 0x02"
abbreviation (input) REG_C_UF :: u8 where "REG_C_UF \<equiv> 0x10"
abbreviation (input) REG_C_IRQF :: u8 where "REG_C_IRQF \<equiv> 0x80"
abbreviation (input) REG_C_PF :: u8 where "REG_C_PF \<equiv> 0x40"
abbreviation (input) REG_C_AF :: u8 where "REG_C_AF \<equiv> 0x20"

record tm =
  tm_sec :: int
  tm_min :: int
  tm_hour :: int
  tm_wday :: int
  tm_mday :: int
  tm_mon :: int
  tm_year :: int

record RTCState =
  cmos_data :: "nat \<Rightarrow> u8"
  cmos_index :: nat
  current_tm :: tm
  base_year :: int
  periodic_timer :: "u64 option"
  next_periodic_time :: u64
  next_second_time :: u64
  irq_reinject_on_ack_count :: u16
  irq_coalesced :: u32
  period :: u32
  coalesced_timer :: "u64 option"
  second_timer :: "u64 option"
  second_timer2 :: "u64 option"

record 'w rtc_env =
  rtc_irq :: "'w qemu_irq"
  sqw_irq :: "'w qemu_irq"
  rtc_td_hack :: bool
  apic_reset_irq_delivered :: "'w \<Rightarrow> 'w"
  apic_get_irq_delivered :: "'w \<Rightarrow> bool"
  rtc_change_mon_event :: "tm \<Rightarrow> 'w \<Rightarrow> 'w"
  qemu_get_timedate :: "'w \<Rightarrow> tm"

definition set_cmos :: "nat \<Rightarrow> u8 \<Rightarrow> RTCState \<Rightarrow> RTCState" where
  "set_cmos i v s = s\<lparr>cmos_data := (cmos_data s)(i := v)\<rparr>"

definition rtc_coalesced_timer_update :: "u64 \<Rightarrow> RTCState \<Rightarrow> RTCState" where
  "rtc_coalesced_timer_update now s =
     (if irq_coalesced s = 0 then s\<lparr>coalesced_timer := None\<rparr>
      else
        (let c = min (irq_coalesced s) 7 + 1;
             next_clock = now + muldiv64 (ucast (period s div c)) get_ticks_per_sec 32768
         in s\<lparr>coalesced_timer := Some next_clock\<rparr>))"

definition rtc_coalesced_timer :: "'w rtc_env \<Rightarrow> u64 \<Rightarrow> RTCState \<Rightarrow> 'w \<Rightarrow> RTCState \<times> 'w" where
  "rtc_coalesced_timer E now s w =
     (let (s1, w1) =
        (if irq_coalesced s \<noteq> 0 then
           (let w' = apic_reset_irq_delivered E w;
                s' = set_cmos RTC_REG_C (cmos_data s RTC_REG_C OR 0xc0) s;
                w'' = qemu_irq_raise (rtc_irq E) w'
            in if apic_get_irq_delivered E w'' then (s'\<lparr>irq_coalesced := irq_coalesced s' - 1\<rparr>, w'') else (s', w''))
         else (s, w))
      in (rtc_coalesced_timer_update now s1, w1))"

definition rtc_timer_update :: "'w rtc_env \<Rightarrow> u64 \<Rightarrow> RTCState \<Rightarrow> RTCState" where
  "rtc_timer_update E current_time s =
     (let code = unat (cmos_data s RTC_REG_A AND 0x0f); b = cmos_data s RTC_REG_B in
      if code \<noteq> 0 \<and> (b AND REG_B_PIE \<noteq> 0 \<or> b AND REG_B_SQWE \<noteq> 0 \<and> sqw_irq E \<noteq> None) then
        (let code1 = (if code \<le> 2 then code + 7 else code);
             p = push_bit (code1 - 1) 1 :: u32;
             s1 = (if p \<noteq> period s then s\<lparr>irq_coalesced := (irq_coalesced s * period s) div p\<rparr> else s);
             s2 = s1\<lparr>period := p\<rparr>;
             cur_clock = muldiv64 current_time 32768 get_ticks_per_sec;
             next_irq_clock = (cur_clock AND NOT (ucast p - 1)) + ucast p;
             t = muldiv64 next_irq_clock get_ticks_per_sec 32768 + 1
         in s2\<lparr>next_periodic_time := t, periodic_timer := Some t\<rparr>)
      else s\<lparr>irq_coalesced := 0, periodic_timer := None\<rparr>)"

definition rtc_periodic_timer :: "'w rtc_env \<Rightarrow> u64 \<Rightarrow> RTCState \<Rightarrow> 'w \<Rightarrow> RTCState \<times> 'w" where
  "rtc_periodic_timer E now s w =
     (let s0 = rtc_timer_update E (next_periodic_time s) s;
          (s1, w1) =
            (if cmos_data s0 RTC_REG_B AND REG_B_PIE \<noteq> 0 then
               (let s' = set_cmos RTC_REG_C (cmos_data s0 RTC_REG_C OR 0xc0) s0 in
                if rtc_td_hack E then
                  (let s'' = (if irq_reinject_on_ack_count s' \<ge> RTC_REINJECT_ON_ACK_COUNT
                              then s'\<lparr>irq_reinject_on_ack_count := 0\<rparr> else s');
                       w' = qemu_irq_raise (rtc_irq E) (apic_reset_irq_delivered E w)
                   in if \<not> apic_get_irq_delivered E w'
                      then (rtc_coalesced_timer_update now (s''\<lparr>irq_coalesced := irq_coalesced s'' + 1\<rparr>), w')
                      else (s'', w'))
                else (s', qemu_irq_raise (rtc_irq E) w))
             else (s0, w))
      in if cmos_data s1 RTC_REG_B AND REG_B_SQWE \<noteq> 0 then (s1, qemu_irq_raise (sqw_irq E) w1) else (s1, w1))"

definition rtc_to_bcd :: "RTCState \<Rightarrow> int \<Rightarrow> int" where
  "rtc_to_bcd s a =
     (if cmos_data s RTC_REG_B AND REG_B_DM \<noteq> 0 then a else push_bit 4 (a sdiv 10) OR (a smod 10))"

definition rtc_from_bcd :: "RTCState \<Rightarrow> int \<Rightarrow> int" where
  "rtc_from_bcd s a =
     (if cmos_data s RTC_REG_B AND REG_B_DM \<noteq> 0 then a else drop_bit 4 a * 10 + (a AND 0x0f))"

definition cmos_int :: "RTCState \<Rightarrow> nat \<Rightarrow> int" where
  "cmos_int s i = uint (cmos_data s i)"

definition registers_time :: "RTCState \<Rightarrow> tm" where
  "registers_time s =
     (let hour = rtc_from_bcd s (uint (cmos_data s RTC_HOURS AND 0x7f)) in
      \<lparr>tm_sec = rtc_from_bcd s (cmos_int s RTC_SECONDS),
       tm_min = rtc_from_bcd s (cmos_int s RTC_MINUTES),
       tm_hour = (if cmos_data s RTC_REG_B AND REG_B_24H = 0 \<and> cmos_data s RTC_HOURS AND 0x80 \<noteq> 0
                  then hour + 12 else hour),
       tm_wday = rtc_from_bcd s (cmos_int s RTC_DAY_OF_WEEK) - 1,
       tm_mday = rtc_from_bcd s (cmos_int s RTC_DAY_OF_MONTH),
       tm_mon = rtc_from_bcd s (cmos_int s RTC_MONTH) - 1,
       tm_year = rtc_from_bcd s (cmos_int s RTC_YEAR) + base_year s - 1900\<rparr>)"

definition rtc_set_time :: "'w rtc_env \<Rightarrow> RTCState \<Rightarrow> 'w \<Rightarrow> RTCState \<times> 'w" where
  "rtc_set_time E s w = (s\<lparr>current_tm := registers_time s\<rparr>, rtc_change_mon_event E (registers_time s) w)"

definition rtc_copy_date :: "RTCState \<Rightarrow> RTCState" where
  "rtc_copy_date s =
     (let t = current_tm s;
          s1 = set_cmos RTC_SECONDS (of_int (rtc_to_bcd s (tm_sec t))) s;
          s2 = set_cmos RTC_MINUTES (of_int (rtc_to_bcd s1 (tm_min t))) s1;
          s3 = (if cmos_data s2 RTC_REG_B AND REG_B_24H \<noteq> 0
                then set_cmos RTC_HOURS (of_int (rtc_to_bcd s2 (tm_hour t))) s2
                else
                  (let s' = set_cmos RTC_HOURS (of_int (rtc_to_bcd s2 (tm_hour t smod 12))) s2
                   in if tm_hour t \<ge> 12 then set_cmos RTC_HOURS (cmos_data s' RTC_HOURS OR 0x80) s' else s'));
          s4 = set_cmos RTC_DAY_OF_WEEK (of_int (rtc_to_bcd s3 (tm_wday t + 1))) s3;
          s5 = set_cmos RTC_DAY_OF_MONTH (of_int (rtc_to_bcd s4 (tm_mday t))) s4;
          s6 = set_cmos RTC_MONTH (of_int (rtc_to_bcd s5 (tm_mon t + 1))) s5;
          y = (tm_year t - base_year s6) smod 100;
          y1 = (if y < 0 then y + 100 else y)
      in set_cmos RTC_YEAR (of_int (rtc_to_bcd s6 y1)) s6)"

definition write_reg_b :: "'w rtc_env \<Rightarrow> u64 \<Rightarrow> u32 \<Rightarrow> RTCState \<Rightarrow> 'w \<Rightarrow> RTCState \<times> 'w" where
  "write_reg_b E now d s w =
     (let (d1, s1, w1) =
        (if d AND 0x80 \<noteq> 0 then
           (d AND NOT 0x10, set_cmos RTC_REG_A (cmos_data s RTC_REG_A AND NOT REG_A_UIP) s, w)
         else if cmos_data s RTC_REG_B AND REG_B_SET \<noteq> 0 then (d, rtc_set_time E s w)
         else (d, s, w));
          s2 = (if (ucast (cmos_data s1 RTC_REG_B) XOR d1) AND 0x06 \<noteq> 0 \<and> d1 AND 0x80 = 0
                then rtc_copy_date (set_cmos RTC_REG_B (ucast d1) s1)
                else set_cmos RTC_REG_B (ucast d1) s1)
      in (rtc_timer_update E now s2, w1))"

definition cmos_ioport_write :: "'w rtc_env \<Rightarrow> u64 \<Rightarrow> u32 \<Rightarrow> u32 \<Rightarrow> RTCState \<Rightarrow> 'w \<Rightarrow> RTCState \<times> 'w" where
  "cmos_ioport_write E now addr d s w =
     (if addr AND 1 = 0 then (s\<lparr>cmos_index := unat (d AND 0x7f)\<rparr>, w)
      else
        (let i = cmos_index s in
         if i \<in> {RTC_SECONDS_ALARM, RTC_MINUTES_ALARM, RTC_HOURS_ALARM} then (set_cmos i (ucast d) s, w)
         else if i \<in> {RTC_SECONDS, RTC_MINUTES, RTC_HOURS, RTC_DAY_OF_WEEK, RTC_DAY_OF_MONTH, RTC_MONTH, RTC_YEAR} then
           (let s1 = set_cmos i (ucast d) s in
            if cmos_data s1 RTC_REG_B AND REG_B_SET = 0 then rtc_set_time E s1 w else (s1, w))
         else if i = RTC_REG_A then
           (rtc_timer_update E now
              (set_cmos RTC_REG_A (ucast (d AND NOT 0x80) OR (cmos_data s RTC_REG_A AND REG_A_UIP)) s), w)
         else if i = RTC_REG_B then write_reg_b E now d s w
         else if i = RTC_REG_C \<or> i = RTC_REG_D then (s, w)
         else (set_cmos i (ucast d) s, w)))"

definition days_tab :: "int list" where
  "days_tab = [31, 28, 31, 30, 31, 30, 31, 31, 30, 31, 30, 31]"

definition get_days_in_month :: "int \<Rightarrow> int \<Rightarrow> int" where
  "get_days_in_month month year =
     (if month < 0 \<or> month \<ge> 12 then 31
      else
        (let d = days_tab ! nat month in
         if month = 1 \<and> year smod 4 = 0 \<and> (year smod 100 \<noteq> 0 \<or> year smod 400 = 0) then d + 1 else d))"

definition next_day :: "tm \<Rightarrow> tm" where
  "next_day t =
     (let t1 = t\<lparr>tm_hour := 0, tm_wday := tm_wday t + 1\<rparr>;
          t2 = (if tm_wday t1 < 0 \<or> tm_wday t1 \<ge> 7 then t1\<lparr>tm_wday := 0\<rparr> else t1);
          days_in_month = get_days_in_month (tm_mon t2) (tm_year t2 + 1900);
          t3 = t2\<lparr>tm_mday := tm_mday t2 + 1\<rparr>
      in if tm_mday t3 < 1 then t3\<lparr>tm_mday := 1\<rparr>
         else if tm_mday t3 > days_in_month then
           (let t4 = t3\<lparr>tm_mday := 1, tm_mon := tm_mon t3 + 1\<rparr>
            in if tm_mon t4 \<ge> 12 then t4\<lparr>tm_mon := 0, tm_year := tm_year t4 + 1\<rparr> else t4)
         else t3)"

definition rtc_next_second :: "tm \<Rightarrow> tm" where
  "rtc_next_second t =
     (let t1 = t\<lparr>tm_sec := tm_sec t + 1\<rparr> in
      if tm_sec t1 < 0 \<or> tm_sec t1 \<ge> 60 then
        (let t2 = t1\<lparr>tm_sec := 0, tm_min := tm_min t1 + 1\<rparr> in
         if tm_min t2 < 0 \<or> tm_min t2 \<ge> 60 then
           (let t3 = t2\<lparr>tm_min := 0, tm_hour := tm_hour t2 + 1\<rparr> in
            if tm_hour t3 < 0 \<or> tm_hour t3 \<ge> 24 then next_day t3 else t3)
         else t2)
      else t1)"

definition rtc_update_second :: "RTCState \<Rightarrow> RTCState" where
  "rtc_update_second s =
     (if cmos_data s RTC_REG_A AND 0x70 \<noteq> 0x20 then
        (let t = next_second_time s + 1000000000 in s\<lparr>next_second_time := t, second_timer := Some t\<rparr>)
      else
        (let s1 = s\<lparr>current_tm := rtc_next_second (current_tm s)\<rparr>;
             s2 = (if cmos_data s1 RTC_REG_B AND REG_B_SET = 0
                   then set_cmos RTC_REG_A (cmos_data s1 RTC_REG_A OR REG_A_UIP) s1 else s1)
         in s2\<lparr>second_timer2 := Some (next_second_time s2 + 10000000)\<rparr>))"

definition alarm_field :: "RTCState \<Rightarrow> nat \<Rightarrow> int \<Rightarrow> bool" where
  "alarm_field s i v \<longleftrightarrow> cmos_data s i AND 0xc0 = 0xc0 \<or> rtc_from_bcd s (cmos_int s i) = v"

definition alarm_matches :: "RTCState \<Rightarrow> bool" where
  "alarm_matches s \<longleftrightarrow> alarm_field s RTC_SECONDS_ALARM (tm_sec (current_tm s)) \<and>
     alarm_field s RTC_MINUTES_ALARM (tm_min (current_tm s)) \<and>
     alarm_field s RTC_HOURS_ALARM (tm_hour (current_tm s))"

definition rtc_update_second2 :: "'w rtc_env \<Rightarrow> RTCState \<Rightarrow> 'w \<Rightarrow> RTCState \<times> 'w" where
  "rtc_update_second2 E s w =
     (let s1 = (if cmos_data s RTC_REG_B AND REG_B_SET = 0 then rtc_copy_date s else s);
          (s2, w2) =
            (if cmos_data s1 RTC_REG_B AND REG_B_AIE \<noteq> 0 \<and> alarm_matches s1
             then (set_cmos RTC_REG_C (cmos_data s1 RTC_REG_C OR 0xa0) s1, qemu_irq_raise (rtc_irq E) w)
             else (s1, w));
          s3 = set_cmos RTC_REG_C (cmos_data s2 RTC_REG_C OR REG_C_UF) s2;
          (s4, w4) =
            (if cmos_data s3 RTC_REG_B AND REG_B_UIE \<noteq> 0
             then (set_cmos RTC_REG_C (cmos_data s3 RTC_REG_C OR REG_C_IRQF) s3, qemu_irq_raise (rtc_irq E) w2)
             else (s3, w2));
          s5 = set_cmos RTC_REG_A (cmos_data s4 RTC_REG_A AND NOT REG_A_UIP) s4;
          t = next_second_time s5 + 1000000000
      in (s5\<lparr>next_second_time := t, second_timer := Some t\<rparr>, w4))"

definition cmos_ioport_read :: "'w rtc_env \<Rightarrow> u32 \<Rightarrow> RTCState \<Rightarrow> 'w \<Rightarrow> u32 \<times> RTCState \<times> 'w" where
  "cmos_ioport_read E addr s w =
     (if addr AND 1 = 0 then (0xff, s, w)
      else
        (let ret = ucast (cmos_data s (cmos_index s)) in
         if cmos_index s = RTC_REG_C then
           (let w1 = qemu_irq_lower (rtc_irq E) w in
            if irq_coalesced s \<noteq> 0 \<and> irq_reinject_on_ack_count s < RTC_REINJECT_ON_ACK_COUNT then
              (let s1 = s\<lparr>irq_reinject_on_ack_count := irq_reinject_on_ack_count s + 1\<rparr>;
                   w2 = qemu_irq_raise (rtc_irq E) (apic_reset_irq_delivered E w1)
               in if apic_get_irq_delivered E w2 then (ret, s1\<lparr>irq_coalesced := irq_coalesced s1 - 1\<rparr>, w2)
                  else (ret, s1, w2))
            else (ret, set_cmos RTC_REG_C 0 s, w1))
         else (ret, s, w)))"

definition rtc_set_memory :: "int \<Rightarrow> int \<Rightarrow> RTCState \<Rightarrow> RTCState" where
  "rtc_set_memory addr val s = (if addr \<ge> 0 \<and> addr \<le> 127 then set_cmos (nat addr) (of_int val) s else s)"

definition rtc_set_date :: "tm \<Rightarrow> RTCState \<Rightarrow> RTCState" where
  "rtc_set_date t s = rtc_copy_date (s\<lparr>current_tm := t\<rparr>)"

definition rtc_set_date_from_host :: "'w rtc_env \<Rightarrow> RTCState \<Rightarrow> 'w \<Rightarrow> RTCState" where
  "rtc_set_date_from_host E s w =
     (let t = qemu_get_timedate E w;
          s1 = rtc_set_date t s;
          val = rtc_to_bcd s1 (tm_year t sdiv 100 + 19)
      in rtc_set_memory 0x37 val (rtc_set_memory 0x32 val s1))"

definition rtc_post_load :: "'w rtc_env \<Rightarrow> u64 \<Rightarrow> int \<Rightarrow> RTCState \<Rightarrow> RTCState" where
  "rtc_post_load E now version_id s =
     (if version_id \<ge> 2 \<and> rtc_td_hack E then rtc_coalesced_timer_update now s else s)"

definition rtc_notify_clock_reset :: "'w rtc_env \<Rightarrow> u64 \<Rightarrow> u64 \<Rightarrow> RTCState \<Rightarrow> 'w \<Rightarrow> RTCState" where
  "rtc_notify_clock_reset E now clock s w =
     (let s1 = rtc_set_date_from_host E s w;
          t = now + 990000000;
          s2 = rtc_timer_update E now (s1\<lparr>next_second_time := t, second_timer2 := Some t\<rparr>)
      in if rtc_td_hack E then rtc_coalesced_timer_update clock s2 else s2)"

definition rtc_reset :: "'w rtc_env \<Rightarrow> RTCState \<Rightarrow> 'w \<Rightarrow> RTCState \<times> 'w" where
  "rtc_reset E s w =
     (let s1 = set_cmos RTC_REG_B (cmos_data s RTC_REG_B AND NOT (REG_B_PIE OR REG_B_AIE OR REG_B_SQWE)) s;
          s2 = set_cmos RTC_REG_C
                 (cmos_data s1 RTC_REG_C AND NOT (REG_C_UF OR REG_C_IRQF OR REG_C_PF OR REG_C_AF)) s1
      in (if rtc_td_hack E then s2\<lparr>irq_coalesced := 0\<rparr> else s2, qemu_irq_lower (rtc_irq E) w))"

definition rtc_initfn :: "'w rtc_env \<Rightarrow> u64 \<Rightarrow> RTCState \<Rightarrow> 'w \<Rightarrow> RTCState" where
  "rtc_initfn E now s w =
     (let s1 = set_cmos RTC_REG_D 0x80 (set_cmos RTC_REG_C 0x00 (set_cmos RTC_REG_B 0x02 (set_cmos RTC_REG_A 0x26 s)));
          s2 = rtc_set_date_from_host E s1 w;
          t = now + 990000000
      in s2\<lparr>next_second_time := t, second_timer2 := Some t\<rparr>)"

section \<open>Specification\<close>

text \<open>The Gregorian calendar: the number of days and of seconds since 1 January of the year 1.\<close>

definition leap :: "int \<Rightarrow> bool" where
  "leap y \<longleftrightarrow> 4 dvd y \<and> (\<not> 100 dvd y \<or> 400 dvd y)"

definition month_days :: "int \<Rightarrow> int \<Rightarrow> int" where
  "month_days m y = (if m = 1 then (if leap y then 29 else 28) else if m \<in> {3, 5, 8, 10} then 30 else 31)"

definition days_before_year :: "int \<Rightarrow> int" where
  "days_before_year y = 365 * (y - 1) + (y - 1) div 4 - (y - 1) div 100 + (y - 1) div 400"

definition days_before_month :: "int \<Rightarrow> int \<Rightarrow> int" where
  "days_before_month m y = (\<Sum>k\<leftarrow>[0..m - 1]. month_days k y)"

definition tm_days :: "tm \<Rightarrow> int" where
  "tm_days t = (let y = tm_year t + 1900 in days_before_year y + days_before_month (tm_mon t) y + (tm_mday t - 1))"

definition tm_seconds :: "tm \<Rightarrow> int" where
  "tm_seconds t = ((tm_days t * 24 + tm_hour t) * 60 + tm_min t) * 60 + tm_sec t"

definition valid_date :: "tm \<Rightarrow> bool" where
  "valid_date t \<longleftrightarrow> 1 \<le> tm_year t + 1900 \<and> tm_mon t \<in> {0..11} \<and>
     tm_mday t \<in> {1..month_days (tm_mon t) (tm_year t + 1900)} \<and> tm_wday t = (tm_days t + 1) mod 7"

definition valid_tm :: "tm \<Rightarrow> bool" where
  "valid_tm t \<longleftrightarrow> tm_sec t \<in> {0..59} \<and> tm_min t \<in> {0..59} \<and> tm_hour t \<in> {0..23} \<and> valid_date t"

definition rtc_sample :: RTCState where
  "rtc_sample = \<lparr>cmos_data = (\<lambda>_. 0)(5 := 0x83), cmos_index = 0,
     current_tm = \<lparr>tm_sec = 0, tm_min = 0, tm_hour = 15, tm_wday = 2, tm_mday = 29, tm_mon = 1, tm_year = 100\<rparr>,
     base_year = 1980, periodic_timer = None, next_periodic_time = 0, next_second_time = 0,
     irq_reinject_on_ack_count = 0, irq_coalesced = 0, period = 0, coalesced_timer = None, second_timer = None,
     second_timer2 = None\<rparr>"

definition rtc_quiet_env :: "unit rtc_env" where
  "rtc_quiet_env = \<lparr>rtc_irq = None, sqw_irq = None, rtc_td_hack = False, apic_reset_irq_delivered = \<lambda>w. w,
     apic_get_irq_delivered = \<lambda>_. True, rtc_change_mon_event = \<lambda>_ w. w, qemu_get_timedate = \<lambda>_. current_tm rtc_sample\<rparr>"

section \<open>The calendar\<close>

lemma month_cases:
  assumes "m \<in> {0..11 :: int}"
  shows "m = 0 \<or> m = 1 \<or> m = 2 \<or> m = 3 \<or> m = 4 \<or> m = 5 \<or> m = 6 \<or> m = 7 \<or> m = 8 \<or> m = 9 \<or> m = 10 \<or> m = 11"
  using assms by simp presburger

lemma smod_pos: "0 \<le> a \<Longrightarrow> 0 < b \<Longrightarrow> a smod b = a mod (b :: int)"
  by (simp add: signed_modulo_int_def sgn_if)

lemma sdiv_pos: "0 \<le> a \<Longrightarrow> 0 < b \<Longrightarrow> a sdiv b = a div (b :: int)"
  by (simp add: signed_divide_int_def sgn_if)

lemma get_days_in_month_eq:
  assumes "m \<in> {0..11}" and "1 \<le> y"
  shows "get_days_in_month m y = month_days m y"
proof -
  have "(y smod 4 = 0 \<and> (y smod 100 \<noteq> 0 \<or> y smod 400 = 0)) = leap y"
    using assms(2) by (simp add: smod_pos leap_def dvd_eq_mod_eq_0)
  then show ?thesis
    using month_cases [OF assms(1)]
    by (elim disjE) (simp_all add: get_days_in_month_def days_tab_def month_days_def)
qed

lemma days_before_month_Suc:
  assumes "0 \<le> m"
  shows "days_before_month (m + 1) y = days_before_month m y + month_days m y"
  using upto_rec2 [of 0 m] assms by (simp add: days_before_month_def)

lemma days_before_month_0 [simp]: "days_before_month 0 y = 0"
  by (simp add: days_before_month_def)

lemma days_before_month_year: "days_before_month 12 y = (if leap y then 366 else 365)"
proof -
  have "[0..11 :: int] = [0, 1, 2, 3, 4, 5, 6, 7, 8, 9, 10, 11]" by (simp add: upto.simps)
  then show ?thesis by (simp add: days_before_month_def month_days_def)
qed

lemma div_step:
  assumes "0 < k"
  shows "(y - 1) div k = y div k - (if k dvd y then 1 else (0 :: int))"
proof -
  have y: "y = k * (y div k) + y mod k" by simp
  have r: "0 \<le> y mod k" "y mod k < k" using assms by simp_all
  show ?thesis
  proof (cases "y mod k = 0")
    case True
    have "(y - 1) div k = y div k - 1"
      by (rule int_div_pos_eq [of _ _ _ "k - 1"]) (use y True assms in \<open>simp_all add: algebra_simps\<close>)
    then show ?thesis using True by (simp add: dvd_eq_mod_eq_0)
  next
    case False
    have "(y - 1) div k = y div k"
      by (rule int_div_pos_eq [of _ _ _ "y mod k - 1"]) (use y r False in simp_all)
    then show ?thesis using False by (simp add: dvd_eq_mod_eq_0)
  qed
qed

lemma days_before_year_Suc: "days_before_year (y + 1) = days_before_year y + (if leap y then 366 else 365)"
proof -
  have "100 dvd y \<Longrightarrow> 4 dvd y" "400 dvd y \<Longrightarrow> 100 dvd y" by (erule dvd_trans [rotated], simp)+
  then show ?thesis by (auto simp: days_before_year_def div_step leap_def)
qed

lemma next_weekday:
  "(if (d + 1) mod 7 + 1 < 0 \<or> (d + 1) mod 7 + 1 \<ge> 7 then 0 else (d + 1) mod 7 + 1) = (d + 2) mod (7 :: int)"
proof -
  let ?m = "(d + 1) mod 7"
  have "(d + 2) mod 7 = (?m + 1) mod 7" using mod_add_left_eq [of "d + 1" 7 1] by (simp add: add.commute)
  moreover have "0 \<le> ?m" "?m < 7" by simp_all
  ultimately show ?thesis by (cases "?m = 6") auto
qed

lemma next_day_ok:
  assumes "valid_date t"
  shows "tm_days (next_day t) = tm_days t + 1 \<and> valid_date (next_day t) \<and>
     tm_hour (next_day t) = 0 \<and> tm_min (next_day t) = tm_min t \<and> tm_sec (next_day t) = tm_sec t"
proof -
  let ?y = "tm_year t + 1900" and ?m = "tm_mon t"
  have v: "1 \<le> ?y" "?m \<in> {0..11}" "1 \<le> tm_mday t" "tm_mday t \<le> month_days ?m ?y" "tm_wday t = (tm_days t + 1) mod 7"
    using assms by (simp_all add: valid_date_def)
  have dim: "get_days_in_month ?m ?y = month_days ?m ?y" by (rule get_days_in_month_eq [OF v(2,1)])
  define W where "W = (tm_days t + 2) mod 7"
  have w: "(if tm_wday t + 1 < 0 \<or> tm_wday t + 1 \<ge> 7 then 0 else tm_wday t + 1) = W"
    unfolding v(5) W_def by (rule next_weekday)
  have nxt: "next_day t =
     (if tm_mday t < month_days ?m ?y then t\<lparr>tm_hour := 0, tm_wday := W, tm_mday := tm_mday t + 1\<rparr>
      else if ?m < 11 then t\<lparr>tm_hour := 0, tm_wday := W, tm_mday := 1, tm_mon := ?m + 1\<rparr>
      else t\<lparr>tm_hour := 0, tm_wday := W, tm_mday := 1, tm_mon := 0, tm_year := tm_year t + 1\<rparr>)"
    using v(3) w by (auto simp: next_day_def Let_def dim)
  have "tm_days (next_day t) = tm_days t + 1"
  proof -
    have "tm_mday t = month_days ?m ?y" if "\<not> tm_mday t < month_days ?m ?y" using v(4) that by simp
    moreover have "?m = 11" if "\<not> ?m < 11" using v(2) that by simp
    moreover have "days_before_year (?y + 1) = days_before_year ?y + days_before_month 11 ?y + month_days 11 ?y"
      using days_before_month_year [of ?y] days_before_month_Suc [of 11 ?y] days_before_year_Suc [of ?y] by simp
    ultimately show ?thesis
      using v(2) days_before_month_Suc [of ?m ?y] by (cases "?m < 11") (auto simp: nxt tm_days_def Let_def add.commute)
  qed
  moreover have "1 \<le> month_days m y" for m y by (simp add: month_days_def)
  moreover have "tm_wday (next_day t) = W" "1 \<le> tm_year (next_day t) + 1900" "tm_mon (next_day t) \<in> {0..11}"
    "tm_hour (next_day t) = 0" "tm_min (next_day t) = tm_min t" "tm_sec (next_day t) = tm_sec t"
    using v(1,2) by (simp_all add: nxt)
  moreover have "1 \<le> tm_mday (next_day t) \<and> tm_mday (next_day t) \<le> month_days (tm_mon (next_day t)) (tm_year (next_day t) + 1900)"
    using v(3) calculation(2) by (simp add: nxt)
  ultimately show ?thesis by (simp add: valid_date_def W_def add.commute)
qed

text \<open>
  C25.  The clock refines the calendar: one step of \<open>rtc_next_second\<close> from a valid time is a valid
  time exactly one second later in the Gregorian calendar, over every minute, hour, month and
  leap-year border, and the day of the week stays the one of the date.
\<close>

theorem rtc_next_second_calendar:
  assumes "valid_tm t"
  shows "valid_tm (rtc_next_second t) \<and> tm_seconds (rtc_next_second t) = tm_seconds t + 1"
proof -
  have v: "0 \<le> tm_sec t" "tm_sec t < 60" "0 \<le> tm_min t" "tm_min t < 60" "0 \<le> tm_hour t" "tm_hour t < 24" "valid_date t"
    using assms by (simp_all add: valid_tm_def)
  show ?thesis
  proof (cases "tm_sec t = 59 \<and> tm_min t = 59 \<and> tm_hour t = 23")
    case True
    let ?t = "t\<lparr>tm_sec := 0, tm_min := 0, tm_hour := 24\<rparr>"
    have "valid_date ?t" using v(7) by (simp add: valid_date_def tm_days_def)
    moreover have "rtc_next_second t = next_day ?t" using True by (simp add: rtc_next_second_def Let_def)
    ultimately show ?thesis
      using next_day_ok [of ?t] True by (simp add: valid_tm_def tm_seconds_def tm_days_def [of ?t] tm_days_def [of t])
  next
    case False
    then show ?thesis
      using v by (auto simp: rtc_next_second_def Let_def valid_tm_def tm_seconds_def tm_days_def valid_date_def)
  qed
qed

theorem rtc_next_second_calendar_witness:
  "rtc_next_second \<lparr>tm_sec = 59, tm_min = 59, tm_hour = 23, tm_wday = 1, tm_mday = 28, tm_mon = 1, tm_year = 100\<rparr> =
     \<lparr>tm_sec = 0, tm_min = 0, tm_hour = 0, tm_wday = 2, tm_mday = 29, tm_mon = 1, tm_year = 100\<rparr> \<and>
   valid_tm \<lparr>tm_sec = 0, tm_min = 0, tm_hour = 0, tm_wday = 2, tm_mday = 29, tm_mon = 1, tm_year = 100\<rparr>"
proof -
  let ?t = "\<lparr>tm_sec = 59, tm_min = 59, tm_hour = 23, tm_wday = 1, tm_mday = 28, tm_mon = 1, tm_year = 100\<rparr>"
  have n: "rtc_next_second ?t =
     \<lparr>tm_sec = 0, tm_min = 0, tm_hour = 0, tm_wday = 2, tm_mday = 29, tm_mon = 1, tm_year = 100\<rparr>"
    by (simp add: rtc_next_second_def next_day_def Let_def get_days_in_month_def days_tab_def smod_pos)
  have "valid_tm ?t"
    by (simp add: valid_tm_def valid_date_def month_days_def leap_def tm_days_def days_before_year_def
        days_before_month_def Let_def)
  from rtc_next_second_calendar [OF this] show ?thesis by (simp add: n)
qed

section \<open>The registers\<close>

lemma set_cmos_simps [simp]:
  "cmos_data (set_cmos i v s) j = (if j = i then v else cmos_data s j)"
  "current_tm (set_cmos i v s) = current_tm s" "base_year (set_cmos i v s) = base_year s"
  by (simp_all add: set_cmos_def)

lemma set_cmos_bcd [simp]:
  "i \<noteq> RTC_REG_B \<Longrightarrow> rtc_to_bcd (set_cmos i v s) = rtc_to_bcd s"
  "i \<noteq> RTC_REG_B \<Longrightarrow> rtc_from_bcd (set_cmos i v s) = rtc_from_bcd s"
  by (simp_all add: rtc_to_bcd_def rtc_from_bcd_def fun_eq_iff)

lemma bcd_value:
  assumes "0 \<le> a" and "a < (100 :: int)"
  shows "push_bit 4 (a sdiv 10) OR (a smod 10) = a div 10 * 16 + a mod 10"
proof -
  have "\<not> bit (a mod 10) n" if "4 \<le> n" for n
  proof -
    have "a mod 10 < 2 ^ 4" by simp
    then have "take_bit 4 (a mod 10) = a mod 10" by (simp add: take_bit_int_eq_self_iff)
    then show ?thesis using that by (metis bit_take_bit_iff leD)
  qed
  then have "push_bit 4 (a div 10) OR (a mod 10) = push_bit 4 (a div 10) + a mod 10"
    by (intro disjunctive_add [symmetric]) (auto simp: bit_simps)
  then show ?thesis using assms by (simp add: sdiv_pos smod_pos push_bit_eq_mult)
qed

lemma bcd_roundtrip:
  assumes "0 \<le> a" and "a < 100"
  shows "0 \<le> rtc_to_bcd s a" "rtc_to_bcd s a < 0x9a" "rtc_from_bcd s (rtc_to_bcd s a) = a"
    "a < 80 \<Longrightarrow> rtc_to_bcd s a < 0x80"
proof -
  have q: "0 \<le> a div 10" "a div 10 \<le> 9" "0 \<le> a mod 10" "a mod 10 \<le> 9" using assms by presburger+
  have e: "a div 10 \<le> 7" if "a < 80" using that by presburger
  show "0 \<le> rtc_to_bcd s a" "rtc_to_bcd s a < 0x9a" "a < 80 \<Longrightarrow> rtc_to_bcd s a < 0x80"
    using assms q e by (auto simp: rtc_to_bcd_def bcd_value)
  have "drop_bit 4 (a div 10 * 16 + a mod 10) = a div 10" using q by (simp add: drop_bit_eq_div)
  moreover have "(a div 10 * 16 + a mod 10) AND 0x0f = a mod 10"
  proof -
    have m: "(0x0f :: int) = mask 4" by (simp add: mask_eq_exp_minus_1)
    have "(a div 10 * 16 + a mod 10) AND 0x0f = (a div 10 * 16 + a mod 10) mod 2 ^ 4"
      unfolding m by (simp only: take_bit_eq_mask [symmetric] take_bit_eq_mod)
    then show ?thesis using q by simp
  qed
  ultimately show "rtc_from_bcd s (rtc_to_bcd s a) = a"
    using assms by (simp add: rtc_from_bcd_def rtc_to_bcd_def bcd_value)
qed

lemma bcd_byte:
  assumes "0 \<le> a" and "a < 100"
  shows "uint (of_int (rtc_to_bcd s a) :: u8) = rtc_to_bcd s a"
  using bcd_roundtrip(1,2) [OF assms, of s] by (simp add: uint_word_of_int)

lemma copy_date_regs:
  "cmos_data (rtc_copy_date s) RTC_SECONDS = of_int (rtc_to_bcd s (tm_sec (current_tm s)))"
  "cmos_data (rtc_copy_date s) RTC_MINUTES = of_int (rtc_to_bcd s (tm_min (current_tm s)))"
  "cmos_data (rtc_copy_date s) RTC_HOURS =
     (if cmos_data s RTC_REG_B AND REG_B_24H \<noteq> 0 then of_int (rtc_to_bcd s (tm_hour (current_tm s)))
      else if tm_hour (current_tm s) \<ge> 12 then of_int (rtc_to_bcd s (tm_hour (current_tm s) smod 12)) OR 0x80
      else of_int (rtc_to_bcd s (tm_hour (current_tm s) smod 12)))"
  "cmos_data (rtc_copy_date s) RTC_DAY_OF_WEEK = of_int (rtc_to_bcd s (tm_wday (current_tm s) + 1))"
  "cmos_data (rtc_copy_date s) RTC_DAY_OF_MONTH = of_int (rtc_to_bcd s (tm_mday (current_tm s)))"
  "cmos_data (rtc_copy_date s) RTC_MONTH = of_int (rtc_to_bcd s (tm_mon (current_tm s) + 1))"
  "cmos_data (rtc_copy_date s) RTC_YEAR = of_int (rtc_to_bcd s
     (let y = (tm_year (current_tm s) - base_year s) smod 100 in if y < 0 then y + 100 else y))"
  "cmos_data (rtc_copy_date s) RTC_REG_B = cmos_data s RTC_REG_B"
  "base_year (rtc_copy_date s) = base_year s" "current_tm (rtc_copy_date s) = current_tm s"
  "i > RTC_YEAR \<Longrightarrow> cmos_data (rtc_copy_date s) i = cmos_data s i"
  "cmos_data (rtc_copy_date s) RTC_HOURS_ALARM = cmos_data s RTC_HOURS_ALARM"
  unfolding rtc_copy_date_def by (simp_all add: Let_def)

lemma copy_date_from_bcd [simp]: "rtc_from_bcd (rtc_copy_date s) = rtc_from_bcd s"
  by (simp add: rtc_from_bcd_def fun_eq_iff copy_date_regs(8))

lemma smod_year:
  assumes "b \<le> y + 1900" and "y + 1900 < b + (100 :: int)"
  shows "(let r = (y - b) smod 100 in if r < 0 then r + 100 else r) = y + 1900 - b"
proof -
  let ?d = "y + 1900 - b"
  have neg: "(- d) mod 100 = (if d = 0 then 0 else 100 - d)" if "0 \<le> d" "d < 100" for d :: int
    using that by (simp add: zmod_zminus1_eq_if)
  have d: "0 \<le> ?d" "?d < 100" and e: "y - b = ?d - 1900" using assms by simp_all
  have "(?d - 1900) smod 100 = - ((1900 - ?d) mod 100)"
    using d by (simp add: signed_modulo_int_def sgn_if)
  also have "1900 - ?d = - ?d + 19 * 100" by simp
  also have "(- ?d + 19 * 100) mod 100 = (- ?d) mod 100" by (rule mod_mult_self1)
  also have "\<dots> = (if ?d = 0 then 0 else 100 - ?d)" using d by (rule neg)
  finally show ?thesis using d unfolding e by (simp add: Let_def)
qed

lemma low_byte_masks:
  assumes "0 \<le> a" and "a < 0x80"
  shows "uint (of_int a AND 0x7f :: u8) = a" "(of_int a :: u8) AND 0x80 = 0"
    "uint ((of_int a OR 0x80) AND 0x7f :: u8) = a" "((of_int a :: u8) OR 0x80) AND 0x80 \<noteq> 0"
proof -
  have u: "uint (of_int a :: u8) = a" using assms by (simp add: uint_word_of_int)
  have "(of_int a :: u8) < 0x80" unfolding word_less_def using u assms by simp
  then have s: "unat (of_int a :: u8) < 2 ^ 7" by (simp add: word_less_nat_alt)
  have nb: "\<not> bit (of_int a :: u8) k" if "7 \<le> k" for k using s that by (rule not_bit_small)
  have m: "(0x7f :: u8) = mask 7" "(0x80 :: u8) = BIT 7" by (simp_all add: mask_eq_exp_minus_1 BIT_def push_bit_of_1)
  have "of_int a AND 0x7f = (of_int a :: u8)"
    unfolding m by (rule bit_word_eqI) (use nb in \<open>auto simp: bit_simps not_less [symmetric]\<close>)
  then show "uint (of_int a AND 0x7f :: u8) = a" using u by simp
  have "(of_int a OR 0x80) AND 0x7f = (of_int a :: u8)"
    unfolding m by (rule bit_word_eqI) (use nb in \<open>auto simp: bit_simps not_less [symmetric]\<close>)
  then show "uint ((of_int a OR 0x80) AND 0x7f :: u8) = a" using u by simp
  show "(of_int a :: u8) AND 0x80 = 0" unfolding m using nb by simp
  show "((of_int a :: u8) OR 0x80) AND 0x80 \<noteq> 0" by (simp add: masks bit_simps)
qed

lemma hours_register:
  fixes reg :: u8
  assumes "0 \<le> h" and "h < 24"
    and reg_def: "reg = (if cmos_data s RTC_REG_B AND REG_B_24H \<noteq> 0 then of_int (rtc_to_bcd s h)
      else if h \<ge> 12 then of_int (rtc_to_bcd s (h smod 12)) OR 0x80 else of_int (rtc_to_bcd s (h smod 12)))"
  shows "(let x = rtc_from_bcd s (uint (reg AND 0x7f)) in
     if cmos_data s RTC_REG_B AND REG_B_24H = 0 \<and> reg AND 0x80 \<noteq> 0 then x + 12 else x) = h"
proof -
  have b: "0 \<le> rtc_to_bcd s a" "rtc_to_bcd s a < 0x80" "rtc_from_bcd s (rtc_to_bcd s a) = a" if "0 \<le> a" "a < 80" for a
    using bcd_roundtrip [of a s] that by auto
  have m: "h smod 12 = h mod 12" "h mod 12 = (if h < 12 then h else h - 12)" "h mod 12 < 80" "h < 80"
    using assms(1,2) by (simp_all add: smod_pos) presburger
  show ?thesis
    using b [of h] b [of "h mod 12"] m assms(1) low_byte_masks [of "rtc_to_bcd s h"] low_byte_masks [of "rtc_to_bcd s (h mod 12)"]
    by (auto simp: reg_def Let_def)
qed

text \<open>
  C26.  Time and registers agree: in every format (binary or BCD, 24 or 12 hours), copying a valid
  time of the hundred years from the base year to the registers and setting the time from the
  registers again restores it.
\<close>

theorem rtc_registers_roundtrip:
  assumes "valid_tm (current_tm s)" and "base_year s \<le> tm_year (current_tm s) + 1900"
    and "tm_year (current_tm s) + 1900 < base_year s + 100"
  shows "current_tm (fst (rtc_set_time E (rtc_copy_date s) w)) = current_tm s"
proof -
  let ?t = "current_tm s"
  have v: "0 \<le> tm_sec ?t" "tm_sec ?t < 60" "0 \<le> tm_min ?t" "tm_min ?t < 60" "0 \<le> tm_hour ?t" "tm_hour ?t < 24"
    "0 \<le> tm_mon ?t" "tm_mon ?t < 12" "1 \<le> tm_mday ?t" "tm_mday ?t \<le> 31" "0 \<le> tm_wday ?t" "tm_wday ?t < 7"
    using assms(1) by (auto simp: valid_tm_def valid_date_def month_days_def split: if_splits)
  have r: "rtc_from_bcd s (uint (of_int (rtc_to_bcd s a) :: u8)) = a" if "0 \<le> a" "a < 100" for a
    using bcd_byte [OF that] bcd_roundtrip(3) [OF that] by simp
  have y: "rtc_from_bcd s (uint (cmos_data (rtc_copy_date s) RTC_YEAR)) = tm_year ?t + 1900 - base_year s"
    unfolding copy_date_regs smod_year [OF assms(2,3)] using assms(2,3) by (intro r) simp_all
  have h: "(let h = rtc_from_bcd s (uint (cmos_data (rtc_copy_date s) RTC_HOURS AND 0x7f)) in
      if cmos_data s RTC_REG_B AND REG_B_24H = 0 \<and> cmos_data (rtc_copy_date s) RTC_HOURS AND 0x80 \<noteq> 0 then h + 12 else h)
      = tm_hour ?t"
    unfolding copy_date_regs by (rule hours_register [OF v(5,6) refl])
  show ?thesis
    using v y h
    by (simp add: rtc_set_time_def registers_time_def cmos_int_def Let_def copy_date_regs r)
qed

lemma rtc_sample_valid: "valid_tm (current_tm rtc_sample)"
  by (simp add: rtc_sample_def valid_tm_def valid_date_def month_days_def leap_def tm_days_def days_before_year_def
      days_before_month_def Let_def)

theorem rtc_registers_roundtrip_witness:
  "current_tm (fst (rtc_set_time rtc_quiet_env (rtc_copy_date rtc_sample) ())) =
     \<lparr>tm_sec = 0, tm_min = 0, tm_hour = 15, tm_wday = 2, tm_mday = 29, tm_mon = 1, tm_year = 100\<rparr>"
  using rtc_registers_roundtrip [OF rtc_sample_valid, of rtc_quiet_env "()"] by (simp add: rtc_sample_def)

lemma pm_value:
  assumes "(b :: u8) AND 0xc0 = 0x80"
  shows "80 \<le> rtc_from_bcd s (uint b)"
proof -
  have "bit (b AND 0xc0) 7" by (simp add: assms bit_simps)
  then have "bit b 7" by (simp add: bit_simps)
  then have "\<not> unat b < 2 ^ 7" using not_bit_small [of b 7 7] by auto
  then have "(0x80 :: u8) \<le> b" by (simp add: word_le_nat_alt)
  then have u: "128 \<le> uint b" by (simp add: word_le_def)
  then have "8 \<le> uint b div 16" by presburger
  moreover have "0 \<le> uint b AND 15" by simp
  ultimately have "80 \<le> uint b div 16 * 10 + (uint b AND 15)" by linarith
  then show ?thesis using u by (simp add: rtc_from_bcd_def drop_bit_eq_div)
qed

lemma pm_register:
  assumes "0 \<le> h" and "h < 12"
  shows "((of_int (rtc_to_bcd s h) :: u8) OR 0x80) AND 0xc0 = 0x80"
proof -
  have r: "0 \<le> rtc_to_bcd s h" "rtc_to_bcd s h < 0x40"
    using assms by (auto simp: rtc_to_bcd_def bcd_value)
  have "uint (of_int (rtc_to_bcd s h) :: u8) = rtc_to_bcd s h" using assms by (intro bcd_byte) simp_all
  then have "(of_int (rtc_to_bcd s h) :: u8) < 0x40" unfolding word_less_def using r by simp
  then have "unat (of_int (rtc_to_bcd s h) :: u8) < 2 ^ 6" by (simp add: word_less_nat_alt)
  then have nb: "\<not> bit (of_int (rtc_to_bcd s h) :: u8) k" if "6 \<le> k" for k using that by (rule not_bit_small)
  have m: "(0xc0 :: u8) = BIT 7 OR BIT 6" "(0x80 :: u8) = BIT 7" by (simp_all add: BIT_def push_bit_of_1)
  show ?thesis unfolding m by (rule bit_word_eqI) (auto simp: bit_and_iff bit_or_iff nb)
qed

text \<open>
  Afternoon alarms never fire: in the 12 hour format the hours register marks an afternoon hour
  with bit 7, but the alarm comparison does not decode that mark, so an alarm hour in that form
  matches no time of day and the alarm flag and pin stay as they are.
\<close>

theorem rtc_pm_alarm_never_fires:
  assumes "valid_tm (current_tm s)"
  shows "(cmos_data s RTC_REG_B AND REG_B_24H = 0 \<and> tm_hour (current_tm s) \<ge> 12 \<longrightarrow>
       cmos_data (rtc_copy_date s) RTC_HOURS AND 0xc0 = 0x80) \<and>
     (cmos_data s RTC_HOURS_ALARM AND 0xc0 = 0x80 \<longrightarrow>
       bit (cmos_data (fst (rtc_update_second2 E s w)) RTC_REG_C) 5 = bit (cmos_data s RTC_REG_C) 5 \<and>
       (cmos_data s RTC_REG_B AND REG_B_UIE = 0 \<longrightarrow> snd (rtc_update_second2 E s w) = w))"
proof -
  have h: "0 \<le> tm_hour (current_tm s)" "tm_hour (current_tm s) < 24" using assms by (auto simp: valid_tm_def)
  have "cmos_data (rtc_copy_date s) RTC_HOURS AND 0xc0 = 0x80"
    if "cmos_data s RTC_REG_B AND REG_B_24H = 0" "tm_hour (current_tm s) \<ge> 12"
    using that h pm_register [of "tm_hour (current_tm s) smod 12" s] by (simp add: copy_date_regs(3) smod_pos)
  moreover have "bit (cmos_data (fst (rtc_update_second2 E s w)) RTC_REG_C) 5 = bit (cmos_data s RTC_REG_C) 5 \<and>
       (cmos_data s RTC_REG_B AND REG_B_UIE = 0 \<longrightarrow> snd (rtc_update_second2 E s w) = w)"
    if a: "cmos_data s RTC_HOURS_ALARM AND 0xc0 = 0x80"
  proof -
    define s1 where "s1 = (if cmos_data s RTC_REG_B AND REG_B_SET = 0 then rtc_copy_date s else s)"
    have s1: "cmos_data s1 RTC_HOURS_ALARM = cmos_data s RTC_HOURS_ALARM" "cmos_data s1 RTC_REG_B = cmos_data s RTC_REG_B"
      "cmos_data s1 RTC_REG_C = cmos_data s RTC_REG_C" "current_tm s1 = current_tm s"
      using copy_date_regs(11) [of RTC_REG_C s] by (simp_all add: s1_def copy_date_regs)
    have "\<not> alarm_matches s1"
      using pm_value [OF a, of s1] h a s1 by (simp add: alarm_matches_def alarm_field_def cmos_int_def)
    then show ?thesis
      using s1 by (auto simp: rtc_update_second2_def s1_def [symmetric] Let_def bit_simps)
  qed
  ultimately show ?thesis by blast
qed

theorem rtc_pm_alarm_never_fires_witness:
  "bit (cmos_data (fst (rtc_update_second2 rtc_quiet_env (set_cmos RTC_REG_B REG_B_AIE rtc_sample) ())) RTC_REG_C) 5 = False"
proof -
  have "valid_tm (current_tm (set_cmos RTC_REG_B REG_B_AIE rtc_sample))" using rtc_sample_valid by simp
  from rtc_pm_alarm_never_fires [OF this, of rtc_quiet_env "()"] show ?thesis by (simp add: rtc_sample_def)
qed

end
