(* ===== verification/Dma.thy ===== *)
theory Dma
  imports Irq Exec_Mem "HOL-Library.Monad_Syntax"
begin

text \<open>
  The two 8237 DMA controllers (\<^verbatim>\<open>hw/dma.c\<close>).  The state is the pair of controllers and whether the
  bottom half that runs the channels again is scheduled.  A transfer handler belongs to the device
  of the channel: a channel holds the name of its handler, the handlers themselves are a parameter
  that maps the name, the channel, the position and the length to the new position and may change
  the controllers and the world.  A call of a handler that was never set and an access past the four
  channels of a controller are \<^const>\<open>None\<close>.
\<close>

section \<open>Model\<close>

datatype dma_handler = NoHandler | Phony | Handler nat

abbreviation (input) ADDR :: nat where "ADDR \<equiv> 0"

abbreviation (input) COUNT :: nat where "COUNT \<equiv> 1"

record dma_regs =
  dnow :: "nat \<Rightarrow> int"
  dbase :: "nat \<Rightarrow> u16"
  dmode :: u8
  page :: u8
  pageh :: u8
  dack :: u8
  eop :: u8
  transfer_handler :: dma_handler

record dma_cont =
  dstatus :: u8
  dcommand :: u8
  dmask :: u8
  flip_flop :: u8
  dshift :: nat
  dregs :: "nat \<Rightarrow> dma_regs"

record dma =
  dma_controllers :: "nat \<Rightarrow> dma_cont"
  dma_bh_scheduled :: bool

type_synonym 'w dma_handlers =
  "nat \<Rightarrow> int \<Rightarrow> int \<Rightarrow> int \<Rightarrow> dma \<Rightarrow> 'w \<Rightarrow> (int \<times> dma \<times> 'w) option"

abbreviation (input) CMD_NOT_SUPPORTED :: u32 where "CMD_NOT_SUPPORTED \<equiv> 0xfb"

definition dma_channels :: "int list" where
  "dma_channels = [-1, 2, 3, 1, -1, -1, -1, 0]"

definition page_chan :: "u32 \<Rightarrow> nat option" where
  "page_chan nport = (let ichan = dma_channels ! unat (nport AND 7) in if ichan = -1 then None else Some (nat ichan))"

definition on_cont :: "nat \<Rightarrow> (dma_cont \<Rightarrow> dma_cont) \<Rightarrow> dma \<Rightarrow> dma" where
  "on_cont c f D = D\<lparr>dma_controllers := (dma_controllers D)(c := f (dma_controllers D c))\<rparr>"

definition on_regs :: "nat \<Rightarrow> (dma_regs \<Rightarrow> dma_regs) \<Rightarrow> dma_cont \<Rightarrow> dma_cont" where
  "on_regs i f d = d\<lparr>dregs := (dregs d)(i := f (dregs d i))\<rparr>"

definition write_page :: "u32 \<Rightarrow> u32 \<Rightarrow> dma_cont \<Rightarrow> dma_cont" where
  "write_page nport data d =
     (case page_chan nport of None \<Rightarrow> d | Some i \<Rightarrow> on_regs i (\<lambda>r. r\<lparr>page := ucast data\<rparr>) d)"

definition write_pageh :: "u32 \<Rightarrow> u32 \<Rightarrow> dma_cont \<Rightarrow> dma_cont" where
  "write_pageh nport data d =
     (case page_chan nport of None \<Rightarrow> d | Some i \<Rightarrow> on_regs i (\<lambda>r. r\<lparr>pageh := ucast data\<rparr>) d)"

definition read_page :: "u32 \<Rightarrow> dma_cont \<Rightarrow> u32" where
  "read_page nport d = (case page_chan nport of None \<Rightarrow> 0 | Some i \<Rightarrow> ucast (page (dregs d i)))"

definition read_pageh :: "u32 \<Rightarrow> dma_cont \<Rightarrow> u32" where
  "read_pageh nport d = (case page_chan nport of None \<Rightarrow> 0 | Some i \<Rightarrow> ucast (pageh (dregs d i)))"

definition init_chan :: "nat \<Rightarrow> dma_cont \<Rightarrow> dma_cont" where
  "init_chan ichan d =
     on_regs ichan (\<lambda>r. r\<lparr>dnow := (dnow r)(ADDR := uint (dbase r ADDR) * 2 ^ dshift d, COUNT := 0)\<rparr>) d"

definition getff :: "dma_cont \<Rightarrow> u8 \<times> dma_cont" where
  "getff d = (flip_flop d, d\<lparr>flip_flop := (if flip_flop d = 0 then 1 else 0)\<rparr>)"

definition dma_iport :: "u32 \<Rightarrow> dma_cont \<Rightarrow> nat" where
  "dma_iport nport d = unat (drop_bit (dshift d) nport AND 0x0f)"

definition read_chan :: "u32 \<Rightarrow> dma_cont \<Rightarrow> (u32 \<times> dma_cont) option" where
  "read_chan nport d =
     (let iport = dma_iport nport d; ichan = iport div 2; nreg = iport mod 2; r = dregs d ichan in
      if ichan \<ge> 4 then None
      else
        (let dir = (if bit (dmode r) 5 then -1 else 1);
             (ff, d1) = getff d;
             val = (if nreg = 1 then uint (dbase r COUNT) * 2 ^ dshift d - dnow r COUNT
                    else dnow r ADDR + dnow r COUNT * dir)
         in Some (of_int (val div 2 ^ (dshift d + unat ff * 8) mod 256), d1)))"

definition write_chan :: "u32 \<Rightarrow> u32 \<Rightarrow> dma_cont \<Rightarrow> dma_cont option" where
  "write_chan nport data d =
     (let iport = dma_iport nport d; ichan = iport div 2; nreg = iport mod 2 in
      if ichan \<ge> 4 then None
      else
        (let (ff, d1) = getff d in
         if ff \<noteq> 0 then
           Some (init_chan ichan
             (on_regs ichan (\<lambda>r. r\<lparr>dbase := (dbase r)(nreg := dbase r nreg AND 0xff OR ucast (push_bit 8 data AND 0xff00))\<rparr>) d1))
         else
           Some (on_regs ichan (\<lambda>r. r\<lparr>dbase := (dbase r)(nreg := dbase r nreg AND 0xff00 OR ucast (data AND 0xff))\<rparr>) d1)))"

definition dma_phony_handler :: "int \<Rightarrow> int \<Rightarrow> int \<Rightarrow> int" where
  "dma_phony_handler nchan dma_pos dma_len = dma_pos"

definition call_handler ::
  "'w dma_handlers \<Rightarrow> dma_handler \<Rightarrow> int \<Rightarrow> int \<Rightarrow> int \<Rightarrow> dma \<Rightarrow> 'w \<Rightarrow> (int \<times> dma \<times> 'w) option" where
  "call_handler H h nchan dma_pos dma_len D w =
     (case h of
        NoHandler \<Rightarrow> None
      | Phony \<Rightarrow> Some (dma_phony_handler nchan dma_pos dma_len, D, w)
      | Handler k \<Rightarrow> H k nchan dma_pos dma_len D w)"

definition channel_run :: "'w dma_handlers \<Rightarrow> nat \<Rightarrow> nat \<Rightarrow> dma \<Rightarrow> 'w \<Rightarrow> (dma \<times> 'w) option" where
  "channel_run H ncont ichan D w =
     (let r = dregs (dma_controllers D ncont) ichan in
      do { (n, D1, w1) \<leftarrow> call_handler H (transfer_handler r) (int ichan + int ncont * 4) (dnow r COUNT)
             ((uint (dbase r COUNT) + 1) * 2 ^ ncont) D w;
           Some (on_cont ncont (on_regs ichan (\<lambda>r. r\<lparr>dnow := (dnow r)(COUNT := n)\<rparr>)) D1, w1) })"

definition chan_active :: "dma \<Rightarrow> nat \<Rightarrow> nat \<Rightarrow> bool" where
  "chan_active D icont ichan \<longleftrightarrow>
     (let d = dma_controllers D icont; mask = BIT ichan :: u8
      in dmask d AND mask = 0 \<and> dstatus d AND push_bit 4 mask \<noteq> 0)"

text \<open>The two nested loops run over the channels in this order; the flag is \<^verbatim>\<open>rearm\<close>.\<close>

definition chan_order :: "(nat \<times> nat) list" where
  "chan_order = [(0, 0), (0, 1), (0, 2), (0, 3), (1, 0), (1, 1), (1, 2), (1, 3)]"

fun run_loop :: "'w dma_handlers \<Rightarrow> (nat \<times> nat) list \<Rightarrow> bool \<Rightarrow> dma \<Rightarrow> 'w \<Rightarrow> (bool \<times> dma \<times> 'w) option" where
  "run_loop H [] rearm D w = Some (rearm, D, w)"
| "run_loop H ((icont, ichan) # cs) rearm D w =
     (if chan_active D icont ichan
      then do { (D1, w1) \<leftarrow> channel_run H icont ichan D w; run_loop H cs True D1 w1 }
      else run_loop H cs rearm D w)"

definition DMA_run :: "'w dma_handlers \<Rightarrow> dma \<Rightarrow> 'w \<Rightarrow> (dma \<times> 'w) option" where
  "DMA_run H D w =
     do { (rearm, D1, w1) \<leftarrow> run_loop H chan_order False D w;
          Some (if rearm then D1\<lparr>dma_bh_scheduled := True\<rparr> else D1, w1) }"

definition DMA_run_bh :: "'w dma_handlers \<Rightarrow> dma \<Rightarrow> 'w \<Rightarrow> (dma \<times> 'w) option" where
  "DMA_run_bh H D w = DMA_run H D w"

definition write_cont ::
  "'w dma_handlers \<Rightarrow> nat \<Rightarrow> u32 \<Rightarrow> u32 \<Rightarrow> dma \<Rightarrow> 'w \<Rightarrow> (dma \<times> 'w) option" where
  "write_cont H c nport data D w =
     (let iport = dma_iport nport (dma_controllers D c); ichan = unat (data AND 3) in
      if iport = 0x08 then
        (if data \<noteq> 0 \<and> data AND CMD_NOT_SUPPORTED \<noteq> 0 then Some (D, w)
         else Some (on_cont c (\<lambda>d. d\<lparr>dcommand := ucast data\<rparr>) D, w))
      else if iport = 0x09 then
        (let D1 = (if data AND 4 \<noteq> 0 then on_cont c (\<lambda>d. d\<lparr>dstatus := dstatus d OR BIT (ichan + 4)\<rparr>) D
                   else on_cont c (\<lambda>d. d\<lparr>dstatus := dstatus d AND NOT (BIT (ichan + 4))\<rparr>) D)
         in DMA_run H (on_cont c (\<lambda>d. d\<lparr>dstatus := dstatus d AND NOT (BIT ichan)\<rparr>) D1) w)
      else if iport = 0x0a then
        DMA_run H
          (if data AND 4 \<noteq> 0 then on_cont c (\<lambda>d. d\<lparr>dmask := dmask d OR BIT ichan\<rparr>) D
           else on_cont c (\<lambda>d. d\<lparr>dmask := dmask d AND NOT (BIT ichan)\<rparr>) D) w
      else if iport = 0x0b then Some (on_cont c (on_regs ichan (\<lambda>r. r\<lparr>dmode := ucast data\<rparr>)) D, w)
      else if iport = 0x0c then Some (on_cont c (\<lambda>d. d\<lparr>flip_flop := 0\<rparr>) D, w)
      else if iport = 0x0d then
        Some (on_cont c (\<lambda>d. d\<lparr>flip_flop := 0, dmask := NOT 0, dstatus := 0, dcommand := 0\<rparr>) D, w)
      else if iport = 0x0e then DMA_run H (on_cont c (\<lambda>d. d\<lparr>dmask := 0\<rparr>) D) w
      else if iport = 0x0f then DMA_run H (on_cont c (\<lambda>d. d\<lparr>dmask := ucast data\<rparr>) D) w
      else Some (D, w))"

definition read_cont :: "u32 \<Rightarrow> dma_cont \<Rightarrow> u32 \<times> dma_cont" where
  "read_cont nport d =
     (let iport = dma_iport nport d in
      if iport = 0x08 then (ucast (dstatus d), d\<lparr>dstatus := dstatus d AND 0xf0\<rparr>)
      else if iport = 0x0f then (ucast (dmask d), d)
      else (0, d))"

definition ncont_of :: "int \<Rightarrow> nat" where
  "ncont_of nchan = (if nchan > 3 then 1 else 0)"

definition ichan_of :: "int \<Rightarrow> nat" where
  "ichan_of nchan = nat (nchan mod 4)"

definition DMA_get_channel_mode :: "int \<Rightarrow> dma \<Rightarrow> u8" where
  "DMA_get_channel_mode nchan D = dmode (dregs (dma_controllers D (ncont_of nchan)) (ichan_of nchan))"

definition DMA_hold_DREQ :: "'w dma_handlers \<Rightarrow> int \<Rightarrow> dma \<Rightarrow> 'w \<Rightarrow> (dma \<times> 'w) option" where
  "DMA_hold_DREQ H nchan D w =
     DMA_run H (on_cont (ncont_of nchan) (\<lambda>d. d\<lparr>dstatus := dstatus d OR BIT (ichan_of nchan + 4)\<rparr>) D) w"

definition DMA_release_DREQ :: "'w dma_handlers \<Rightarrow> int \<Rightarrow> dma \<Rightarrow> 'w \<Rightarrow> (dma \<times> 'w) option" where
  "DMA_release_DREQ H nchan D w =
     DMA_run H (on_cont (ncont_of nchan) (\<lambda>d. d\<lparr>dstatus := dstatus d AND NOT (BIT (ichan_of nchan + 4))\<rparr>) D) w"

definition DMA_register_channel :: "int \<Rightarrow> dma_handler \<Rightarrow> dma \<Rightarrow> dma" where
  "DMA_register_channel nchan h D =
     on_cont (ncont_of nchan) (on_regs (ichan_of nchan) (\<lambda>r. r\<lparr>transfer_handler := h\<rparr>)) D"

definition dma_addr :: "dma_regs \<Rightarrow> u64" where
  "dma_addr r = of_int (push_bit 24 (uint (pageh r AND 0x7f)) OR push_bit 16 (uint (page r)) OR dnow r ADDR)"

definition mirror_loop :: "nat \<Rightarrow> u8 list \<Rightarrow> u8 list" where
  "mirror_loop k p = foldl (\<lambda>p i. p[i := p ! (length p - i - 1)]) p [0..<k]"

definition DMA_read_memory ::
  "'w mem_map \<Rightarrow> dma \<Rightarrow> int \<Rightarrow> int \<Rightarrow> nat \<Rightarrow> phys_mem \<Rightarrow> 'w \<Rightarrow> nat \<times> u8 list \<times> phys_mem \<times> 'w" where
  "DMA_read_memory M D nchan pos len m w =
     (let r = dregs (dma_controllers D (ncont_of nchan)) (ichan_of nchan); addr = dma_addr r in
      if dmode r AND 0x20 \<noteq> 0 then
        (let (buf, m1, w1) = cpu_physical_memory_read M (addr - of_int pos - of_nat len) len m w
         in (len, mirror_loop (len div 2) buf, m1, w1))
      else
        (let (buf, m1, w1) = cpu_physical_memory_read M (addr + of_int pos) len m w in (len, buf, m1, w1)))"

definition DMA_write_memory ::
  "'w mem_map \<Rightarrow> dma \<Rightarrow> int \<Rightarrow> u8 list \<Rightarrow> int \<Rightarrow> phys_mem \<Rightarrow> 'w \<Rightarrow> nat \<times> u8 list \<times> phys_mem \<times> 'w" where
  "DMA_write_memory M D nchan buf pos m w =
     (let r = dregs (dma_controllers D (ncont_of nchan)) (ichan_of nchan); addr = dma_addr r; len = length buf in
      if dmode r AND 0x20 \<noteq> 0 then
        (let (m1, w1) = cpu_physical_memory_write M (addr - of_int pos - of_nat len) buf m w
         in (len, mirror_loop len buf, m1, w1))
      else
        (let (m1, w1) = cpu_physical_memory_write M (addr + of_int pos) buf m w in (len, buf, m1, w1)))"

definition DMA_schedule :: "(nat \<Rightarrow> 'w qemu_irq) \<Rightarrow> int \<Rightarrow> 'w \<Rightarrow> 'w" where
  "DMA_schedule cpu_request_exit nchan w = qemu_irq_pulse (cpu_request_exit (ncont_of nchan)) w"

definition dma_reset :: "'w dma_handlers \<Rightarrow> nat \<Rightarrow> dma \<Rightarrow> 'w \<Rightarrow> (dma \<times> 'w) option" where
  "dma_reset H c D w = write_cont H c (push_bit (dshift (dma_controllers D c)) 0x0d) 0 D w"

definition dma_init2 :: "'w dma_handlers \<Rightarrow> nat \<Rightarrow> nat \<Rightarrow> dma \<Rightarrow> 'w \<Rightarrow> (dma \<times> 'w) option" where
  "dma_init2 H c shift D w =
     do { (D1, w1) \<leftarrow> dma_reset H c (on_cont c (\<lambda>d. d\<lparr>dshift := shift\<rparr>) D) w;
          Some (on_cont c (\<lambda>d. d\<lparr>dregs := \<lambda>i. if i < 4 then (dregs d i)\<lparr>transfer_handler := Phony\<rparr> else dregs d i\<rparr>) D1, w1) }"

definition dma_post_load :: "'w dma_handlers \<Rightarrow> dma \<Rightarrow> 'w \<Rightarrow> (dma \<times> 'w) option" where
  "dma_post_load H D w = DMA_run H D w"

definition dma_zero :: dma where
  "dma_zero = \<lparr>dma_controllers = \<lambda>_. \<lparr>dstatus = 0, dcommand = 0, dmask = 0, flip_flop = 0, dshift = 0,
     dregs = \<lambda>_. \<lparr>dnow = \<lambda>_. 0, dbase = \<lambda>_. 0, dmode = 0, page = 0, pageh = 0, dack = 0, eop = 0,
       transfer_handler = NoHandler\<rparr>\<rparr>, dma_bh_scheduled = False\<rparr>"

definition DMA_init :: "'w dma_handlers \<Rightarrow> 'w \<Rightarrow> (dma \<times> 'w) option" where
  "DMA_init H w = do { (D1, w1) \<leftarrow> dma_init2 H 0 0 dma_zero w; dma_init2 H 1 1 D1 w1 }"

text \<open>A concrete state: one requested channel of the second controller.\<close>

definition dma_sample :: dma where
  "dma_sample = on_cont 1 (\<lambda>d. on_regs 1 (\<lambda>r. r\<lparr>dbase := (\<lambda>_. 0x1fff), page := 1, transfer_handler := Handler 7\<rparr>)
     (d\<lparr>dshift := 1, dstatus := 0x20\<rparr>)) dma_zero"

section \<open>Programming a channel\<close>

lemma on_regs_simps [simp]:
  "dregs (on_regs i f d) j = (if j = i then f (dregs d i) else dregs d j)"
  "flip_flop (on_regs i f d) = flip_flop d" "dshift (on_regs i f d) = dshift d"
  by (simp_all add: on_regs_def)

lemma iport_cong: "dshift d = dshift d' \<Longrightarrow> dma_iport p d = dma_iport p d'"
  by (simp add: dma_iport_def)

lemma byte_masks:
  "(0xff :: 'a::len word) = mask 8" "(0xff00 :: u16) = push_bit 8 (mask 8)" "(0xff00 :: u32) = push_bit 8 (mask 8)"
  by (simp_all add: mask_eq_exp_minus_1 push_bit_eq_mult)

lemma bytes_word:
  "uint ((b AND 0xff00 OR ucast (lo AND 0xff) :: u16) AND 0xff OR ucast (push_bit 8 hi AND 0xff00)) =
     uint (lo AND 0xff :: u32) + 256 * uint (hi AND 0xff :: u32)"
proof -
  have e: "(b AND 0xff00 OR ucast (lo AND 0xff) :: u16) AND 0xff OR ucast (push_bit 8 hi AND 0xff00) =
     ucast (push_bit 8 (hi AND 0xff) OR (lo AND 0xff))"
    unfolding byte_masks by (rule bit_word_eqI) (auto simp: bit_simps)
  have d: "push_bit 8 (hi AND 0xff) AND (lo AND 0xff) = 0"
    unfolding byte_masks by (rule bit_word_eqI) (auto simp: bit_simps)
  have b: "lo AND 0xff \<le> 0xff" "hi AND 0xff \<le> 0xff" by (rule word_and_le1)+
  then have n: "uint (lo AND 0xff) \<le> 255" "uint (hi AND 0xff) \<le> 255" by (simp_all add: word_le_def)
  have "push_bit 8 (hi AND 0xff) OR (lo AND 0xff) = push_bit 8 (hi AND 0xff) + (lo AND 0xff)"
    using d by (simp add: disjunctive_add_eq_or)
  then show ?thesis
    unfolding e using n by (simp add: unsigned_ucast_eq push_bit_eq_mult uint_word_ariths take_bit_eq_mod)
qed

lemma write_chan_pair:
  assumes "k < 4" and "dma_iport p d = 2 * k + r" and "r < 2" and "flip_flop d = 0"
  obtains d' where "write_chan p lo d \<bind> write_chan p hi = Some d'" "flip_flop d' = 0" "dshift d' = dshift d"
    "uint (dbase (dregs d' k) r) = uint (lo AND 0xff) + 256 * uint (hi AND 0xff)"
    "\<And>r'. r' \<noteq> r \<Longrightarrow> dbase (dregs d' k) r' = dbase (dregs d k) r'"
    "dnow (dregs d' k) ADDR = uint (dbase (dregs d' k) ADDR) * 2 ^ dshift d" "dnow (dregs d' k) COUNT = 0"
proof -
  have k: "(2 * k + r) div 2 = k" "(2 * k + r) mod 2 = r" using assms(3) by auto
  let ?f = "\<lambda>v x. x\<lparr>dbase := (dbase x)(r := dbase x r AND 0xff00 OR ucast (v AND 0xff))\<rparr>"
  let ?g = "\<lambda>v x. x\<lparr>dbase := (dbase x)(r := dbase x r AND 0xff OR ucast (push_bit 8 v AND 0xff00))\<rparr>"
  let ?d1 = "on_regs k (?f lo) (d\<lparr>flip_flop := 1\<rparr>)"
  let ?d2 = "init_chan k (on_regs k (?g hi) (?d1\<lparr>flip_flop := 0\<rparr>))"
  have i: "dma_iport p ?d1 = 2 * k + r" using assms(2) by (simp add: dma_iport_def)
  have 1: "write_chan p lo d = Some ?d1"
    using assms(1,4) unfolding write_chan_def Let_def assms(2) k getff_def prod.case by simp
  have 2: "write_chan p hi ?d1 = Some ?d2"
    using assms(1) unfolding write_chan_def Let_def i k getff_def prod.case by simp
  show ?thesis
    by (rule that [of ?d2]) (auto simp: 1 2 init_chan_def bytes_word)
qed

lemma read_chan_pair:
  assumes "k < 4" and "dma_iport p d = 2 * k + r" and "r < 2" and "flip_flop d = 0"
    and "(if r = 1 then uint (dbase (dregs d k) COUNT) * 2 ^ dshift d - dnow (dregs d k) COUNT
          else dnow (dregs d k) ADDR + dnow (dregs d k) COUNT * (if bit (dmode (dregs d k)) 5 then -1 else 1)) = v * 2 ^ dshift d"
  shows "do { (lo, d1) \<leftarrow> read_chan p d; (hi, d2) \<leftarrow> read_chan p d1; Some (lo, hi, d2) } =
    Some (of_int (v mod 256), of_int (v div 256 mod 256), d)"
proof -
  let ?d = "d\<lparr>flip_flop := 1\<rparr>"
  have i: "dma_iport p ?d = 2 * k + r" using assms(2) by (simp add: dma_iport_def)
  have k: "(2 * k + r) div 2 = k" "(2 * k + r) mod 2 = r" using assms(3) by auto
  have v: "v * 2 ^ dshift d div 2 ^ (dshift d + 8) = v div 256"
    by (simp add: power_add mult.commute [of v] zdiv_zmult2_eq)
  have r1: "read_chan p d = Some (of_int (v mod 256), ?d)"
    unfolding read_chan_def Let_def assms(2) k getff_def prod.case assms(5) [symmetric] using assms by auto
  have r2: "read_chan p ?d = Some (of_int (v div 256 mod 256), d)"
    unfolding read_chan_def Let_def i k getff_def prod.case using assms v by auto
  show ?thesis by (simp add: r1 r2)
qed

lemma byte_of_int: "uint (b AND 0xff :: u32) < 256" "of_int (uint (b AND 0xff)) = (b AND 0xff :: u32)"
proof -
  have "b AND 0xff \<le> 0xff" by (rule word_and_le1)
  then show "uint (b AND 0xff) < 256" by (simp add: word_le_def)
qed simp

text \<open>
  Programming and reading back a channel of either controller: with the flip-flop cleared, the
  two bytes written to the address port and the two bytes written to the count port are what the
  same ports read back before a transfer starts, low byte first, and the flip-flop is clear again.
\<close>

theorem dma_program_readback:
  assumes "k < 4" and "dma_iport pa d = 2 * k" and "dma_iport pc d = 2 * k + 1" and "flip_flop d = 0"
  shows "do { d1 \<leftarrow> write_chan pa alo d; d2 \<leftarrow> write_chan pa ahi d1;
              d3 \<leftarrow> write_chan pc clo d2; d4 \<leftarrow> write_chan pc chi d3;
              (v1, d5) \<leftarrow> read_chan pa d4; (v2, d6) \<leftarrow> read_chan pa d5;
              (v3, d7) \<leftarrow> read_chan pc d6; (v4, d8) \<leftarrow> read_chan pc d7;
              Some (v1, v2, v3, v4, flip_flop d8) } =
         Some (alo AND 0xff, ahi AND 0xff, clo AND 0xff, chi AND 0xff, 0)"
proof -
  obtain d2 where a: "write_chan pa alo d \<bind> write_chan pa ahi = Some d2" "flip_flop d2 = 0" "dshift d2 = dshift d"
    "uint (dbase (dregs d2 k) 0) = uint (alo AND 0xff) + 256 * uint (ahi AND 0xff)"
    using assms(1,2,4) by (rule_tac write_chan_pair [of k pa d 0]) auto
  have "dma_iport pc d2 = 2 * k + 1" using assms(3) a(3) iport_cong by metis
  from write_chan_pair [OF assms(1) this _ a(2), of clo chi] obtain d4 where
    c: "write_chan pc clo d2 \<bind> write_chan pc chi = Some d4" "flip_flop d4 = 0" "dshift d4 = dshift d"
    "uint (dbase (dregs d4 k) 1) = uint (clo AND 0xff) + 256 * uint (chi AND 0xff)"
    "dbase (dregs d4 k) 0 = dbase (dregs d2 k) 0"
    "dnow (dregs d4 k) 0 = uint (dbase (dregs d4 k) 0) * 2 ^ dshift d" "dnow (dregs d4 k) 1 = 0"
    using a(3) by (metis one_less_numeral_iff semiring_norm(76) zero_neq_one)
  have i: "dma_iport pa d4 = 2 * k + 0" "dma_iport pc d4 = 2 * k + 1"
    using assms(2,3) c(3) iport_cong by (metis add_0_right)+
  have ra: "do { (lo, d1) \<leftarrow> read_chan pa d4; (hi, d2) \<leftarrow> read_chan pa d1; Some (lo, hi, d2) } =
      Some (alo AND 0xff, ahi AND 0xff, d4)"
    using read_chan_pair [OF assms(1) i(1) _ c(2), of "uint (dbase (dregs d4 k) 0)"] c a(4)
      byte_of_int [of alo] byte_of_int [of ahi] by simp
  have rc: "do { (lo, d1) \<leftarrow> read_chan pc d4; (hi, d2) \<leftarrow> read_chan pc d1; Some (lo, hi, d2) } =
      Some (clo AND 0xff, chi AND 0xff, d4)"
    using read_chan_pair [OF assms(1) i(2) _ c(2), of "uint (dbase (dregs d4 k) 1)"] c
      byte_of_int [of clo] byte_of_int [of chi] by simp
  show ?thesis using a(1) ra c(1,2) rc by (auto simp: bind_eq_Some_conv)
qed

theorem dma_program_readback_witness:
  "do { d1 \<leftarrow> write_chan 0xc4 0x34 ((dma_controllers dma_zero 1)\<lparr>dshift := 1\<rparr>); d2 \<leftarrow> write_chan 0xc4 0x12 d1;
        d3 \<leftarrow> write_chan 0xc6 0xff d2; d4 \<leftarrow> write_chan 0xc6 0x1f d3;
        (v1, d5) \<leftarrow> read_chan 0xc4 d4; (v2, d6) \<leftarrow> read_chan 0xc4 d5;
        (v3, d7) \<leftarrow> read_chan 0xc6 d6; (v4, d8) \<leftarrow> read_chan 0xc6 d7;
        Some (v1, v2, v3, v4, flip_flop d8) } = Some (0x34, 0x12, 0xff, 0x1f, 0)"
  using dma_program_readback [of 1 "0xc4" "(dma_controllers dma_zero 1)\<lparr>dshift := 1\<rparr>" "0xc6" "0x34" "0x12" "0xff" "0x1f"]
  by (simp add: dma_iport_def dma_zero_def drop_bit_eq_div del: bind_eq_Some_conv)

section \<open>Running the channels\<close>

lemma run_loop_inactive:
  "(\<And>i j. (i, j) \<in> set cs \<Longrightarrow> \<not> chan_active D i j) \<Longrightarrow> run_loop H cs rearm D w = Some (rearm, D, w)"
  by (induction cs) auto

lemma on_cont_simps [simp]:
  "dma_controllers (on_cont c f D) c' = (if c' = c then f (dma_controllers D c) else dma_controllers D c')"
  "dma_bh_scheduled (on_cont c f D) = dma_bh_scheduled D"
  by (simp_all add: on_cont_def)

lemma chan_active_regs [simp]: "chan_active (on_cont c (on_regs k f) D) i j = chan_active D i j"
  by (simp add: chan_active_def on_regs_def Let_def)

lemma run_loop_append:
  "run_loop H (cs @ ds) rearm D w =
     do { (r, D1, w1) \<leftarrow> run_loop H cs rearm D w; run_loop H ds r D1 w1 }"
  by (induction H cs rearm D w rule: run_loop.induct) (auto split: bind_split)

lemma chan_order_split:
  assumes "c < 2" and "k < 4"
  obtains cs ds where "chan_order = cs @ (c, k) # ds" "(c, k) \<notin> set cs" "(c, k) \<notin> set ds"
proof -
  have "(c, k) \<in> set chan_order" using assms by (auto simp: chan_order_def less_Suc_eq numeral_eq_Suc)
  then obtain cs ds where s: "chan_order = cs @ (c, k) # ds" by (meson split_list)
  have "distinct chan_order" by (simp add: chan_order_def)
  then have "(c, k) \<notin> set cs" "(c, k) \<notin> set ds" unfolding s by auto
  with s show thesis by (rule that)
qed

lemma set_chan_order: "(i, j) \<in> set chan_order \<longleftrightarrow> i < 2 \<and> j < 4"
  by (auto simp: chan_order_def less_Suc_eq numeral_eq_Suc)

lemma DMA_run_one:
  assumes "c < 2" and "k < 4" and "\<forall>i<2. \<forall>j<4. chan_active D i j \<longleftrightarrow> i = c \<and> j = k"
    and "channel_run H c k D w = Some (on_cont c (on_regs k f) D, w')"
  shows "DMA_run H D w = Some ((on_cont c (on_regs k f) D)\<lparr>dma_bh_scheduled := True\<rparr>, w')"
proof -
  obtain cs ds where s: "chan_order = cs @ (c, k) # ds" "(c, k) \<notin> set cs" "(c, k) \<notin> set ds"
    using chan_order_split [OF assms(1,2)] .
  have "\<not> chan_active D i j" if "(i, j) \<in> set cs \<union> set ds" for i j
  proof -
    have "(i, j) \<in> set chan_order" using that unfolding s(1) by auto
    moreover have "(i, j) \<noteq> (c, k)" using that s(2,3) by auto
    ultimately show ?thesis using assms(3) by (simp add: set_chan_order)
  qed
  then show ?thesis unfolding DMA_run_def s(1) run_loop_append
    using assms by (simp add: run_loop_inactive)
qed

text \<open>
  C27.  A transfer and its progress: when one channel is requested and not masked, a run calls its
  handler once, with the position and the length of the programmed block in bytes, schedules the
  next run, and the count port then reads the programmed count less the units transferred; after
  the whole block it reads 0xffff.
\<close>

theorem dma_transfer_progress:
  assumes "c < 2" and "k < 4" and "\<forall>i<2. \<forall>j<4. chan_active D i j \<longleftrightarrow> i = c \<and> j = k"
    and "d = dma_controllers D c" and "r = dregs d k" and "transfer_handler r = Handler h"
    and "dshift d = c" and "flip_flop d = 0" and "dma_iport p d = 2 * k + 1"
    and "H h (int k + int c * 4) (dnow r COUNT) ((uint (dbase r COUNT) + 1) * 2 ^ c) D w = Some (n * 2 ^ c, D, w')"
  shows "\<exists>D'. DMA_run H D w = Some (D', w') \<and> dma_bh_scheduled D' \<and>
     do { (lo, d1) \<leftarrow> read_chan p (dma_controllers D' c); (hi, d2) \<leftarrow> read_chan p d1; Some (uint lo + 256 * uint hi) } =
       Some ((uint (dbase r COUNT) - n) mod 65536)"
proof -
  let ?f = "\<lambda>r. r\<lparr>dnow := (dnow r)(COUNT := n * 2 ^ c)\<rparr>"
  let ?D = "(on_cont c (on_regs k ?f) D)\<lparr>dma_bh_scheduled := True\<rparr>"
  let ?d = "dma_controllers ?D c" and ?v = "uint (dbase r COUNT) - n"
  have "channel_run H c k D w = Some (on_cont c (on_regs k ?f) D, w')"
    using assms(4-6,10) by (simp add: channel_run_def call_handler_def Let_def)
  then have run: "DMA_run H D w = Some (?D, w')" by (rule DMA_run_one [OF assms(1-3)])
  have d: "flip_flop ?d = 0" "dshift ?d = c" "dma_iport p ?d = 2 * k + 1"
    using assms(4,7-9) by (simp_all add: dma_iport_def)
  have v: "uint (dbase (dregs ?d k) 1) * 2 ^ dshift ?d - dnow (dregs ?d k) 1 = ?v * 2 ^ dshift ?d"
    using assms(4,5) d(2) by (simp add: left_diff_distrib)
  have rd: "do { (lo, d1) \<leftarrow> read_chan p ?d; (hi, d2) \<leftarrow> read_chan p d1; Some (lo, hi, d2) } =
      Some (of_int (?v mod 256), of_int (?v div 256 mod 256), ?d)"
    using read_chan_pair [OF assms(2) d(3) _ d(1), of ?v] v by simp
  have b: "uint (of_int (x mod 256) :: u32) = x mod 256" for x
    by (simp add: unsigned_of_int take_bit_eq_mod)
  have e: "x mod 256 + 256 * (x div 256 mod 256) = x mod 65536" for x :: int
    using zmod_zmult2_eq [of 256 x 256] by simp
  have "do { (lo, d1) \<leftarrow> read_chan p ?d; (hi, d2) \<leftarrow> read_chan p d1; Some (uint lo + 256 * uint hi) } =
      Some (?v mod 65536)"
    using rd b e by (auto simp: bind_eq_Some_conv)
  then show ?thesis using run by auto
qed

theorem dma_transfer_progress_witness:
  "\<exists>D'. DMA_run (\<lambda>h nchan pos len D w. Some (len, D, w @ [(h, nchan, pos, len)])) dma_sample [] =
       Some (D', [(7, 5, 0, 0x4000)]) \<and> dma_bh_scheduled D' \<and>
     do { (lo, d1) \<leftarrow> read_chan 0xc6 (dma_controllers D' 1); (hi, d2) \<leftarrow> read_chan 0xc6 d1;
          Some (uint lo + 256 * uint hi) } = Some 0xffff"
proof -
  let ?D = dma_sample and ?d = "dma_controllers dma_sample 1"
  have "\<forall>(i, j)\<in>set chan_order. chan_active ?D i j \<longleftrightarrow> i = 1 \<and> j = 1"
    by (simp add: chan_order_def chan_active_def Let_def dma_sample_def dma_zero_def on_regs_def BIT_def)
  then have a: "\<forall>i<2. \<forall>j<4. chan_active ?D i j \<longleftrightarrow> i = 1 \<and> j = 1" using set_chan_order by blast
  have d: "dshift ?d = 1" "flip_flop ?d = 0" "dma_iport 0xc6 ?d = 2 * 1 + 1" "transfer_handler (dregs ?d 1) = Handler 7"
    "uint (dbase (dregs ?d 1) 1) = 0x1fff" "dnow (dregs ?d 1) 1 = 0"
    by (simp_all add: dma_sample_def dma_zero_def on_regs_def dma_iport_def drop_bit_eq_div)
  show ?thesis
    using dma_transfer_progress [OF _ _ a refl refl d(4,1-3), where n = "0x2000" and w = "[]"
        and H = "\<lambda>h nchan pos len D w. Some (len, D, w @ [(h, nchan, pos, len)])"
        and w' = "[(7, 5, 0, 0x4000)]"] d(5,6) by simp
qed

section \<open>Memory transfers\<close>

lemma length_mirror [simp]: "length (mirror_loop k p) = length p"
  by (induction k) (simp_all add: mirror_loop_def)

lemma mirror_Suc: "mirror_loop (Suc k) p = (mirror_loop k p)[k := mirror_loop k p ! (length p - k - 1)]"
  using length_mirror [of k p] by (simp add: mirror_loop_def)

lemma mirror_nth:
  "i < length p \<Longrightarrow> mirror_loop k p ! i = (if i < k \<and> i < length p div 2 then p ! (length p - 1 - i) else p ! i)"
proof (induction k arbitrary: i)
  case 0
  then show ?case by (simp add: mirror_loop_def)
next
  case (Suc k)
  show ?case
  proof (cases "i = k")
    case True
    have "length p - k - 1 < length p" using Suc.prems True by simp
    note ih = Suc.IH [OF this]
    consider "k < length p div 2" | "\<not> k < length p div 2" "length p - Suc k < k" "length p - Suc k < length p div 2"
      | "\<not> k < length p div 2" "length p - Suc k = k" using Suc.prems True by linarith
    then show ?thesis using ih Suc.prems True by cases (auto simp: mirror_Suc)
  next
    case False
    then show ?thesis using Suc.IH [OF Suc.prems] Suc.prems by (simp add: mirror_Suc less_Suc_eq)
  qed
qed

lemma mirror_all: "mirror_loop (length p) p = mirror_loop (length p div 2) p"
  by (rule nth_equalityI) (auto simp: mirror_nth)

text \<open>
  Transfers in decrement mode scramble the data.  In increment mode a buffer written through
  a channel is read back through it.  In decrement mode the block is written below the address in
  the order of the buffer, the buffer of the caller is overwritten, and reading the block back
  returns a palindrome: the second half of the buffer, preceded by its own mirror image.
\<close>

theorem dma_decrement_scrambles:
  assumes "r = dregs (dma_controllers D (ncont_of nchan)) (ichan_of nchan)"
  shows "(dmode r AND 0x20 = 0 \<and> ram_range M (unat (dma_addr r + of_int pos)) (length buf) \<longrightarrow>
       (\<exists>m'. DMA_write_memory M D nchan buf pos m w = (length buf, buf, m', w) \<and>
          DMA_read_memory M D nchan pos (length buf) m' w = (length buf, buf, m', w))) \<and>
     (dmode r AND 0x20 \<noteq> 0 \<and> ram_range M (unat (dma_addr r - of_int pos - of_nat (length buf))) (length buf) \<longrightarrow>
       (\<exists>m' buf'. DMA_write_memory M D nchan buf pos m w = (length buf, buf', m', w) \<and>
          DMA_read_memory M D nchan pos (length buf) m' w = (length buf, buf', m', w) \<and>
          mem_read (ram m') (unat (dma_addr r - of_int pos - of_nat (length buf))) (length buf) = buf \<and>
          length buf' = length buf \<and>
          (\<forall>i<length buf. buf' ! i = (if i < length buf div 2 then buf ! (length buf - 1 - i) else buf ! i))))"
proof (intro conjI impI; elim conjE)
  assume "dmode r AND 0x20 = 0" and rr: "ram_range M (unat (dma_addr r + of_int pos)) (length buf)"
  moreover obtain m' where "cpu_physical_memory_write M (dma_addr r + of_int pos) buf m w = (m', w)"
    "ram m' = mem_write (ram m) (unat (dma_addr r + of_int pos)) buf"
    using rr by (rule cpu_physical_memory_write_ram)
  ultimately show "\<exists>m'. DMA_write_memory M D nchan buf pos m w = (length buf, buf, m', w) \<and>
          DMA_read_memory M D nchan pos (length buf) m' w = (length buf, buf, m', w)"
    using assms by (auto simp: DMA_write_memory_def DMA_read_memory_def Let_def cpu_physical_memory_read_mem)
next
  let ?a = "dma_addr r - of_int pos - of_nat (length buf)"
  assume "dmode r AND 0x20 \<noteq> 0" and rr: "ram_range M (unat ?a) (length buf)"
  moreover obtain m' where "cpu_physical_memory_write M ?a buf m w = (m', w)" "ram m' = mem_write (ram m) (unat ?a) buf"
    using rr by (rule cpu_physical_memory_write_ram)
  ultimately have "DMA_write_memory M D nchan buf pos m w = (length buf, mirror_loop (length buf div 2) buf, m', w) \<and>
      DMA_read_memory M D nchan pos (length buf) m' w = (length buf, mirror_loop (length buf div 2) buf, m', w) \<and>
      mem_read (ram m') (unat ?a) (length buf) = buf"
    using assms by (auto simp: DMA_write_memory_def DMA_read_memory_def Let_def cpu_physical_memory_read_mem mirror_all)
  then show "\<exists>m' buf'. DMA_write_memory M D nchan buf pos m w = (length buf, buf', m', w) \<and>
          DMA_read_memory M D nchan pos (length buf) m' w = (length buf, buf', m', w) \<and>
          mem_read (ram m') (unat ?a) (length buf) = buf \<and> length buf' = length buf \<and>
          (\<forall>i<length buf. buf' ! i = (if i < length buf div 2 then buf ! (length buf - 1 - i) else buf ! i))"
    by (auto simp: mirror_nth intro!: exI [of _ m'] exI [of _ "mirror_loop (length buf div 2) buf"])
qed

theorem dma_decrement_scrambles_witness:
  "let D = on_cont 1 (on_regs 1 (\<lambda>r. r\<lparr>dmode := 0x20\<rparr>)) dma_sample in
   \<exists>m'. DMA_write_memory sample_map D 5 [1, 2, 3, 4] 0 sample_mem () = (4, [4, 3, 3, 4], m', ()) \<and>
      DMA_read_memory sample_map D 5 0 4 m' () = (4, [4, 3, 3, 4], m', ())"
proof -
  let ?D = "on_cont 1 (on_regs 1 (\<lambda>r. r\<lparr>dmode := 0x20\<rparr>)) dma_sample" and ?b = "[1, 2, 3, 4] :: u8 list"
  let ?r = "dregs (dma_controllers ?D (ncont_of 5)) (ichan_of 5)"
  have r: "dmode ?r AND 0x20 \<noteq> 0" "dma_addr ?r = 0x10000"
    by (simp_all add: ncont_of_def ichan_of_def dma_sample_def dma_zero_def dma_addr_def)
  have rr: "ram_range sample_map (unat (dma_addr ?r - of_int 0 - of_nat (length ?b))) (length ?b)"
    unfolding r(2) by (rule sample_ram) simp
  obtain m' b where b: "DMA_write_memory sample_map ?D 5 ?b 0 sample_mem () = (length ?b, b, m', ())"
    "DMA_read_memory sample_map ?D 5 0 (length ?b) m' () = (length ?b, b, m', ())" "length b = length ?b"
    "\<forall>i<length ?b. b ! i = (if i < length ?b div 2 then ?b ! (length ?b - 1 - i) else ?b ! i)"
    using dma_decrement_scrambles [OF refl, of ?D 5 sample_map 0 ?b sample_mem "()"] r(1) rr by blast
  have "b = [4, 3, 3, 4]"
    using b(3,4) by (intro nth_equalityI) (auto simp: All_less_Suc less_Suc_eq nth_Cons')
  moreover have "length ?b = 4" by simp
  ultimately show ?thesis using b(1,2) unfolding Let_def by (metis (no_types))
qed

end
