(* ===== verification/Ps2.thy ===== *)
theory Ps2
  imports Fifo
begin

text \<open>
  The PS/2 keyboard and mouse (\<^verbatim>\<open>hw/ps2.c\<close>).  Both answer through a ring of 256 bytes; the callback
  \<open>U\<close> is \<^verbatim>\<open>update_irq\<close> of the controller they are attached to and works on its world \<open>'w\<close>, as does
  \<open>led\<close>, the keyboard leds of the host.  The deltas of the mouse are unbounded integers.  The loop
  of \<^verbatim>\<open>ps2_mouse_event\<close> ends because each packet brings the deltas nearer to zero.
\<close>

section \<open>Model\<close>

abbreviation (input) PS2_QUEUE_SIZE :: nat where "PS2_QUEUE_SIZE \<equiv> 256"

abbreviation (input) KBD_CMD_SET_LEDS :: int where "KBD_CMD_SET_LEDS \<equiv> 0xED"
abbreviation (input) KBD_CMD_ECHO :: int where "KBD_CMD_ECHO \<equiv> 0xEE"
abbreviation (input) KBD_CMD_SCANCODE :: int where "KBD_CMD_SCANCODE \<equiv> 0xF0"
abbreviation (input) KBD_CMD_GET_ID :: int where "KBD_CMD_GET_ID \<equiv> 0xF2"
abbreviation (input) KBD_CMD_SET_RATE :: int where "KBD_CMD_SET_RATE \<equiv> 0xF3"
abbreviation (input) KBD_CMD_ENABLE :: int where "KBD_CMD_ENABLE \<equiv> 0xF4"
abbreviation (input) KBD_CMD_RESET_DISABLE :: int where "KBD_CMD_RESET_DISABLE \<equiv> 0xF5"
abbreviation (input) KBD_CMD_RESET_ENABLE :: int where "KBD_CMD_RESET_ENABLE \<equiv> 0xF6"
abbreviation (input) KBD_CMD_RESET :: int where "KBD_CMD_RESET \<equiv> 0xFF"
abbreviation (input) KBD_REPLY_POR :: int where "KBD_REPLY_POR \<equiv> 0xAA"
abbreviation (input) KBD_REPLY_ID :: int where "KBD_REPLY_ID \<equiv> 0xAB"
abbreviation (input) KBD_REPLY_ACK :: int where "KBD_REPLY_ACK \<equiv> 0xFA"
abbreviation (input) KBD_REPLY_RESEND :: int where "KBD_REPLY_RESEND \<equiv> 0xFE"
abbreviation (input) AUX_SET_SCALE11 :: int where "AUX_SET_SCALE11 \<equiv> 0xE6"
abbreviation (input) AUX_SET_SCALE21 :: int where "AUX_SET_SCALE21 \<equiv> 0xE7"
abbreviation (input) AUX_SET_RES :: int where "AUX_SET_RES \<equiv> 0xE8"
abbreviation (input) AUX_GET_SCALE :: int where "AUX_GET_SCALE \<equiv> 0xE9"
abbreviation (input) AUX_SET_STREAM :: int where "AUX_SET_STREAM \<equiv> 0xEA"
abbreviation (input) AUX_POLL :: int where "AUX_POLL \<equiv> 0xEB"
abbreviation (input) AUX_RESET_WRAP :: int where "AUX_RESET_WRAP \<equiv> 0xEC"
abbreviation (input) AUX_SET_WRAP :: int where "AUX_SET_WRAP \<equiv> 0xEE"
abbreviation (input) AUX_SET_REMOTE :: int where "AUX_SET_REMOTE \<equiv> 0xF0"
abbreviation (input) AUX_GET_TYPE :: int where "AUX_GET_TYPE \<equiv> 0xF2"
abbreviation (input) AUX_SET_SAMPLE :: int where "AUX_SET_SAMPLE \<equiv> 0xF3"
abbreviation (input) AUX_ENABLE_DEV :: int where "AUX_ENABLE_DEV \<equiv> 0xF4"
abbreviation (input) AUX_DISABLE_DEV :: int where "AUX_DISABLE_DEV \<equiv> 0xF5"
abbreviation (input) AUX_SET_DEFAULT :: int where "AUX_SET_DEFAULT \<equiv> 0xF6"
abbreviation (input) AUX_RESET :: int where "AUX_RESET \<equiv> 0xFF"
abbreviation (input) AUX_ACK :: int where "AUX_ACK \<equiv> 0xFA"
abbreviation (input) MOUSE_STATUS_REMOTE :: u8 where "MOUSE_STATUS_REMOTE \<equiv> 0x40"
abbreviation (input) MOUSE_STATUS_ENABLED :: u8 where "MOUSE_STATUS_ENABLED \<equiv> 0x20"
abbreviation (input) MOUSE_STATUS_SCALE21 :: u8 where "MOUSE_STATUS_SCALE21 \<equiv> 0x10"

record PS2State =
  qdata :: "nat \<Rightarrow> u8"
  rptr :: nat
  wptr :: nat
  qcount :: nat
  ps2_write_cmd :: int

record PS2KbdState =
  kcommon :: PS2State
  scan_enabled :: bool
  translate :: bool
  scancode_set :: int

record PS2MouseState =
  mcommon :: PS2State
  mouse_status :: u8
  mouse_resolution :: u8
  mouse_sample_rate :: u8
  mouse_wrap :: bool
  mouse_type :: u8
  mouse_detect_state :: u8
  mouse_dx :: int
  mouse_dy :: int
  mouse_dz :: int
  mouse_buttons :: u8

definition ps2_raw_keycode :: "int list" where
  "ps2_raw_keycode = [
      0, 118,  22,  30,  38,  37,  46,  54,  61,  62,  70,  69,  78,  85, 102,  13,
     21,  29,  36,  45,  44,  53,  60,  67,  68,  77,  84,  91,  90,  20,  28,  27,
     35,  43,  52,  51,  59,  66,  75,  76,  82,  14,  18,  93,  26,  34,  33,  42,
     50,  49,  58,  65,  73,  74,  89, 124,  17,  41,  88,   5,   6,   4,  12,   3,
     11,   2,  10,   1,   9, 119, 126, 108, 117, 125, 123, 107, 115, 116, 121, 105,
    114, 122, 112, 113, 127,  96,  97, 120,   7,  15,  23,  31,  39,  47,  55,  63,
     71,  79,  86,  94,   8,  16,  24,  32,  40,  48,  56,  64,  72,  80,  87, 111,
     19,  25,  57,  81,  83,  92,  95,  98,  99, 100, 101, 103, 104, 106, 109, 110]"

definition ps2_raw_keycode_set3 :: "int list" where
  "ps2_raw_keycode_set3 = [
      0,   8,  22,  30,  38,  37,  46,  54,  61,  62,  70,  69,  78,  85, 102,  13,
     21,  29,  36,  45,  44,  53,  60,  67,  68,  77,  84,  91,  90,  17,  28,  27,
     35,  43,  52,  51,  59,  66,  75,  76,  82,  14,  18,  92,  26,  34,  33,  42,
     50,  49,  58,  65,  73,  74,  89, 126,  25,  41,  20,   7,  15,  23,  31,  39,
     47,   2,  63,  71,  79, 118,  95, 108, 117, 125, 132, 107, 115, 116, 124, 105,
    114, 122, 112, 113, 127,  96,  97,  86,  94,  15,  23,  31,  39,  47,  55,  63,
     71,  79,  86,  94,   8,  16,  24,  32,  40,  48,  56,  64,  72,  80,  87, 111,
     19,  25,  57,  81,  83,  92,  95,  98,  99, 100, 101, 103, 104, 106, 109, 110]"

definition ps2_queue :: "(int \<Rightarrow> 'w \<Rightarrow> 'w) \<Rightarrow> int \<Rightarrow> PS2State \<Rightarrow> 'w \<Rightarrow> PS2State \<times> 'w" where
  "ps2_queue U b q w =
     (if qcount q \<ge> PS2_QUEUE_SIZE then (q, w)
      else
        (let w' = wptr q + 1 in
         (q\<lparr>qdata := (qdata q)(wptr q := of_int b), wptr := (if w' = PS2_QUEUE_SIZE then 0 else w'),
            qcount := qcount q + 1\<rparr>, U 1 w)))"

definition ps2_read_data :: "(int \<Rightarrow> 'w \<Rightarrow> 'w) \<Rightarrow> PS2State \<Rightarrow> 'w \<Rightarrow> u32 \<times> PS2State \<times> 'w" where
  "ps2_read_data U q w =
     (if qcount q = 0 then
        (let i = (if rptr q = 0 then PS2_QUEUE_SIZE - 1 else rptr q - 1) in (ucast (qdata q i), q, w))
      else
        (let r' = rptr q + 1;
             q1 = q\<lparr>rptr := (if r' = PS2_QUEUE_SIZE then 0 else r'), qcount := qcount q - 1\<rparr>
         in (ucast (qdata q (rptr q)), q1, U (if qcount q1 \<noteq> 0 then 1 else 0) (U 0 w))))"

text \<open>Queueing on the ring of the keyboard and of the mouse.\<close>

definition kqueue :: "(int \<Rightarrow> 'w \<Rightarrow> 'w) \<Rightarrow> int \<Rightarrow> PS2KbdState \<times> 'w \<Rightarrow> PS2KbdState \<times> 'w" where
  "kqueue U b sw = (let (q, w) = ps2_queue U b (kcommon (fst sw)) (snd sw) in ((fst sw)\<lparr>kcommon := q\<rparr>, w))"

definition mqueue :: "(int \<Rightarrow> 'w \<Rightarrow> 'w) \<Rightarrow> int \<Rightarrow> PS2MouseState \<times> 'w \<Rightarrow> PS2MouseState \<times> 'w" where
  "mqueue U b sw = (let (q, w) = ps2_queue U b (mcommon (fst sw)) (snd sw) in ((fst sw)\<lparr>mcommon := q\<rparr>, w))"

definition kset_cmd :: "int \<Rightarrow> PS2KbdState \<Rightarrow> PS2KbdState" where
  "kset_cmd c s = s\<lparr>kcommon := (kcommon s)\<lparr>ps2_write_cmd := c\<rparr>\<rparr>"

definition mset_cmd :: "int \<Rightarrow> PS2MouseState \<Rightarrow> PS2MouseState" where
  "mset_cmd c s = s\<lparr>mcommon := (mcommon s)\<lparr>ps2_write_cmd := c\<rparr>\<rparr>"

definition ps2_put_keycode :: "(int \<Rightarrow> 'w \<Rightarrow> 'w) \<Rightarrow> int \<Rightarrow> PS2KbdState \<Rightarrow> 'w \<Rightarrow> PS2KbdState \<times> 'w" where
  "ps2_put_keycode U keycode s w =
     (if \<not> translate s \<and> keycode < 0xe0 \<and> scancode_set s > 1 then
        (let sw1 = (if keycode AND 0x80 \<noteq> 0 then kqueue U 0xf0 (s, w) else (s, w));
             k = (if scancode_set s = 2 then ps2_raw_keycode ! nat (keycode AND 0x7f)
                  else if scancode_set s = 3 then ps2_raw_keycode_set3 ! nat (keycode AND 0x7f)
                  else keycode)
         in kqueue U k sw1)
      else kqueue U keycode (s, w))"

definition ps2_reset_keyboard :: "(int \<Rightarrow> 'w \<Rightarrow> 'w) \<Rightarrow> PS2KbdState \<Rightarrow> 'w \<Rightarrow> PS2KbdState \<times> 'w" where
  "ps2_reset_keyboard led s w = (s\<lparr>scan_enabled := True, scancode_set := 2\<rparr>, led 0 w)"

definition kbd_command ::
  "(int \<Rightarrow> 'w \<Rightarrow> 'w) \<Rightarrow> (int \<Rightarrow> 'w \<Rightarrow> 'w) \<Rightarrow> int \<Rightarrow> PS2KbdState \<Rightarrow> 'w \<Rightarrow> PS2KbdState \<times> 'w" where
  "kbd_command U led val s w =
     (if val = 0x00 then kqueue U KBD_REPLY_ACK (s, w)
      else if val = 0x05 then kqueue U KBD_REPLY_RESEND (s, w)
      else if val = KBD_CMD_GET_ID then
        kqueue U (if translate s then 0x41 else 0x83) (kqueue U KBD_REPLY_ID (kqueue U KBD_REPLY_ACK (s, w)))
      else if val = KBD_CMD_ECHO then kqueue U KBD_CMD_ECHO (s, w)
      else if val = KBD_CMD_ENABLE then kqueue U KBD_REPLY_ACK (s\<lparr>scan_enabled := True\<rparr>, w)
      else if val = KBD_CMD_SCANCODE \<or> val = KBD_CMD_SET_LEDS \<or> val = KBD_CMD_SET_RATE then
        kqueue U KBD_REPLY_ACK (kset_cmd val s, w)
      else if val = KBD_CMD_RESET_DISABLE then
        (let (s1, w1) = ps2_reset_keyboard led s w in kqueue U KBD_REPLY_ACK (s1\<lparr>scan_enabled := False\<rparr>, w1))
      else if val = KBD_CMD_RESET_ENABLE then
        (let (s1, w1) = ps2_reset_keyboard led s w in kqueue U KBD_REPLY_ACK (s1\<lparr>scan_enabled := True\<rparr>, w1))
      else if val = KBD_CMD_RESET then
        kqueue U KBD_REPLY_POR (kqueue U KBD_REPLY_ACK (ps2_reset_keyboard led s w))
      else kqueue U KBD_REPLY_ACK (s, w))"

definition ps2_write_keyboard ::
  "(int \<Rightarrow> 'w \<Rightarrow> 'w) \<Rightarrow> (int \<Rightarrow> 'w \<Rightarrow> 'w) \<Rightarrow> int \<Rightarrow> PS2KbdState \<Rightarrow> 'w \<Rightarrow> PS2KbdState \<times> 'w" where
  "ps2_write_keyboard U led val s w =
     (let cmd = ps2_write_cmd (kcommon s) in
      if cmd = KBD_CMD_SCANCODE then
        (let (s1, w1) =
           (if val = 0 then
              (if scancode_set s = 1 then ps2_put_keycode U 0x43 s w
               else if scancode_set s = 2 then ps2_put_keycode U 0x41 s w
               else if scancode_set s = 3 then ps2_put_keycode U 0x3f s w
               else (s, w))
            else kqueue U KBD_REPLY_ACK (if val \<ge> 1 \<and> val \<le> 3 then s\<lparr>scancode_set := val\<rparr> else s, w))
         in (kset_cmd (-1) s1, w1))
      else if cmd = KBD_CMD_SET_LEDS then
        (let (s1, w1) = kqueue U KBD_REPLY_ACK (s, led val w) in (kset_cmd (-1) s1, w1))
      else if cmd = KBD_CMD_SET_RATE then
        (let (s1, w1) = kqueue U KBD_REPLY_ACK (s, w) in (kset_cmd (-1) s1, w1))
      else kbd_command U led val s w)"

definition ps2_keyboard_set_translation :: "bool \<Rightarrow> PS2KbdState \<Rightarrow> PS2KbdState" where
  "ps2_keyboard_set_translation m s = s\<lparr>translate := m\<rparr>"

definition clamp :: "int \<Rightarrow> int \<Rightarrow> int" where
  "clamp n d = (if d > n then n else if d < - n then - n else d)"

definition ps2_mouse_send_packet :: "(int \<Rightarrow> 'w \<Rightarrow> 'w) \<Rightarrow> PS2MouseState \<times> 'w \<Rightarrow> PS2MouseState \<times> 'w" where
  "ps2_mouse_send_packet U sw =
     (let s = fst sw;
          dx1 = clamp 127 (mouse_dx s);
          dy1 = clamp 127 (mouse_dy s);
          b = 0x08 OR (if dx1 < 0 then 0x10 else 0) OR (if dy1 < 0 then 0x20 else 0) OR uint (mouse_buttons s AND 0x07);
          sw1 = mqueue U (dy1 AND 0xff) (mqueue U (dx1 AND 0xff) (mqueue U b sw));
          dz1 = (if mouse_type s = 3 then clamp 127 (mouse_dz s)
                 else if mouse_type s = 4 then clamp 7 (mouse_dz s) else mouse_dz s);
          sw2 = (if mouse_type s = 3 then mqueue U (dz1 AND 0xff) sw1
                 else if mouse_type s = 4
                 then mqueue U (dz1 AND 0x0f OR uint (mouse_buttons s AND 0x18) * 2) sw1
                 else sw1);
          s2 = fst sw2
      in (s2\<lparr>mouse_dx := mouse_dx s2 - dx1, mouse_dy := mouse_dy s2 - dy1, mouse_dz := mouse_dz s2 - dz1\<rparr>, snd sw2))"

definition at_rest :: "PS2MouseState \<Rightarrow> bool" where
  "at_rest s \<longleftrightarrow> mouse_dx s = 0 \<and> mouse_dy s = 0 \<and> mouse_dz s = 0"

lemma mqueue_fields [simp]:
  "mouse_dx (fst (mqueue U b sw)) = mouse_dx (fst sw)" "mouse_dy (fst (mqueue U b sw)) = mouse_dy (fst sw)"
  "mouse_dz (fst (mqueue U b sw)) = mouse_dz (fst sw)" "mouse_type (fst (mqueue U b sw)) = mouse_type (fst sw)"
  "mouse_buttons (fst (mqueue U b sw)) = mouse_buttons (fst sw)"
  by (simp_all add: mqueue_def case_prod_beta Let_def)

definition motion :: "PS2MouseState \<Rightarrow> nat" where
  "motion s = nat \<bar>mouse_dx s\<bar> + nat \<bar>mouse_dy s\<bar> + nat \<bar>mouse_dz s\<bar>"

lemma clamp_rest:
  "0 < n \<Longrightarrow> nat \<bar>d - clamp n d\<bar> \<le> nat \<bar>d\<bar>" "0 < n \<Longrightarrow> d - clamp n d \<noteq> 0 \<Longrightarrow> nat \<bar>d - clamp n d\<bar> < nat \<bar>d\<bar>"
  by (simp_all add: clamp_def nat_le_iff split: if_splits)

definition sent_dz :: "PS2MouseState \<Rightarrow> int" where
  "sent_dz s = (if mouse_type s = 3 then clamp 127 (mouse_dz s)
     else if mouse_type s = 4 then clamp 7 (mouse_dz s) else mouse_dz s)"

lemma send_packet_deltas:
  "mouse_dx (fst (ps2_mouse_send_packet U sw)) = mouse_dx (fst sw) - clamp 127 (mouse_dx (fst sw))"
  "mouse_dy (fst (ps2_mouse_send_packet U sw)) = mouse_dy (fst sw) - clamp 127 (mouse_dy (fst sw))"
  "mouse_dz (fst (ps2_mouse_send_packet U sw)) = mouse_dz (fst sw) - sent_dz (fst sw)"
  by (simp_all add: ps2_mouse_send_packet_def Let_def sent_dz_def)

lemma sent_dz_rest:
  "nat \<bar>mouse_dz s - sent_dz s\<bar> \<le> nat \<bar>mouse_dz s\<bar>"
  "mouse_dz s - sent_dz s \<noteq> 0 \<Longrightarrow> nat \<bar>mouse_dz s - sent_dz s\<bar> < nat \<bar>mouse_dz s\<bar>"
  using clamp_rest [of 127 "mouse_dz s"] clamp_rest [of 7 "mouse_dz s"] by (auto simp: sent_dz_def split: if_splits)

lemma sum3_less:
  "a' \<le> a \<Longrightarrow> b' \<le> b \<Longrightarrow> c' \<le> c \<Longrightarrow> a' < a \<or> b' < b \<or> c' < c \<Longrightarrow> a' + b' + c' < a + b + (c :: nat)"
  by auto

lemma send_packet_motion:
  assumes "\<not> at_rest (fst (ps2_mouse_send_packet U sw))"
  shows "motion (fst (ps2_mouse_send_packet U sw)) < motion (fst sw)"
proof -
  have "mouse_dx (fst sw) - clamp 127 (mouse_dx (fst sw)) \<noteq> 0 \<or> mouse_dy (fst sw) - clamp 127 (mouse_dy (fst sw)) \<noteq> 0
    \<or> mouse_dz (fst sw) - sent_dz (fst sw) \<noteq> 0" using assms unfolding at_rest_def send_packet_deltas by blast
  then show ?thesis unfolding motion_def send_packet_deltas
    by (intro sum3_less clamp_rest(1) sent_dz_rest(1))
      (auto simp del: zero_less_nat_eq nat_less_eq_zless zless_nat_conj intro: clamp_rest(2) sent_dz_rest(2))
qed

function mouse_send_loop :: "(int \<Rightarrow> 'w \<Rightarrow> 'w) \<Rightarrow> PS2MouseState \<times> 'w \<Rightarrow> PS2MouseState \<times> 'w" where
  "mouse_send_loop U sw =
     (let sw1 = ps2_mouse_send_packet U sw in if at_rest (fst sw1) then sw1 else mouse_send_loop U sw1)"
  by pat_completeness auto

termination
  by (relation "measure (\<lambda>(U, sw). motion (fst sw))") (simp_all add: send_packet_motion)

declare mouse_send_loop.simps [simp del]

definition ps2_mouse_event ::
  "(int \<Rightarrow> 'w \<Rightarrow> 'w) \<Rightarrow> int \<Rightarrow> int \<Rightarrow> int \<Rightarrow> int \<Rightarrow> PS2MouseState \<Rightarrow> 'w \<Rightarrow> PS2MouseState \<times> 'w" where
  "ps2_mouse_event U dx dy dz buttons_state s w =
     (if mouse_status s AND MOUSE_STATUS_ENABLED = 0 then (s, w)
      else
        (let s1 = s\<lparr>mouse_dx := mouse_dx s + dx, mouse_dy := mouse_dy s - dy, mouse_dz := mouse_dz s + dz\<rparr> in
         if at_rest s1 \<and> uint (mouse_buttons s1) = buttons_state then (s1, w)
         else
           (let s2 = s1\<lparr>mouse_buttons := of_int buttons_state\<rparr> in
            if mouse_status s2 AND MOUSE_STATUS_REMOTE = 0 \<and> qcount (mcommon s2) < PS2_QUEUE_SIZE - 16
            then mouse_send_loop U (s2, w) else (s2, w))))"

definition ps2_mouse_fake_event :: "(int \<Rightarrow> 'w \<Rightarrow> 'w) \<Rightarrow> PS2MouseState \<Rightarrow> 'w \<Rightarrow> PS2MouseState \<times> 'w" where
  "ps2_mouse_fake_event U s w = ps2_mouse_event U 1 0 0 0 s w"

definition mouse_command :: "(int \<Rightarrow> 'w \<Rightarrow> 'w) \<Rightarrow> int \<Rightarrow> PS2MouseState \<Rightarrow> 'w \<Rightarrow> PS2MouseState \<times> 'w" where
  "mouse_command U val s w =
     (if val = AUX_SET_SCALE11 then mqueue U AUX_ACK (s\<lparr>mouse_status := mouse_status s AND NOT MOUSE_STATUS_SCALE21\<rparr>, w)
      else if val = AUX_SET_SCALE21 then mqueue U AUX_ACK (s\<lparr>mouse_status := mouse_status s OR MOUSE_STATUS_SCALE21\<rparr>, w)
      else if val = AUX_SET_STREAM then mqueue U AUX_ACK (s\<lparr>mouse_status := mouse_status s AND NOT MOUSE_STATUS_REMOTE\<rparr>, w)
      else if val = AUX_SET_WRAP then mqueue U AUX_ACK (s\<lparr>mouse_wrap := True\<rparr>, w)
      else if val = AUX_SET_REMOTE then mqueue U AUX_ACK (s\<lparr>mouse_status := mouse_status s OR MOUSE_STATUS_REMOTE\<rparr>, w)
      else if val = AUX_GET_TYPE then mqueue U (uint (mouse_type s)) (mqueue U AUX_ACK (s, w))
      else if val = AUX_SET_RES \<or> val = AUX_SET_SAMPLE then mqueue U AUX_ACK (mset_cmd val s, w)
      else if val = AUX_GET_SCALE then
        mqueue U (uint (mouse_sample_rate s)) (mqueue U (uint (mouse_resolution s))
          (mqueue U (uint (mouse_status s)) (mqueue U AUX_ACK (s, w))))
      else if val = AUX_POLL then ps2_mouse_send_packet U (mqueue U AUX_ACK (s, w))
      else if val = AUX_ENABLE_DEV then mqueue U AUX_ACK (s\<lparr>mouse_status := mouse_status s OR MOUSE_STATUS_ENABLED\<rparr>, w)
      else if val = AUX_DISABLE_DEV then mqueue U AUX_ACK (s\<lparr>mouse_status := mouse_status s AND NOT MOUSE_STATUS_ENABLED\<rparr>, w)
      else if val = AUX_SET_DEFAULT then
        mqueue U AUX_ACK (s\<lparr>mouse_sample_rate := 100, mouse_resolution := 2, mouse_status := 0\<rparr>, w)
      else if val = AUX_RESET then
        mqueue U 0 (mqueue U 0xaa (mqueue U AUX_ACK
          (s\<lparr>mouse_sample_rate := 100, mouse_resolution := 2, mouse_status := 0, mouse_type := 0\<rparr>, w)))
      else (s, w))"

definition set_sample :: "int \<Rightarrow> PS2MouseState \<Rightarrow> PS2MouseState" where
  "set_sample val s =
     (let s1 = s\<lparr>mouse_sample_rate := of_int val\<rparr>; st = mouse_detect_state s in
      if st = 1 then s1\<lparr>mouse_detect_state := (if val = 100 then 2 else if val = 200 then 3 else 0)\<rparr>
      else if st = 2 then (if val = 80 then s1\<lparr>mouse_type := 3\<rparr> else s1)\<lparr>mouse_detect_state := 0\<rparr>
      else if st = 3 then (if val = 80 then s1\<lparr>mouse_type := 4\<rparr> else s1)\<lparr>mouse_detect_state := 0\<rparr>
      else if val = 200 then s1\<lparr>mouse_detect_state := 1\<rparr> else s1)"

definition ps2_write_mouse :: "(int \<Rightarrow> 'w \<Rightarrow> 'w) \<Rightarrow> int \<Rightarrow> PS2MouseState \<Rightarrow> 'w \<Rightarrow> PS2MouseState \<times> 'w" where
  "ps2_write_mouse U val s w =
     (let cmd = ps2_write_cmd (mcommon s) in
      if cmd = AUX_SET_SAMPLE then
        (let (s1, w1) = mqueue U AUX_ACK (set_sample val s, w) in (mset_cmd (-1) s1, w1))
      else if cmd = AUX_SET_RES then
        (let (s1, w1) = mqueue U AUX_ACK (s\<lparr>mouse_resolution := of_int val\<rparr>, w) in (mset_cmd (-1) s1, w1))
      else if mouse_wrap s \<and> val = AUX_RESET_WRAP then mqueue U AUX_ACK (s\<lparr>mouse_wrap := False\<rparr>, w)
      else if mouse_wrap s \<and> val \<noteq> AUX_RESET then mqueue U val (s, w)
      else mouse_command U val s w)"

definition ps2_common_reset :: "(int \<Rightarrow> 'w \<Rightarrow> 'w) \<Rightarrow> PS2State \<Rightarrow> 'w \<Rightarrow> PS2State \<times> 'w" where
  "ps2_common_reset U q w = (q\<lparr>ps2_write_cmd := -1, rptr := 0, wptr := 0, qcount := 0\<rparr>, U 0 w)"

definition ps2_kbd_reset :: "(int \<Rightarrow> 'w \<Rightarrow> 'w) \<Rightarrow> PS2KbdState \<Rightarrow> 'w \<Rightarrow> PS2KbdState \<times> 'w" where
  "ps2_kbd_reset U s w =
     (let (q, w1) = ps2_common_reset U (kcommon s) w
      in (s\<lparr>kcommon := q, scan_enabled := False, translate := False, scancode_set := 0\<rparr>, w1))"

definition ps2_mouse_reset :: "(int \<Rightarrow> 'w \<Rightarrow> 'w) \<Rightarrow> PS2MouseState \<Rightarrow> 'w \<Rightarrow> PS2MouseState \<times> 'w" where
  "ps2_mouse_reset U s w =
     (let (q, w1) = ps2_common_reset U (mcommon s) w
      in (\<lparr>mcommon = q, mouse_status = 0, mouse_resolution = 0, mouse_sample_rate = 0, mouse_wrap = False,
           mouse_type = 0, mouse_detect_state = 0, mouse_dx = 0, mouse_dy = 0, mouse_dz = 0, mouse_buttons = 0\<rparr>, w1))"

definition ps2_kbd_post_load :: "int \<Rightarrow> PS2KbdState \<Rightarrow> PS2KbdState" where
  "ps2_kbd_post_load version_id s = (if version_id = 2 then s\<lparr>scancode_set := 2\<rparr> else s)"

definition ps2_zero :: PS2State where
  "ps2_zero = \<lparr>qdata = \<lambda>_. 0, rptr = 0, wptr = 0, qcount = 0, ps2_write_cmd = 0\<rparr>"

definition ps2_kbd_init :: PS2KbdState where
  "ps2_kbd_init = \<lparr>kcommon = ps2_zero, scan_enabled = False, translate = False, scancode_set = 2\<rparr>"

definition ps2_mouse_init :: PS2MouseState where
  "ps2_mouse_init = \<lparr>mcommon = ps2_zero, mouse_status = 0, mouse_resolution = 0, mouse_sample_rate = 0,
     mouse_wrap = False, mouse_type = 0, mouse_detect_state = 0, mouse_dx = 0, mouse_dy = 0, mouse_dz = 0,
     mouse_buttons = 0\<rparr>"

section \<open>Specification\<close>

definition ps2_wf :: "PS2State \<Rightarrow> bool" where
  "ps2_wf q \<longleftrightarrow> rptr q < 256 \<and> wptr q = (rptr q + qcount q) mod 256 \<and> qcount q \<le> 256"

definition ps2_list :: "PS2State \<Rightarrow> u8 list" where
  "ps2_list q = ring_list 256 (qdata q) (rptr q) (qcount q)"

text \<open>Reading a byte of a queue with its world.\<close>

definition ps2_get :: "(int \<Rightarrow> 'w \<Rightarrow> 'w) \<Rightarrow> PS2State \<times> 'w \<Rightarrow> u8 \<times> PS2State \<times> 'w" where
  "ps2_get U sw = (let (v, q) = ps2_read_data U (fst sw) (snd sw) in (ucast v, q))"

text \<open>The bytes of a mouse packet, and the movement a driver reads from them.\<close>

definition packet_len :: "u8 \<Rightarrow> nat" where
  "packet_len t = (if t = 3 \<or> t = 4 then 4 else 3)"

definition packet :: "PS2MouseState \<Rightarrow> u8 list" where
  "packet s =
     [of_int (0x08 OR (if mouse_dx s < 0 then 0x10 else 0) OR (if mouse_dy s < 0 then 0x20 else 0) OR uint (mouse_buttons s AND 0x07)),
      of_int (clamp 127 (mouse_dx s)), of_int (clamp 127 (mouse_dy s))] @
     (if mouse_type s = 3 then [of_int (clamp 127 (mouse_dz s))]
      else if mouse_type s = 4 then [of_int (clamp 7 (mouse_dz s) AND 0x0f OR uint (mouse_buttons s AND 0x18) * 2)]
      else [])"

definition packet_dz :: "u8 \<Rightarrow> u8 list \<Rightarrow> int" where
  "packet_dz t p = (if t = 3 then sint (p ! 3) else if t = 4 then signed_take_bit 3 (uint (p ! 3)) else 0)"

text \<open>The bytes of a key event in the second code set.\<close>

definition key_bytes :: "int \<Rightarrow> u8 list" where
  "key_bytes k = (if k \<ge> 0x80 then [0xf0, of_int (ps2_raw_keycode ! nat (k - 0x80))] else [of_int (ps2_raw_keycode ! nat k)])"

text \<open>The key events, as codes of the first set, that a driver reads from bytes of the second set.\<close>

fun decode_set2 :: "u8 list \<Rightarrow> int list" where
  "decode_set2 [] = []"
| "decode_set2 (b # bs) =
     (if b = 0xf0 then
        (case bs of [] \<Rightarrow> [] | c # cs \<Rightarrow>
           (case List.find (\<lambda>k. ps2_raw_keycode ! k = uint c) [0..<128] of
              None \<Rightarrow> decode_set2 cs | Some k \<Rightarrow> (int k + 0x80) # decode_set2 cs))
      else
        (case List.find (\<lambda>k. ps2_raw_keycode ! k = uint b) [0..<128] of
           None \<Rightarrow> decode_set2 bs | Some k \<Rightarrow> int k # decode_set2 bs))"

section \<open>The ring\<close>

lemma ps2_queue_full: "qcount q \<ge> 256 \<Longrightarrow> ps2_queue U b q w = (q, w)"
  by (simp add: ps2_queue_def)

lemma ps2_queue_room:
  assumes "ps2_wf q" and "qcount q < 256"
  shows "ps2_wf (fst (ps2_queue U b q w))" "ps2_list (fst (ps2_queue U b q w)) = ps2_list q @ [of_int b]"
    "qcount (fst (ps2_queue U b q w)) = Suc (qcount q)" "snd (ps2_queue U b q w) = U 1 w"
    "ps2_write_cmd (fst (ps2_queue U b q w)) = ps2_write_cmd q"
proof -
  show "ps2_wf (fst (ps2_queue U b q w))" "qcount (fst (ps2_queue U b q w)) = Suc (qcount q)"
    "snd (ps2_queue U b q w) = U 1 w" "ps2_write_cmd (fst (ps2_queue U b q w)) = ps2_write_cmd q"
    using assms by (auto simp: ps2_queue_def Let_def ps2_wf_def mod_Suc)
  show "ps2_list (fst (ps2_queue U b q w)) = ps2_list q @ [of_int b]"
    using assms ring_list_put [OF assms(2), of "qdata q" "rptr q" "of_int b"]
    by (simp add: ps2_queue_def Let_def ps2_list_def ps2_wf_def)
qed

lemma length_ps2_list [simp]: "length (ps2_list q) = qcount q"
  by (simp add: ps2_list_def)

lemma ps2_list_Nil [simp]: "ps2_list q = [] \<longleftrightarrow> qcount q = 0"
  using length_ps2_list [of q] by (metis length_0_conv)

lemma ps2_queue_wf [simp]: "ps2_wf q \<Longrightarrow> ps2_wf (fst (ps2_queue U b q w))"
  by (cases "qcount q < 256") (simp_all add: ps2_queue_room(1) ps2_queue_full)

lemma ps2_read_some:
  assumes "ps2_wf q" and "qcount q \<noteq> 0" and "ps2_read_data U q w = (v, q', w')"
  shows "ps2_wf q'" "ps2_list q = ucast v # ps2_list q'" "w' = U (if qcount q' \<noteq> 0 then 1 else 0) (U 0 w)"
    "qcount q' = qcount q - 1" "v = ucast (hd (ps2_list q))"
proof -
  have r: "rptr q < 256" using assms(1) by (simp add: ps2_wf_def)
  have q': "rptr q' = Suc (rptr q) mod 256" "qcount q' = qcount q - 1" "wptr q' = wptr q" "qdata q' = qdata q"
    "v = ucast (qdata q (rptr q))"
    using assms(2,3) r by (auto simp: ps2_read_data_def Let_def mod_Suc)
  show "qcount q' = qcount q - 1" using q'(2) .
  show "w' = U (if qcount q' \<noteq> 0 then 1 else 0) (U 0 w)"
    using assms(2,3) by (auto simp: ps2_read_data_def Let_def)
  have "(Suc (rptr q) mod 256 + (qcount q - 1)) mod 256 = (rptr q + qcount q) mod 256"
    unfolding mod_add_left_eq using assms(2) by simp
  then show "ps2_wf q'" using assms(1) q' by (auto simp: ps2_wf_def)
  have "ps2_list q = qdata q (rptr q) # ps2_list q'"
    using ring_list_get [of "qcount q" 256 "qdata q" "rptr q"] assms(2) r q' by (simp add: ps2_list_def)
  moreover have "ucast v = qdata q (rptr q)" unfolding q'(5) by (rule bit_word_eqI) (simp add: bit_simps)
  ultimately show "ps2_list q = ucast v # ps2_list q'" "v = ucast (hd (ps2_list q))" using q'(5) by simp_all
qed

lemma ps2_get_some:
  assumes "ps2_wf (fst sw)" and "qcount (fst sw) \<noteq> 0"
  shows "ps2_wf (fst (snd (ps2_get U sw)))" "ps2_list (fst sw) = fst (ps2_get U sw) # ps2_list (fst (snd (ps2_get U sw)))"
  using ps2_read_some(1,2) [OF assms, of U "snd sw"] unfolding ps2_get_def
  by (cases "ps2_read_data U (fst sw) (snd sw)"; simp)+

interpretation ps2q: fifo "\<lambda>b sw. ps2_queue U (uint b) (fst sw) (snd sw)" "ps2_get U"
  "\<lambda>sw. ps2_list (fst sw)" "\<lambda>sw. ps2_wf (fst sw)" 256 for U
  by unfold_locales (simp_all add: ps2_queue_room ps2_get_some)

section \<open>The contract with the controller\<close>

text \<open>
  A controller sees of a device whether bytes are waiting, \<open>view b w\<close>, and promises that its
  \<^verbatim>\<open>update_irq\<close> callback brings this view up to date.  Every operation of a device then keeps the
  view true to its queue.
\<close>

locale ps2_port =
  fixes U :: "int \<Rightarrow> 'w \<Rightarrow> 'w"
    and view :: "bool \<Rightarrow> 'w \<Rightarrow> bool"
  assumes update: "view b w \<Longrightarrow> view (l \<noteq> 0) (U l w)"
begin

definition seen :: "PS2State \<times> 'w \<Rightarrow> bool" where
  "seen qw \<longleftrightarrow> ps2_wf (fst qw) \<and> view (qcount (fst qw) \<noteq> 0) (snd qw)"

lemma queue_seen [simp]: "seen (q, w) \<Longrightarrow> seen (ps2_queue U b q w)"
  using update [of _ w 1] by (cases "qcount q < 256") (auto simp: seen_def ps2_queue_room ps2_queue_full)

lemma read_seen: "seen (q, w) \<Longrightarrow> seen (snd (ps2_read_data U q w))"
proof (cases "qcount q = 0")
  case True
  then show "seen (q, w) \<Longrightarrow> ?thesis" by (simp add: ps2_read_data_def Let_def)
next
  case False
  obtain v q' w' where r: "ps2_read_data U q w = (v, q', w')" by (metis prod_cases3)
  assume a: "seen (q, w)"
  then have "view (qcount q' \<noteq> 0) (U (if qcount q' \<noteq> 0 then 1 else 0) (U 0 w))"
    using update [OF update [of "qcount q \<noteq> 0" w 0], of "if qcount q' \<noteq> 0 then 1 else 0"] by (auto simp: seen_def)
  moreover have "ps2_wf q'" "w' = U (if qcount q' \<noteq> 0 then 1 else 0) (U 0 w)"
    using a ps2_read_some(1,3) [OF _ False r] by (simp_all add: seen_def)
  ultimately show ?thesis unfolding r seen_def by simp
qed

lemma kqueue_seen [simp]:
  "seen (kcommon (fst sw), snd sw) \<Longrightarrow> seen (kcommon (fst (kqueue U b sw)), snd (kqueue U b sw))"
  using queue_seen [of "kcommon (fst sw)" "snd sw" b] by (simp add: kqueue_def case_prod_beta Let_def)

lemma mqueue_seen [simp]:
  "seen (mcommon (fst sw), snd sw) \<Longrightarrow> seen (mcommon (fst (mqueue U b sw)), snd (mqueue U b sw))"
  using queue_seen [of "mcommon (fst sw)" "snd sw" b] by (simp add: mqueue_def case_prod_beta Let_def)

lemma set_cmd_seen [simp]:
  "seen (kcommon (kset_cmd c s), w) = seen (kcommon s, w)" "seen (mcommon (mset_cmd c m), w) = seen (mcommon m, w)"
  by (simp_all add: seen_def kset_cmd_def mset_cmd_def ps2_wf_def)

lemma put_keycode_seen:
  "seen (kcommon s, w) \<Longrightarrow> seen (kcommon (fst (ps2_put_keycode U k s w)), snd (ps2_put_keycode U k s w))"
  by (simp add: ps2_put_keycode_def Let_def)

lemma send_packet_seen:
  "seen (mcommon (fst sw), snd sw) \<Longrightarrow>
     seen (mcommon (fst (ps2_mouse_send_packet U sw)), snd (ps2_mouse_send_packet U sw))"
  by (simp add: ps2_mouse_send_packet_def Let_def)

lemma send_loop_seen:
  "seen (mcommon (fst sw), snd sw) \<Longrightarrow> seen (mcommon (fst (mouse_send_loop U sw)), snd (mouse_send_loop U sw))"
proof (induction "motion (fst sw)" arbitrary: sw rule: less_induct)
  case less
  then show ?case
    using send_packet_seen [OF less.prems] less.hyps [of "ps2_mouse_send_packet U sw"] send_packet_motion [of U sw]
    by (subst (1 2) mouse_send_loop.simps) (auto simp: Let_def)
qed

lemma mouse_event_seen:
  "seen (mcommon s, w) \<Longrightarrow> seen (mcommon (fst (ps2_mouse_event U dx dy dz b s w)), snd (ps2_mouse_event U dx dy dz b s w))"
  using send_loop_seen [of "(_, w)"] by (simp add: ps2_mouse_event_def Let_def)

lemma write_mouse_seen:
  "seen (mcommon s, w) \<Longrightarrow> seen (mcommon (fst (ps2_write_mouse U v s w)), snd (ps2_write_mouse U v s w))"
  by (simp add: ps2_write_mouse_def mouse_command_def set_sample_def Let_def case_prod_beta send_packet_seen)

lemma kbd_reset_seen: "view b w \<Longrightarrow> seen (kcommon (fst (ps2_kbd_reset U s w)), snd (ps2_kbd_reset U s w))"
  using update [of b w 0] by (simp add: ps2_kbd_reset_def ps2_common_reset_def seen_def ps2_wf_def)

lemma mouse_reset_seen: "view b w \<Longrightarrow> seen (mcommon (fst (ps2_mouse_reset U s w)), snd (ps2_mouse_reset U s w))"
  using update [of b w 0] by (simp add: ps2_mouse_reset_def ps2_common_reset_def seen_def ps2_wf_def)

end

locale ps2_kbd_port = ps2_port +
  fixes led :: "int \<Rightarrow> 'a \<Rightarrow> 'a"
  assumes led_view: "view b w \<Longrightarrow> view b (led v w)"
begin

lemma led_seen [simp]: "seen (q, w) \<Longrightarrow> seen (q, led v w)"
  by (simp add: seen_def led_view)

lemma write_keyboard_seen:
  "seen (kcommon s, w) \<Longrightarrow> seen (kcommon (fst (ps2_write_keyboard U led v s w)), snd (ps2_write_keyboard U led v s w))"
  by (simp add: ps2_write_keyboard_def kbd_command_def ps2_reset_keyboard_def Let_def case_prod_beta put_keycode_seen)

end

section \<open>Mouse packets\<close>

lemma byte_bits: "bit (0xff :: int) n \<longleftrightarrow> n < 8" "bit (0x0f :: int) n \<longleftrightarrow> n < 4"
proof -
  have "(0xff :: int) = mask 8" "(0x0f :: int) = mask 4" by (simp_all add: mask_eq_exp_minus_1)
  then show "bit (0xff :: int) n \<longleftrightarrow> n < 8" "bit (0x0f :: int) n \<longleftrightarrow> n < 4" by (simp_all only: bit_mask_iff possible_bit_def) auto
qed

lemma mqueue_common [simp]:
  "mcommon (fst (mqueue U b sw)) = fst (ps2_queue U b (mcommon (fst sw)) (snd sw))"
  by (simp add: mqueue_def case_prod_beta Let_def)

lemma mqueue_list:
  assumes "ps2_wf (mcommon (fst sw))" and "qcount (mcommon (fst sw)) < 256"
  shows "ps2_wf (mcommon (fst (mqueue U b sw)))"
    "ps2_list (mcommon (fst (mqueue U b sw))) = ps2_list (mcommon (fst sw)) @ [of_int b]"
    "qcount (mcommon (fst (mqueue U b sw))) = Suc (qcount (mcommon (fst sw)))"
  using assms by (simp_all add: ps2_queue_room)

lemma of_int_and_ff: "of_int (d AND 0xff) = (of_int d :: u8)"
  by (rule bit_word_eqI) (simp add: bit_simps byte_bits)

lemma clamp_neg [simp]: "clamp 127 d < 0 \<longleftrightarrow> d < 0"
  by (simp add: clamp_def)

lemma length_packet [simp]: "length (packet s) = packet_len (mouse_type s)"
  by (simp add: packet_def packet_len_def)

lemma send_packet_list:
  assumes "ps2_wf (mcommon (fst sw))" and "qcount (mcommon (fst sw)) + packet_len (mouse_type (fst sw)) \<le> 256"
  shows "ps2_wf (mcommon (fst (ps2_mouse_send_packet U sw)))"
    "ps2_list (mcommon (fst (ps2_mouse_send_packet U sw))) = ps2_list (mcommon (fst sw)) @ packet (fst sw)"
    "mouse_type (fst (ps2_mouse_send_packet U sw)) = mouse_type (fst sw)"
    "mouse_buttons (fst (ps2_mouse_send_packet U sw)) = mouse_buttons (fst sw)"
  using assms
  by (simp_all add: ps2_mouse_send_packet_def Let_def mqueue_list packet_def packet_len_def of_int_and_ff
      del: mqueue_common split: if_splits)

lemma sint_clamp: "\<bar>clamp 127 d\<bar> \<le> 127" "sint (of_int (clamp 127 d) :: u8) = clamp 127 d"
proof -
  show b: "\<bar>clamp 127 d\<bar> \<le> 127" by (simp add: clamp_def abs_le_iff)
  then show "sint (of_int (clamp 127 d) :: u8) = clamp 127 d"
    by (simp add: signed_of_int signed_take_bit_int_eq_self_iff abs_le_iff)
qed

lemma nibble_clamp:
  "signed_take_bit 3 (uint (of_int (clamp 7 d AND 0x0f OR uint (b AND 0x18 :: u8) * 2) :: u8)) = clamp 7 d"
proof -
  have "(0x18 :: u8) = push_bit 3 3" by simp
  then have b: "bit (0x18 :: u8) n \<Longrightarrow> 3 \<le> n" for n by (simp only: bit_push_bit_iff)
  have p: "uint (b AND 0x18) * 2 = push_bit 1 (uint (b AND 0x18))" by simp
  have q: "4 \<le> n" if "bit (uint (b AND 0x18) * 2) n" for n
    using that b [of "n - 1"] unfolding p bit_push_bit_iff bit_uint_iff bit_and_iff by auto
  have "signed_take_bit 3 (uint (of_int (clamp 7 d AND 0x0f OR uint (b AND 0x18) * 2) :: u8)) = signed_take_bit 3 (clamp 7 d)"
    by (rule bit_eqI) (auto simp: bit_simps byte_bits min_def dest!: q)
  also have "\<dots> = clamp 7 d"
    by (simp add: clamp_def signed_take_bit_int_eq_self_iff)
  finally show ?thesis .
qed

lemma packet_motion:
  "sint (packet s ! 1) = clamp 127 (mouse_dx s)" "sint (packet s ! 2) = clamp 127 (mouse_dy s)"
  "mouse_type s = 3 \<or> mouse_type s = 4 \<Longrightarrow> packet_dz (mouse_type s) (packet s) = sent_dz s"
  by (auto simp: packet_def sint_clamp packet_dz_def sent_dz_def nibble_clamp)

lemma clamp_step:
  assumes "\<bar>d\<bar> \<le> n * (1 + m)" and "0 < n" and "0 \<le> m"
  shows "\<bar>d - clamp n d\<bar> \<le> n * m"
proof -
  have "0 \<le> n * m" using assms by simp
  then show ?thesis using assms(1,2) by (auto simp: clamp_def abs_le_iff distrib_left)
qed

text \<open>The deltas of \<open>s\<close> are sent with at most \<open>k\<close> packets.\<close>

definition reach :: "nat \<Rightarrow> PS2MouseState \<Rightarrow> bool" where
  "reach k s \<longleftrightarrow> \<bar>mouse_dx s\<bar> \<le> 127 * int k \<and> \<bar>mouse_dy s\<bar> \<le> 127 * int k \<and>
     (mouse_type s = 3 \<longrightarrow> \<bar>mouse_dz s\<bar> \<le> 127 * int k) \<and> (mouse_type s = 4 \<longrightarrow> \<bar>mouse_dz s\<bar> \<le> 7 * int k)"

lemma send_packet_reach:
  assumes "reach (Suc k) (fst sw)" and "mouse_type (fst (ps2_mouse_send_packet U sw)) = mouse_type (fst sw)"
  shows "reach k (fst (ps2_mouse_send_packet U sw))"
    "k = 0 \<Longrightarrow> at_rest (fst (ps2_mouse_send_packet U sw))"
proof -
  let ?s = "fst sw"
  have x: "\<bar>mouse_dx ?s - clamp 127 (mouse_dx ?s)\<bar> \<le> 127 * int k" "\<bar>mouse_dy ?s - clamp 127 (mouse_dy ?s)\<bar> \<le> 127 * int k"
    using assms(1) by (auto simp: reach_def intro!: clamp_step)
  have z: "\<bar>mouse_dz ?s - sent_dz ?s\<bar> \<le> 127 * int k" if "mouse_type ?s = 3"
    using assms(1) that by (auto simp: reach_def sent_dz_def intro!: clamp_step)
  have z': "\<bar>mouse_dz ?s - sent_dz ?s\<bar> \<le> 7 * int k" if "mouse_type ?s = 4"
    using assms(1) that by (auto simp: reach_def sent_dz_def intro!: clamp_step)
  show "reach k (fst (ps2_mouse_send_packet U sw))"
    unfolding reach_def send_packet_deltas assms(2) using x z z' by blast
  have "mouse_dz ?s - sent_dz ?s = 0" if "mouse_type ?s \<noteq> 3" "mouse_type ?s \<noteq> 4"
    using that by (simp add: sent_dz_def)
  then show "at_rest (fst (ps2_mouse_send_packet U sw))" if "k = 0"
    using x z z' that unfolding at_rest_def send_packet_deltas by fastforce
qed

lemma mouse_loop_delivers:
  assumes "ps2_wf (mcommon (fst sw))" and "reach k (fst sw)" and "1 \<le> k"
    and "qcount (mcommon (fst sw)) + k * packet_len (mouse_type (fst sw)) \<le> 256"
  shows "\<exists>ps. ps2_list (mcommon (fst (mouse_send_loop U sw))) = ps2_list (mcommon (fst sw)) @ concat ps \<and>
     (\<forall>p\<in>set ps. length p = packet_len (mouse_type (fst sw))) \<and>
     (\<Sum>p\<leftarrow>ps. sint (p ! 1)) = mouse_dx (fst sw) \<and> (\<Sum>p\<leftarrow>ps. sint (p ! 2)) = mouse_dy (fst sw) \<and>
     (mouse_type (fst sw) = 3 \<or> mouse_type (fst sw) = 4 \<longrightarrow>
        (\<Sum>p\<leftarrow>ps. packet_dz (mouse_type (fst sw)) p) = mouse_dz (fst sw)) \<and>
     at_rest (fst (mouse_send_loop U sw))"
  using assms
proof (induction U sw arbitrary: k rule: mouse_send_loop.induct)
  case (1 U sw)
  let ?s = "fst sw" and ?sw1 = "ps2_mouse_send_packet U sw"
  obtain k' where k: "k = Suc k'" using "1.prems"(3) by (cases k) auto
  have room: "qcount (mcommon ?s) + packet_len (mouse_type ?s) \<le> 256" using "1.prems"(4) unfolding k by simp
  note p = send_packet_list [OF "1.prems"(1) room, of U]
  have q: "qcount (mcommon (fst ?sw1)) = qcount (mcommon ?s) + packet_len (mouse_type ?s)"
    using arg_cong [OF p(2), of length] by simp
  note m = packet_motion [of ?s] send_packet_deltas [of U sw]
  show ?case
  proof (cases "at_rest (fst ?sw1)")
    case True
    then have l: "mouse_send_loop U sw = ?sw1" by (subst mouse_send_loop.simps) simp
    have "mouse_dx ?s = clamp 127 (mouse_dx ?s)" "mouse_dy ?s = clamp 127 (mouse_dy ?s)" "mouse_dz ?s = sent_dz ?s"
      using True unfolding at_rest_def m by simp_all
    then show ?thesis unfolding l using True p(2) m(1-3) by (intro exI [of _ "[packet ?s]"]) simp
  next
    case False
    then have l: "mouse_send_loop U sw = mouse_send_loop U ?sw1" by (subst mouse_send_loop.simps) simp
    have "k' \<noteq> 0" using send_packet_reach(2) [OF "1.prems"(2) [unfolded k] p(3)] False by blast
    then obtain ps where ps: "ps2_list (mcommon (fst (mouse_send_loop U ?sw1))) = ps2_list (mcommon (fst ?sw1)) @ concat ps"
      "\<forall>p\<in>set ps. length p = packet_len (mouse_type ?s)"
      "(\<Sum>p\<leftarrow>ps. sint (p ! 1)) = mouse_dx (fst ?sw1)" "(\<Sum>p\<leftarrow>ps. sint (p ! 2)) = mouse_dy (fst ?sw1)"
      "mouse_type ?s = 3 \<or> mouse_type ?s = 4 \<longrightarrow> (\<Sum>p\<leftarrow>ps. packet_dz (mouse_type ?s) p) = mouse_dz (fst ?sw1)"
      "at_rest (fst (mouse_send_loop U ?sw1))"
      using "1.IH" [OF refl False p(1) send_packet_reach(1) [OF "1.prems"(2) [unfolded k] p(3)]] "1.prems"(4) q
      unfolding p(3) k by auto
    show ?thesis unfolding l using ps p(2) m by (intro exI [of _ "packet ?s # ps"]) auto
  qed
qed

text \<open>
  C28.  The mouse reports every movement: an event of an enabled mouse in stream mode sends packets
  whose movements, as a driver decodes them, add up to the accumulated deltas (for the wheel in the
  formats that report it), and leaves nothing to report, whenever the packets it needs fit in the
  queue.
\<close>

theorem ps2_mouse_motion_delivered:
  assumes "ps2_wf (mcommon s)" and "mouse_status s AND MOUSE_STATUS_ENABLED \<noteq> 0"
    and "mouse_status s AND MOUSE_STATUS_REMOTE = 0" and "qcount (mcommon s) < 240"
    and "s1 = s\<lparr>mouse_dx := mouse_dx s + dx, mouse_dy := mouse_dy s - dy, mouse_dz := mouse_dz s + dz\<rparr>"
    and "\<not> at_rest s1 \<or> uint (mouse_buttons s) \<noteq> b"
    and "reach k s1" and "1 \<le> k" and "qcount (mcommon s) + k * packet_len (mouse_type s) \<le> 256"
    and "s' = fst (ps2_mouse_event U dx dy dz b s w)"
  shows "\<exists>ps. ps2_list (mcommon s') = ps2_list (mcommon s) @ concat ps \<and>
     (\<forall>p\<in>set ps. length p = packet_len (mouse_type s)) \<and>
     (\<Sum>p\<leftarrow>ps. sint (p ! 1)) = mouse_dx s + dx \<and> (\<Sum>p\<leftarrow>ps. sint (p ! 2)) = mouse_dy s - dy \<and>
     (mouse_type s = 3 \<or> mouse_type s = 4 \<longrightarrow> (\<Sum>p\<leftarrow>ps. packet_dz (mouse_type s) p) = mouse_dz s + dz) \<and>
     at_rest s'"
proof -
  let ?s2 = "s1\<lparr>mouse_buttons := of_int b\<rparr>"
  have "ps2_mouse_event U dx dy dz b s w = mouse_send_loop U (?s2, w)"
    using assms(2-6) by (auto simp: ps2_mouse_event_def Let_def)
  moreover have "reach k ?s2" using assms(7) by (simp add: reach_def)
  ultimately show ?thesis
    using mouse_loop_delivers [of "(?s2, w)" k U] assms(1,5,8-10) by simp
qed

theorem ps2_mouse_motion_delivered_witness:
  "\<exists>ps. ps2_list (mcommon (fst (ps2_mouse_event (\<lambda>_ w. w) 300 (-5) 2 1 (ps2_mouse_init\<lparr>mouse_status := 0x20, mouse_type := 4\<rparr>) ())))
       = concat ps \<and> (\<Sum>p\<leftarrow>ps. sint (p ! 1)) = 300 \<and> (\<Sum>p\<leftarrow>ps. sint (p ! 2)) = 5 \<and> (\<Sum>p\<leftarrow>ps. packet_dz 4 p) = 2"
proof -
  let ?s = "ps2_mouse_init\<lparr>mouse_status := 0x20, mouse_type := 4\<rparr>"
  have r: "reach 3 (?s\<lparr>mouse_dx := mouse_dx ?s + 300, mouse_dy := mouse_dy ?s - (-5), mouse_dz := mouse_dz ?s + 2\<rparr>)"
    by (simp add: reach_def ps2_mouse_init_def)
  have w: "ps2_wf (mcommon ?s)" "mouse_status ?s AND 0x20 \<noteq> 0" "mouse_status ?s AND 0x40 = 0" "qcount (mcommon ?s) < 240"
    "qcount (mcommon ?s) + 3 * packet_len (mouse_type ?s) \<le> 256" "mouse_buttons ?s = 0" "mouse_type ?s = 4"
    "mouse_dx ?s = 0" "mouse_dy ?s = 0" "mouse_dz ?s = 0" "ps2_list (mcommon ps2_mouse_init) = []"
    by (simp_all add: ps2_mouse_init_def ps2_zero_def ps2_wf_def packet_len_def)
  show ?thesis
    using ps2_mouse_motion_delivered [OF w(1-4) refl _ r _ w(5) refl, of 1 "\<lambda>_ w. w" "()"] w(6-10)
    by (auto simp: w(11) simp del: ps2_list_Nil)
qed

section \<open>Keyboard codes\<close>

lemma raw_keycode_table: "length ps2_raw_keycode = 128" "distinct ps2_raw_keycode" "list_all (\<lambda>x. 0 \<le> x \<and> x < 128) ps2_raw_keycode"
  by (simp_all add: ps2_raw_keycode_def)

lemma raw_keycode_range: "i < 128 \<Longrightarrow> 0 \<le> ps2_raw_keycode ! i \<and> ps2_raw_keycode ! i < 128"
  using raw_keycode_table(1,3) by (simp add: list_all_length)

lemma find_keycode:
  assumes "i < 128"
  shows "List.find (\<lambda>k. ps2_raw_keycode ! k = uint (of_int (ps2_raw_keycode ! i) :: u8)) [0..<128] = Some i"
proof -
  have u: "uint (of_int (ps2_raw_keycode ! i) :: u8) = ps2_raw_keycode ! i"
    using raw_keycode_range [OF assms] by (simp add: unsigned_of_int take_bit_int_eq_self_iff)
  have "ps2_raw_keycode ! k = ps2_raw_keycode ! i \<longleftrightarrow> k = i" if "k < 128" for k
    using raw_keycode_table(1,2) assms that by (simp add: nth_eq_iff_index_eq)
  then show ?thesis unfolding u find_Some_iff using assms by (auto intro!: exI [of _ i])
qed

lemma of_int_not_f0:
  assumes "i < 128"
  shows "(of_int (ps2_raw_keycode ! i) :: u8) \<noteq> 0xf0"
proof
  assume "(of_int (ps2_raw_keycode ! i) :: u8) = 0xf0"
  then have "uint (of_int (ps2_raw_keycode ! i) :: u8) = 0xf0" by simp
  then show False using raw_keycode_range [OF assms] by (simp add: unsigned_of_int take_bit_eq_mod)
qed

lemma decode_key: "0 \<le> k \<Longrightarrow> k < 0x100 \<Longrightarrow> decode_set2 (key_bytes k @ bs) = k # decode_set2 bs"
  using find_keycode [of "nat k"] find_keycode [of "nat (k - 0x80)"] of_int_not_f0 [of "nat k"]
  by (auto simp: key_bytes_def)

lemma decode_keys: "list_all (\<lambda>k. 0 \<le> k \<and> k < 0x100) ks \<Longrightarrow> decode_set2 (concat (map key_bytes ks)) = ks"
  by (induction ks) (auto simp: decode_key)

lemma kqueue_list:
  assumes "ps2_wf (kcommon (fst sw))" and "qcount (kcommon (fst sw)) < 256"
  shows "ps2_wf (kcommon (fst (kqueue U b sw)))"
    "ps2_list (kcommon (fst (kqueue U b sw))) = ps2_list (kcommon (fst sw)) @ [of_int b]"
    "qcount (kcommon (fst (kqueue U b sw))) = Suc (qcount (kcommon (fst sw)))"
    "snd (kqueue U b sw) = U 1 (snd sw)"
  using assms by (simp_all add: kqueue_def case_prod_beta Let_def ps2_queue_room)

lemma kqueue_fields [simp]:
  "translate (fst (kqueue U b sw)) = translate (fst sw)" "scancode_set (fst (kqueue U b sw)) = scancode_set (fst sw)"
  "scan_enabled (fst (kqueue U b sw)) = scan_enabled (fst sw)"
  by (simp_all add: kqueue_def case_prod_beta Let_def)

lemma key_bits:
  assumes "0 \<le> k" and "k < 0x100"
  shows "k AND 0x80 \<noteq> 0 \<longleftrightarrow> 0x80 \<le> (k :: int)" "k AND 0x7f = (if 0x80 \<le> k then k - 0x80 else k)"
proof -
  have "k AND 0x7f = k mod 128" using take_bit_eq_mask [of 7 k] by (simp add: take_bit_eq_mod mask_eq_exp_minus_1)
  moreover have "k AND 0x80 \<noteq> 0 \<longleftrightarrow> odd (k div 128)"
    using and_exp_eq_0_iff_not_bit [of k 7] by (simp add: bit_iff_odd)
  moreover have "k div 128 = (if 0x80 \<le> k then 1 else 0)" using assms by auto
  moreover have "k mod 128 = k - 128 * (k div 128)" by (simp add: minus_mult_div_eq_mod)
  ultimately show "k AND 0x80 \<noteq> 0 \<longleftrightarrow> 0x80 \<le> k" "k AND 0x7f = (if 0x80 \<le> k then k - 0x80 else k)"
    by (simp_all split: if_splits)
qed

lemma put_keycode_list:
  assumes "ps2_wf (kcommon s)" and "qcount (kcommon s) + 2 \<le> 256" and "\<not> translate s" and "scancode_set s = 2"
    and "0 \<le> k" and "k < 0xe0"
  shows "ps2_wf (kcommon (fst (ps2_put_keycode U k s w)))"
    "ps2_list (kcommon (fst (ps2_put_keycode U k s w))) = ps2_list (kcommon s) @ key_bytes k"
    "translate (fst (ps2_put_keycode U k s w)) = translate s"
    "scancode_set (fst (ps2_put_keycode U k s w)) = scancode_set s"
  using assms key_bits [of k] by (simp_all add: ps2_put_keycode_def Let_def kqueue_list key_bytes_def)

text \<open>
  The scan code set query: a keyboard asked which set it uses answers with the code of the set
  when the codes are translated, but with translation off only for set 2.  In set 1 it answers 0x43
  and in set 3 it answers 39, since the answer goes through the table of set 3; no acknowledge
  precedes the answer.
\<close>

theorem ps2_scancode_query:
  assumes "ps2_wf (kcommon s)" and "qcount (kcommon s) < 256" and "ps2_write_cmd (kcommon s) = KBD_CMD_SCANCODE"
    and "1 \<le> scancode_set s" and "scancode_set s \<le> 3"
  shows "ps2_list (kcommon (fst (ps2_write_keyboard U led 0 s w))) = ps2_list (kcommon s) @
     [if scancode_set s = 1 then 0x43
      else if scancode_set s = 2 then (if translate s then 0x41 else 2)
      else (if translate s then 0x3f else 39)]"
proof -
  consider "scancode_set s = 1" | "scancode_set s = 2" | "scancode_set s = 3" using assms(4,5) by linarith
  then show ?thesis
    using assms(1-3)
    by cases (simp_all add: ps2_write_keyboard_def ps2_put_keycode_def Let_def case_prod_beta kset_cmd_def ps2_list_def
        kqueue_list(2) [unfolded ps2_list_def] ps2_raw_keycode_def ps2_raw_keycode_set3_def)
qed

theorem ps2_scancode_query_witness:
  "ps2_list (kcommon (fst (ps2_write_keyboard (\<lambda>_ w. w) (\<lambda>_ w. w) 0
     (kset_cmd 0xF0 (ps2_kbd_init\<lparr>scancode_set := 3\<rparr>)) ()))) = [39]"
  using ps2_scancode_query [of "kset_cmd 0xF0 (ps2_kbd_init\<lparr>scancode_set := 3\<rparr>)" "\<lambda>_ w. w" "\<lambda>_ w. w" "()"]
  by (simp add: kset_cmd_def ps2_kbd_init_def ps2_zero_def ps2_wf_def ps2_list_def)

end
