(* ===== verification/Pckbd.thy ===== *)
theory Pckbd
  imports Irq Ps2
begin

text \<open>
  The i8042 keyboard controller (\<^verbatim>\<open>hw/pckbd.c\<close>) with the keyboard and the mouse attached to it.  The
  interrupt callback that the controller gives the two devices works on the registers of the
  controller and the world, which is the world of the devices here.  The pins, the A20 line (which
  may be missing), the leds of the host and the system reset are the environment.
\<close>

section \<open>Model\<close>

record KBDState =
  kwrite_cmd :: u8
  kstatus :: u8
  kmode :: u8
  koutport :: u8
  kpending :: u8

record i8042 =
  kregs :: KBDState
  kbd :: PS2KbdState
  mouse :: PS2MouseState

record 'w kbd_env =
  irq_kbd :: "'w qemu_irq"
  irq_mouse :: "'w qemu_irq"
  a20_out :: "'w qemu_irq option"
  put_ledstate :: "int \<Rightarrow> 'w \<Rightarrow> 'w"
  system_reset_request :: "'w \<Rightarrow> 'w"
  mm_mask :: u64

abbreviation (input) KBD_CCMD_READ_MODE :: u32 where "KBD_CCMD_READ_MODE \<equiv> 0x20"
abbreviation (input) KBD_CCMD_WRITE_MODE :: u32 where "KBD_CCMD_WRITE_MODE \<equiv> 0x60"
abbreviation (input) KBD_CCMD_MOUSE_DISABLE :: u32 where "KBD_CCMD_MOUSE_DISABLE \<equiv> 0xA7"
abbreviation (input) KBD_CCMD_MOUSE_ENABLE :: u32 where "KBD_CCMD_MOUSE_ENABLE \<equiv> 0xA8"
abbreviation (input) KBD_CCMD_TEST_MOUSE :: u32 where "KBD_CCMD_TEST_MOUSE \<equiv> 0xA9"
abbreviation (input) KBD_CCMD_SELF_TEST :: u32 where "KBD_CCMD_SELF_TEST \<equiv> 0xAA"
abbreviation (input) KBD_CCMD_KBD_TEST :: u32 where "KBD_CCMD_KBD_TEST \<equiv> 0xAB"
abbreviation (input) KBD_CCMD_KBD_DISABLE :: u32 where "KBD_CCMD_KBD_DISABLE \<equiv> 0xAD"
abbreviation (input) KBD_CCMD_KBD_ENABLE :: u32 where "KBD_CCMD_KBD_ENABLE \<equiv> 0xAE"
abbreviation (input) KBD_CCMD_READ_INPORT :: u32 where "KBD_CCMD_READ_INPORT \<equiv> 0xC0"
abbreviation (input) KBD_CCMD_READ_OUTPORT :: u32 where "KBD_CCMD_READ_OUTPORT \<equiv> 0xD0"
abbreviation (input) KBD_CCMD_WRITE_OUTPORT :: u32 where "KBD_CCMD_WRITE_OUTPORT \<equiv> 0xD1"
abbreviation (input) KBD_CCMD_WRITE_OBUF :: u32 where "KBD_CCMD_WRITE_OBUF \<equiv> 0xD2"
abbreviation (input) KBD_CCMD_WRITE_AUX_OBUF :: u32 where "KBD_CCMD_WRITE_AUX_OBUF \<equiv> 0xD3"
abbreviation (input) KBD_CCMD_WRITE_MOUSE :: u32 where "KBD_CCMD_WRITE_MOUSE \<equiv> 0xD4"
abbreviation (input) KBD_CCMD_DISABLE_A20 :: u32 where "KBD_CCMD_DISABLE_A20 \<equiv> 0xDD"
abbreviation (input) KBD_CCMD_ENABLE_A20 :: u32 where "KBD_CCMD_ENABLE_A20 \<equiv> 0xDF"
abbreviation (input) KBD_CCMD_PULSE_BITS_3_0 :: u32 where "KBD_CCMD_PULSE_BITS_3_0 \<equiv> 0xF0"
abbreviation (input) KBD_CCMD_RESET :: u32 where "KBD_CCMD_RESET \<equiv> 0xFE"
abbreviation (input) KBD_CCMD_NO_OP :: u32 where "KBD_CCMD_NO_OP \<equiv> 0xFF"
abbreviation (input) KBD_STAT_OBF :: u8 where "KBD_STAT_OBF \<equiv> 0x01"
abbreviation (input) KBD_STAT_SELFTEST :: u8 where "KBD_STAT_SELFTEST \<equiv> 0x04"
abbreviation (input) KBD_STAT_CMD :: u8 where "KBD_STAT_CMD \<equiv> 0x08"
abbreviation (input) KBD_STAT_UNLOCKED :: u8 where "KBD_STAT_UNLOCKED \<equiv> 0x10"
abbreviation (input) KBD_STAT_MOUSE_OBF :: u8 where "KBD_STAT_MOUSE_OBF \<equiv> 0x20"
abbreviation (input) KBD_MODE_KBD_INT :: u8 where "KBD_MODE_KBD_INT \<equiv> 0x01"
abbreviation (input) KBD_MODE_MOUSE_INT :: u8 where "KBD_MODE_MOUSE_INT \<equiv> 0x02"
abbreviation (input) KBD_MODE_DISABLE_KBD :: u8 where "KBD_MODE_DISABLE_KBD \<equiv> 0x10"
abbreviation (input) KBD_MODE_DISABLE_MOUSE :: u8 where "KBD_MODE_DISABLE_MOUSE \<equiv> 0x20"
abbreviation (input) KBD_MODE_KCC :: u8 where "KBD_MODE_KCC \<equiv> 0x40"
abbreviation (input) KBD_OUT_RESET :: u8 where "KBD_OUT_RESET \<equiv> 0x01"
abbreviation (input) KBD_OUT_A20 :: u8 where "KBD_OUT_A20 \<equiv> 0x02"
abbreviation (input) KBD_OUT_OBF :: u8 where "KBD_OUT_OBF \<equiv> 0x10"
abbreviation (input) KBD_OUT_MOUSE_OBF :: u8 where "KBD_OUT_MOUSE_OBF \<equiv> 0x20"
abbreviation (input) KBD_PENDING_KBD :: u8 where "KBD_PENDING_KBD \<equiv> 1"
abbreviation (input) KBD_PENDING_AUX :: u8 where "KBD_PENDING_AUX \<equiv> 2"

definition kbd_update_irq :: "'w kbd_env \<Rightarrow> KBDState \<times> 'w \<Rightarrow> KBDState \<times> 'w" where
  "kbd_update_irq E sw =
     (let s = fst sw;
          s1 = s\<lparr>kstatus := kstatus s AND NOT (KBD_STAT_OBF OR KBD_STAT_MOUSE_OBF),
                 koutport := koutport s AND NOT (KBD_OUT_OBF OR KBD_OUT_MOUSE_OBF)\<rparr>;
          s2 = (if kpending s1 \<noteq> 0
                then s1\<lparr>kstatus := kstatus s1 OR KBD_STAT_OBF, koutport := koutport s1 OR KBD_OUT_OBF\<rparr> else s1);
          aux = (kpending s2 \<noteq> 0 \<and> kpending s2 = KBD_PENDING_AUX);
          s3 = (if aux
                then s2\<lparr>kstatus := kstatus s2 OR KBD_STAT_MOUSE_OBF, koutport := koutport s2 OR KBD_OUT_MOUSE_OBF\<rparr>
                else s2);
          irq_mouse_level = (if aux \<and> kmode s3 AND KBD_MODE_MOUSE_INT \<noteq> 0 then 1 else 0);
          irq_kbd_level = (if kpending s3 \<noteq> 0 \<and> \<not> aux \<and> kmode s3 AND KBD_MODE_KBD_INT \<noteq> 0 \<and>
                              kmode s3 AND KBD_MODE_DISABLE_KBD = 0 then 1 else 0)
      in (s3, qemu_set_irq (irq_mouse E) irq_mouse_level (qemu_set_irq (irq_kbd E) irq_kbd_level (snd sw))))"

definition kbd_update_kbd_irq :: "'w kbd_env \<Rightarrow> int \<Rightarrow> KBDState \<times> 'w \<Rightarrow> KBDState \<times> 'w" where
  "kbd_update_kbd_irq E level sw =
     (let s = fst sw in
      kbd_update_irq E
        (s\<lparr>kpending := (if level \<noteq> 0 then kpending s OR KBD_PENDING_KBD else kpending s AND NOT KBD_PENDING_KBD)\<rparr>, snd sw))"

definition kbd_update_aux_irq :: "'w kbd_env \<Rightarrow> int \<Rightarrow> KBDState \<times> 'w \<Rightarrow> KBDState \<times> 'w" where
  "kbd_update_aux_irq E level sw =
     (let s = fst sw in
      kbd_update_irq E
        (s\<lparr>kpending := (if level \<noteq> 0 then kpending s OR KBD_PENDING_AUX else kpending s AND NOT KBD_PENDING_AUX)\<rparr>, snd sw))"

text \<open>A call of an operation of the keyboard, of the mouse, and of the controller itself.\<close>

definition on_kbd ::
  "(PS2KbdState \<Rightarrow> KBDState \<times> 'w \<Rightarrow> PS2KbdState \<times> KBDState \<times> 'w) \<Rightarrow> i8042 \<times> 'w \<Rightarrow> i8042 \<times> 'w" where
  "on_kbd f Sw = (let (d, k, w) = f (kbd (fst Sw)) (kregs (fst Sw), snd Sw) in ((fst Sw)\<lparr>kbd := d, kregs := k\<rparr>, w))"

definition on_mouse ::
  "(PS2MouseState \<Rightarrow> KBDState \<times> 'w \<Rightarrow> PS2MouseState \<times> KBDState \<times> 'w) \<Rightarrow> i8042 \<times> 'w \<Rightarrow> i8042 \<times> 'w" where
  "on_mouse f Sw = (let (d, k, w) = f (mouse (fst Sw)) (kregs (fst Sw), snd Sw) in ((fst Sw)\<lparr>mouse := d, kregs := k\<rparr>, w))"

definition on_kregs :: "(KBDState \<times> 'w \<Rightarrow> KBDState \<times> 'w) \<Rightarrow> i8042 \<times> 'w \<Rightarrow> i8042 \<times> 'w" where
  "on_kregs f Sw = (let (k, w) = f (kregs (fst Sw), snd Sw) in ((fst Sw)\<lparr>kregs := k\<rparr>, w))"

definition kbd_led :: "'w kbd_env \<Rightarrow> int \<Rightarrow> KBDState \<times> 'w \<Rightarrow> KBDState \<times> 'w" where
  "kbd_led E v kw = (fst kw, put_ledstate E v (snd kw))"

definition kbd_read_status :: "i8042 \<Rightarrow> u32" where
  "kbd_read_status S = ucast (kstatus (kregs S))"

definition kbd_queue :: "'w kbd_env \<Rightarrow> int \<Rightarrow> bool \<Rightarrow> i8042 \<times> 'w \<Rightarrow> i8042 \<times> 'w" where
  "kbd_queue E b aux Sw =
     (if aux then on_mouse (\<lambda>d kw. mqueue (kbd_update_aux_irq E) b (d, kw)) Sw
      else on_kbd (\<lambda>d kw. kqueue (kbd_update_kbd_irq E) b (d, kw)) Sw)"

definition a20_set :: "'w kbd_env \<Rightarrow> int \<Rightarrow> 'w \<Rightarrow> 'w" where
  "a20_set E level w = (case a20_out E of None \<Rightarrow> w | Some p \<Rightarrow> qemu_set_irq p level w)"

definition outport_write :: "'w kbd_env \<Rightarrow> u32 \<Rightarrow> KBDState \<times> 'w \<Rightarrow> KBDState \<times> 'w" where
  "outport_write E val sw =
     (let w1 = a20_set E (if bit val 1 then 1 else 0) (snd sw)
      in ((fst sw)\<lparr>koutport := ucast val\<rparr>, if val AND 1 = 0 then system_reset_request E w1 else w1))"

definition kbd_write_command :: "'w kbd_env \<Rightarrow> u32 \<Rightarrow> i8042 \<times> 'w \<Rightarrow> i8042 \<times> 'w" where
  "kbd_write_command E v Sw =
     (let val = (if v AND KBD_CCMD_PULSE_BITS_3_0 = KBD_CCMD_PULSE_BITS_3_0
                 then (if v AND 1 = 0 then KBD_CCMD_RESET else KBD_CCMD_NO_OP) else v);
          k = kregs (fst Sw)
      in if val = KBD_CCMD_READ_MODE then kbd_queue E (uint (kmode k)) False Sw
         else if val = KBD_CCMD_WRITE_MODE \<or> val = KBD_CCMD_WRITE_OBUF \<or> val = KBD_CCMD_WRITE_AUX_OBUF \<or>
                 val = KBD_CCMD_WRITE_MOUSE \<or> val = KBD_CCMD_WRITE_OUTPORT then
           on_kregs (\<lambda>(k, w). (k\<lparr>kwrite_cmd := ucast val\<rparr>, w)) Sw
         else if val = KBD_CCMD_MOUSE_DISABLE then
           on_kregs (\<lambda>(k, w). (k\<lparr>kmode := kmode k OR KBD_MODE_DISABLE_MOUSE\<rparr>, w)) Sw
         else if val = KBD_CCMD_MOUSE_ENABLE then
           on_kregs (\<lambda>(k, w). (k\<lparr>kmode := kmode k AND NOT KBD_MODE_DISABLE_MOUSE\<rparr>, w)) Sw
         else if val = KBD_CCMD_TEST_MOUSE then kbd_queue E 0x00 False Sw
         else if val = KBD_CCMD_SELF_TEST then
           kbd_queue E 0x55 False (on_kregs (\<lambda>(k, w). (k\<lparr>kstatus := kstatus k OR KBD_STAT_SELFTEST\<rparr>, w)) Sw)
         else if val = KBD_CCMD_KBD_TEST then kbd_queue E 0x00 False Sw
         else if val = KBD_CCMD_KBD_DISABLE then
           on_kregs (\<lambda>(k, w). kbd_update_irq E (k\<lparr>kmode := kmode k OR KBD_MODE_DISABLE_KBD\<rparr>, w)) Sw
         else if val = KBD_CCMD_KBD_ENABLE then
           on_kregs (\<lambda>(k, w). kbd_update_irq E (k\<lparr>kmode := kmode k AND NOT KBD_MODE_DISABLE_KBD\<rparr>, w)) Sw
         else if val = KBD_CCMD_READ_INPORT then kbd_queue E 0x00 False Sw
         else if val = KBD_CCMD_READ_OUTPORT then kbd_queue E (uint (koutport k)) False Sw
         else if val = KBD_CCMD_ENABLE_A20 then
           on_kregs (\<lambda>(k, w). (k\<lparr>koutport := koutport k OR KBD_OUT_A20\<rparr>, a20_set E 1 w)) Sw
         else if val = KBD_CCMD_DISABLE_A20 then
           on_kregs (\<lambda>(k, w). (k\<lparr>koutport := koutport k AND NOT KBD_OUT_A20\<rparr>, a20_set E 0 w)) Sw
         else if val = KBD_CCMD_RESET then (fst Sw, system_reset_request E (snd Sw))
         else Sw)"

definition kbd_read_data :: "'w kbd_env \<Rightarrow> i8042 \<times> 'w \<Rightarrow> u32 \<times> i8042 \<times> 'w" where
  "kbd_read_data E Sw =
     (let S = fst Sw in
      if kpending (kregs S) = KBD_PENDING_AUX then
        (let (v, q, k, w) = ps2_read_data (kbd_update_aux_irq E) (mcommon (mouse S)) (kregs S, snd Sw)
         in (v, S\<lparr>mouse := (mouse S)\<lparr>mcommon := q\<rparr>, kregs := k\<rparr>, w))
      else
        (let (v, q, k, w) = ps2_read_data (kbd_update_kbd_irq E) (kcommon (kbd S)) (kregs S, snd Sw)
         in (v, S\<lparr>kbd := (kbd S)\<lparr>kcommon := q\<rparr>, kregs := k\<rparr>, w)))"

definition kbd_write_mode :: "'w kbd_env \<Rightarrow> u32 \<Rightarrow> i8042 \<times> 'w \<Rightarrow> i8042 \<times> 'w" where
  "kbd_write_mode E val Sw =
     (let Sw1 = on_kregs (\<lambda>(k, w). (k\<lparr>kmode := ucast val\<rparr>, w)) Sw;
          S1 = fst Sw1;
          S2 = S1\<lparr>kbd := ps2_keyboard_set_translation (kmode (kregs S1) AND KBD_MODE_KCC \<noteq> 0) (kbd S1)\<rparr>
      in on_kregs (kbd_update_irq E) (S2, snd Sw1))"

definition kbd_write_data :: "'w kbd_env \<Rightarrow> u32 \<Rightarrow> i8042 \<times> 'w \<Rightarrow> i8042 \<times> 'w" where
  "kbd_write_data E val Sw =
     (let cmd = ucast (kwrite_cmd (kregs (fst Sw))) :: u32;
          Sw1 =
            (if cmd = 0 then on_kbd (ps2_write_keyboard (kbd_update_kbd_irq E) (kbd_led E) (sint val)) Sw
             else if cmd = KBD_CCMD_WRITE_MODE then kbd_write_mode E val Sw
             else if cmd = KBD_CCMD_WRITE_OBUF then kbd_queue E (sint val) False Sw
             else if cmd = KBD_CCMD_WRITE_AUX_OBUF then kbd_queue E (sint val) True Sw
             else if cmd = KBD_CCMD_WRITE_OUTPORT then on_kregs (outport_write E val) Sw
             else if cmd = KBD_CCMD_WRITE_MOUSE then on_mouse (ps2_write_mouse (kbd_update_aux_irq E) (sint val)) Sw
             else Sw)
      in on_kregs (\<lambda>(k, w). (k\<lparr>kwrite_cmd := 0\<rparr>, w)) Sw1)"

definition kbd_reset :: "KBDState \<Rightarrow> KBDState" where
  "kbd_reset s = s\<lparr>kmode := KBD_MODE_KBD_INT OR KBD_MODE_MOUSE_INT, kstatus := KBD_STAT_CMD OR KBD_STAT_UNLOCKED,
     koutport := KBD_OUT_RESET OR KBD_OUT_A20\<rparr>"

definition kbd_mm_readb :: "'w kbd_env \<Rightarrow> u64 \<Rightarrow> i8042 \<times> 'w \<Rightarrow> u32 \<times> i8042 \<times> 'w" where
  "kbd_mm_readb E addr Sw =
     (if addr AND mm_mask E \<noteq> 0 then (kbd_read_status (fst Sw) AND 0xff, Sw)
      else (let (v, Sw1) = kbd_read_data E Sw in (v AND 0xff, Sw1)))"

definition kbd_mm_writeb :: "'w kbd_env \<Rightarrow> u64 \<Rightarrow> u32 \<Rightarrow> i8042 \<times> 'w \<Rightarrow> i8042 \<times> 'w" where
  "kbd_mm_writeb E addr val Sw =
     (if addr AND mm_mask E \<noteq> 0 then kbd_write_command E (val AND 0xff) Sw
      else kbd_write_data E (val AND 0xff) Sw)"

definition i8042_isa_mouse_fake_event :: "'w kbd_env \<Rightarrow> i8042 \<times> 'w \<Rightarrow> i8042 \<times> 'w" where
  "i8042_isa_mouse_fake_event E Sw = on_mouse (ps2_mouse_fake_event (kbd_update_aux_irq E)) Sw"

definition i8042_initfn :: i8042 where
  "i8042_initfn = \<lparr>kregs = \<lparr>kwrite_cmd = 0, kstatus = 0, kmode = 0, koutport = 0, kpending = 0\<rparr>,
     kbd = ps2_kbd_init, mouse = ps2_mouse_init\<rparr>"

text \<open>The reset handlers run in the order in which \<^verbatim>\<open>i8042_initfn\<close> registers them.\<close>

definition i8042_reset :: "'w kbd_env \<Rightarrow> i8042 \<times> 'w \<Rightarrow> i8042 \<times> 'w" where
  "i8042_reset E Sw =
     (let Sw1 = on_kbd (ps2_kbd_reset (kbd_update_kbd_irq E)) Sw;
          Sw2 = on_mouse (ps2_mouse_reset (kbd_update_aux_irq E)) Sw1
      in ((fst Sw2)\<lparr>kregs := kbd_reset (kregs (fst Sw2))\<rparr>, snd Sw2))"

text \<open>A key of the host, and a movement of its mouse.\<close>

definition kbd_key :: "'w kbd_env \<Rightarrow> int \<Rightarrow> i8042 \<times> 'w \<Rightarrow> i8042 \<times> 'w" where
  "kbd_key E k Sw = on_kbd (ps2_put_keycode (kbd_update_kbd_irq E) k) Sw"

definition kbd_mouse :: "'w kbd_env \<Rightarrow> int \<Rightarrow> int \<Rightarrow> int \<Rightarrow> int \<Rightarrow> i8042 \<times> 'w \<Rightarrow> i8042 \<times> 'w" where
  "kbd_mouse E dx dy dz b Sw = on_mouse (ps2_mouse_event (kbd_update_aux_irq E) dx dy dz b) Sw"

datatype kbd_op =
    KReadData
  | KWriteData u32
  | KWriteCommand u32
  | KKey int
  | KMouse int int int int
  | KReset

fun kbd_step :: "'w kbd_env \<Rightarrow> i8042 \<times> 'w \<Rightarrow> kbd_op \<Rightarrow> i8042 \<times> 'w" where
  "kbd_step E Sw KReadData = snd (kbd_read_data E Sw)"
| "kbd_step E Sw (KWriteData v) = kbd_write_data E v Sw"
| "kbd_step E Sw (KWriteCommand v) = kbd_write_command E v Sw"
| "kbd_step E Sw (KKey k) = kbd_key E k Sw"
| "kbd_step E Sw (KMouse dx dy dz b) = kbd_mouse E dx dy dz b Sw"
| "kbd_step E Sw KReset = i8042_reset E Sw"

section \<open>Specification\<close>

text \<open>\<open>L1\<close> and \<open>L2\<close> tell the levels of the two pins, which nothing else of the environment touches.\<close>

definition kbd_wired :: "('w \<Rightarrow> bool) \<Rightarrow> ('w \<Rightarrow> bool) \<Rightarrow> 'w kbd_env \<Rightarrow> bool" where
  "kbd_wired L1 L2 E \<longleftrightarrow>
     (\<forall>l w. (L1 (qemu_set_irq (irq_kbd E) l w) \<longleftrightarrow> l \<noteq> 0) \<and> L2 (qemu_set_irq (irq_kbd E) l w) = L2 w \<and>
        (L2 (qemu_set_irq (irq_mouse E) l w) \<longleftrightarrow> l \<noteq> 0) \<and> L1 (qemu_set_irq (irq_mouse E) l w) = L1 w \<and>
        L1 (a20_set E l w) = L1 w \<and> L2 (a20_set E l w) = L2 w \<and>
        L1 (put_ledstate E l w) = L1 w \<and> L2 (put_ledstate E l w) = L2 w \<and>
        L1 (system_reset_request E w) = L1 w \<and> L2 (system_reset_request E w) = L2 w)"

text \<open>The registers and pins when keyboard bytes (\<open>a\<close>) and mouse bytes (\<open>m\<close>) are waiting.\<close>

definition kbd_view ::
  "('w \<Rightarrow> bool) \<Rightarrow> ('w \<Rightarrow> bool) \<Rightarrow> 'w kbd_env \<Rightarrow> bool \<Rightarrow> bool \<Rightarrow> KBDState \<times> 'w \<Rightarrow> bool" where
  "kbd_view L1 L2 E a m kw \<longleftrightarrow>
     (let k = fst kw; w = snd kw in
      kpending k = (if a then 1 else 0) OR (if m then 2 else 0) \<and>
      (bit (kstatus k) 0 \<longleftrightarrow> a \<or> m) \<and> (bit (kstatus k) 5 \<longleftrightarrow> \<not> a \<and> m) \<and>
      (kbd_wired L1 L2 E \<longrightarrow>
         (L1 w \<longleftrightarrow> a \<and> bit (kmode k) 0 \<and> \<not> bit (kmode k) 4) \<and> (L2 w \<longleftrightarrow> \<not> a \<and> m \<and> bit (kmode k) 1)))"

definition kbd_waiting :: "i8042 \<Rightarrow> u8 list" where
  "kbd_waiting S = ps2_list (kcommon (kbd S))"

definition mouse_waiting :: "i8042 \<Rightarrow> u8 list" where
  "mouse_waiting S = ps2_list (mcommon (mouse S))"

definition i8042_inv :: "('w \<Rightarrow> bool) \<Rightarrow> ('w \<Rightarrow> bool) \<Rightarrow> 'w kbd_env \<Rightarrow> i8042 \<times> 'w \<Rightarrow> bool" where
  "i8042_inv L1 L2 E Sw \<longleftrightarrow>
     (let S = fst Sw in
      ps2_wf (kcommon (kbd S)) \<and> ps2_wf (mcommon (mouse S)) \<and>
      kbd_view L1 L2 E (qcount (kcommon (kbd S)) \<noteq> 0) (qcount (mcommon (mouse S)) \<noteq> 0) (kregs S, snd Sw))"

text \<open>Reading the data port several times.\<close>

primrec kbd_reads :: "'w kbd_env \<Rightarrow> nat \<Rightarrow> i8042 \<times> 'w \<Rightarrow> u8 list \<times> i8042 \<times> 'w" where
  "kbd_reads E 0 Sw = ([], Sw)"
| "kbd_reads E (Suc n) Sw =
     (let (v, Sw1) = kbd_read_data E Sw; (vs, Sw2) = kbd_reads E n Sw1 in (ucast v # vs, Sw2))"

text \<open>A controller whose pins are two flags of the world, and nothing else.\<close>

definition kbd_flags_env :: "(bool \<times> bool) kbd_env" where
  "kbd_flags_env = \<lparr>irq_kbd = Some \<lparr>handler = \<lambda>n l w. (l \<noteq> 0, snd w), line_no = 1\<rparr>,
     irq_mouse = Some \<lparr>handler = \<lambda>n l w. (fst w, l \<noteq> 0), line_no = 12\<rparr>, a20_out = None,
     put_ledstate = \<lambda>_ w. w, system_reset_request = \<lambda>w. w, mm_mask = 1\<rparr>"

section \<open>Registers and pins\<close>

lemma update_irq_view:
  assumes "kpending (fst kw) = (if a then 1 else 0) OR (if m then 2 else 0)"
  shows "kbd_view L1 L2 E a m (kbd_update_irq E kw)"
  using assms by (cases a; cases m)
    (simp_all add: kbd_view_def kbd_update_irq_def Let_def kbd_wired_def bit_simps masks)

lemma update_kbd_view: "kbd_view L1 L2 E a m kw \<Longrightarrow> kbd_view L1 L2 E (l \<noteq> 0) m (kbd_update_kbd_irq E l kw)"
  unfolding kbd_update_kbd_irq_def Let_def by (rule update_irq_view) (auto simp: kbd_view_def Let_def)

lemma update_aux_view: "kbd_view L1 L2 E a m kw \<Longrightarrow> kbd_view L1 L2 E a (l \<noteq> 0) (kbd_update_aux_irq E l kw)"
  unfolding kbd_update_aux_irq_def Let_def by (rule update_irq_view) (auto simp: kbd_view_def Let_def)

lemma kbd_led_view: "kbd_view L1 L2 E a m kw \<Longrightarrow> kbd_view L1 L2 E a m (kbd_led E v kw)"
  unfolding kbd_view_def kbd_led_def Let_def kbd_wired_def by simp

interpretation kport: ps2_kbd_port "kbd_update_kbd_irq E" "\<lambda>a. kbd_view L1 L2 E a m" "kbd_led E" for E L1 L2 m
  by unfold_locales (rule update_kbd_view kbd_led_view, assumption)+

interpretation mport: ps2_port "kbd_update_aux_irq E" "kbd_view L1 L2 E a" for E L1 L2 a
  by unfold_locales (rule update_aux_view)

lemma view_write_cmd [simp]: "kbd_view L1 L2 E a m (k\<lparr>kwrite_cmd := x\<rparr>, w) = kbd_view L1 L2 E a m (k, w)"
  by (simp add: kbd_view_def)

lemma inv_kbd:
  assumes "i8042_inv L1 L2 E Sw"
    and "\<And>d kw. kport.seen L1 L2 E (qcount (mcommon (mouse (fst Sw))) \<noteq> 0) (kcommon d, kw) \<Longrightarrow>
           kport.seen L1 L2 E (qcount (mcommon (mouse (fst Sw))) \<noteq> 0) (kcommon (fst (f d kw)), snd (f d kw))"
  shows "i8042_inv L1 L2 E (on_kbd f Sw)"
  using assms(2) [of "kbd (fst Sw)" "(kregs (fst Sw), snd Sw)"] assms(1)
  by (simp add: i8042_inv_def on_kbd_def case_prod_beta Let_def kport.seen_def)

lemma inv_mouse:
  assumes "i8042_inv L1 L2 E Sw"
    and "\<And>d kw. mport.seen L1 L2 E (qcount (kcommon (kbd (fst Sw))) \<noteq> 0) (mcommon d, kw) \<Longrightarrow>
           mport.seen L1 L2 E (qcount (kcommon (kbd (fst Sw))) \<noteq> 0) (mcommon (fst (f d kw)), snd (f d kw))"
  shows "i8042_inv L1 L2 E (on_mouse f Sw)"
  using assms(2) [of "mouse (fst Sw)" "(kregs (fst Sw), snd Sw)"] assms(1)
  by (simp add: i8042_inv_def on_mouse_def case_prod_beta Let_def mport.seen_def)

lemma inv_regs:
  assumes "i8042_inv L1 L2 E Sw"
    and "\<And>a m kw. kbd_view L1 L2 E a m kw \<Longrightarrow> kbd_view L1 L2 E a m (f kw)"
  shows "i8042_inv L1 L2 E (on_kregs f Sw)"
  using assms(2) [of _ _ "(kregs (fst Sw), snd Sw)"] assms(1)
  by (simp add: i8042_inv_def on_kregs_def case_prod_beta Let_def)

section \<open>The invariant\<close>

lemma queue_inv [dev_inv]: "i8042_inv L1 L2 E Sw \<Longrightarrow> i8042_inv L1 L2 E (kbd_queue E b aux Sw)"
  using kport.kqueue_seen [of L1 L2 E _ "(_, _)" b] mport.mqueue_seen [of L1 L2 E _ "(_, _)" b]
  by (auto simp: kbd_queue_def intro!: inv_kbd inv_mouse)

lemma key_inv [dev_inv]: "i8042_inv L1 L2 E Sw \<Longrightarrow> i8042_inv L1 L2 E (kbd_key E k Sw)"
  unfolding kbd_key_def by (rule inv_kbd) (simp_all add: kport.put_keycode_seen)

lemma mouse_inv [dev_inv]: "i8042_inv L1 L2 E Sw \<Longrightarrow> i8042_inv L1 L2 E (kbd_mouse E dx dy dz b Sw)"
  unfolding kbd_mouse_def by (rule inv_mouse) (simp_all add: mport.mouse_event_seen)

lemma read_inv [dev_inv]:
  assumes "i8042_inv L1 L2 E Sw"
  shows "i8042_inv L1 L2 E (snd (kbd_read_data E Sw))"
proof -
  let ?S = "fst Sw"
  have "kport.seen L1 L2 E (qcount (mcommon (mouse ?S)) \<noteq> 0) (kcommon (kbd ?S), kregs ?S, snd Sw)"
    "mport.seen L1 L2 E (qcount (kcommon (kbd ?S)) \<noteq> 0) (mcommon (mouse ?S), kregs ?S, snd Sw)"
    using assms by (simp_all add: i8042_inv_def Let_def kport.seen_def mport.seen_def)
  from kport.read_seen [OF this(1)] mport.read_seen [OF this(2)] assms show ?thesis
    by (simp add: kbd_read_data_def i8042_inv_def Let_def kport.seen_def mport.seen_def case_prod_beta)
qed

lemma view_frame:
  "kpending k' = kpending k \<Longrightarrow> bit (kstatus k') 0 = bit (kstatus k) 0 \<Longrightarrow> bit (kstatus k') 5 = bit (kstatus k) 5 \<Longrightarrow>
   bit (kmode k') 0 = bit (kmode k) 0 \<Longrightarrow> bit (kmode k') 1 = bit (kmode k) 1 \<Longrightarrow> bit (kmode k') 4 = bit (kmode k) 4 \<Longrightarrow>
   (kbd_wired L1 L2 E \<Longrightarrow> L1 w' = L1 w \<and> L2 w' = L2 w) \<Longrightarrow>
   kbd_view L1 L2 E a m (k, w) \<Longrightarrow> kbd_view L1 L2 E a m (k', w')"
  unfolding kbd_view_def Let_def by simp

lemma wired_other:
  "kbd_wired L1 L2 E \<Longrightarrow> L1 (a20_set E l w) = L1 w \<and> L2 (a20_set E l w) = L2 w"
  "kbd_wired L1 L2 E \<Longrightarrow> L1 (system_reset_request E w) = L1 w \<and> L2 (system_reset_request E w) = L2 w"
  by (simp_all add: kbd_wired_def)

lemma view_pending: "kbd_view L1 L2 E a m (k, w) \<Longrightarrow> kpending k = (if a then 1 else 0) OR (if m then 2 else 0)"
  by (simp add: kbd_view_def Let_def)

lemma view_register_ops:
  assumes "kbd_view L1 L2 E a m (k, w)"
  shows "kbd_view L1 L2 E a m (k\<lparr>kstatus := kstatus k OR KBD_STAT_SELFTEST\<rparr>, w)"
    "kbd_view L1 L2 E a m (k\<lparr>kmode := kmode k OR KBD_MODE_DISABLE_MOUSE\<rparr>, w)"
    "kbd_view L1 L2 E a m (k\<lparr>kmode := kmode k AND NOT KBD_MODE_DISABLE_MOUSE\<rparr>, w)"
    "kbd_view L1 L2 E a m (k\<lparr>koutport := x\<rparr>, a20_set E l w)"
    "kbd_view L1 L2 E a m (k, system_reset_request E w)"
    "kbd_view L1 L2 E a m (outport_write E v (k, w))"
  using assms wired_other [of L1 L2 E]
  by (auto simp: kbd_view_def Let_def bit_simps outport_write_def)

lemma reset_request_inv: "i8042_inv L1 L2 E Sw \<Longrightarrow> i8042_inv L1 L2 E (fst Sw, system_reset_request E (snd Sw))"
  by (simp add: i8042_inv_def Let_def view_register_ops)

lemma command_inv [dev_inv]: "i8042_inv L1 L2 E Sw \<Longrightarrow> i8042_inv L1 L2 E (kbd_write_command E v Sw)"
  unfolding kbd_write_command_def Let_def
  by (auto intro!: dev_inv inv_regs update_irq_view reset_request_inv view_register_ops view_register_ops(3) [simplified]
      dest: view_pending)

lemma write_mode_inv:
  assumes "i8042_inv L1 L2 E Sw"
  shows "i8042_inv L1 L2 E (kbd_write_mode E v Sw)"
proof -
  let ?S = "fst Sw" and ?k = "(kregs (fst Sw))\<lparr>kmode := ucast v\<rparr>"
  have "kbd_view L1 L2 E (qcount (kcommon (kbd ?S)) \<noteq> 0) (qcount (mcommon (mouse ?S)) \<noteq> 0) (kbd_update_irq E (?k, snd Sw))"
    using assms by (intro update_irq_view) (auto simp: i8042_inv_def Let_def dest: view_pending)
  then show ?thesis
    using assms by (simp add: kbd_write_mode_def on_kregs_def i8042_inv_def Let_def case_prod_beta ps2_keyboard_set_translation_def)
qed

lemma write_data_inv [dev_inv]: "i8042_inv L1 L2 E Sw \<Longrightarrow> i8042_inv L1 L2 E (kbd_write_data E v Sw)"
  unfolding kbd_write_data_def Let_def
  by (intro inv_regs) (auto intro!: dev_inv inv_kbd inv_mouse inv_regs write_mode_inv kport.write_keyboard_seen
      mport.write_mouse_seen view_register_ops)

lemma reset_inv:
  assumes "kpending (kregs (fst Sw)) = (if a then 1 else 0) OR (if m then 2 else 0)"
  shows "i8042_inv L1 L2 E (i8042_reset E Sw)"
proof -
  let ?S = "fst Sw"
  let ?r = "ps2_kbd_reset (kbd_update_kbd_irq E) (kbd ?S) (kregs ?S, snd Sw)"
  let ?r' = "ps2_mouse_reset (kbd_update_aux_irq E) (mouse ?S) (snd ?r)"
  have w: "ps2_wf (kcommon (fst ?r))" "qcount (kcommon (fst ?r)) = 0"
    by (simp_all add: ps2_kbd_reset_def ps2_common_reset_def ps2_wf_def)
  have "kbd_view L1 L2 E False m (snd ?r)"
    using assms by (cases a; cases m) (simp_all add: ps2_kbd_reset_def ps2_common_reset_def kbd_update_kbd_irq_def update_irq_view)
  note s = mport.mouse_reset_seen [OF this, of "mouse ?S"]
  have q: "qcount (mcommon (fst ?r')) = 0" by (simp add: ps2_mouse_reset_def ps2_common_reset_def)
  have "kbd_view L1 L2 E False False (kbd_reset k, w)" if "kbd_view L1 L2 E False False (k, w)" for k w
    using that by (simp add: kbd_view_def Let_def kbd_reset_def)
  from this [of "fst (snd ?r')" "snd (snd ?r')"] s q w show ?thesis
    by (simp add: i8042_reset_def on_kbd_def on_mouse_def i8042_inv_def mport.seen_def case_prod_beta Let_def)
qed

lemma inv_pending:
  "i8042_inv L1 L2 E Sw \<Longrightarrow> kpending (kregs (fst Sw)) =
     (if qcount (kcommon (kbd (fst Sw))) \<noteq> 0 then 1 else 0) OR (if qcount (mcommon (mouse (fst Sw))) \<noteq> 0 then 2 else 0)"
  unfolding i8042_inv_def Let_def by (blast dest: view_pending)

lemma i8042_step_inv: "i8042_inv L1 L2 E Sw \<Longrightarrow> i8042_inv L1 L2 E (kbd_step E Sw x)"
  by (cases x) (auto intro: dev_inv reset_inv [OF inv_pending])

interpretation kbdd: device "kbd_step E" "\<lambda>_. True" "i8042_inv L1 L2 E" for E L1 L2
  by unfold_locales (rule i8042_step_inv)

lemma i8042_run_inv: "i8042_inv L1 L2 E (run (kbd_step E) (i8042_reset E (i8042_initfn, w)) ops)"
proof (rule kbdd.run_inv)
  show "i8042_inv L1 L2 E (i8042_reset E (i8042_initfn, w))"
    by (rule reset_inv [of _ False False]) (simp add: i8042_initfn_def)
qed (simp add: list_all_iff)

text \<open>
  C29.  Status and interrupts tell what is waiting: after any port accesses, key and mouse events and
  resets, the output buffer flag is set exactly when a byte is waiting, the mouse flag exactly when
  only the mouse has one, the keyboard pin is high exactly when a keyboard byte is waiting and its
  interrupt is enabled, and the mouse pin when only mouse bytes are waiting and theirs is enabled.
\<close>

theorem kbd_status_shows_waiting:
  assumes "kbd_wired L1 L2 E" and "(S, w) = run (kbd_step E) (i8042_reset E (i8042_initfn, w0)) ops"
  shows "(bit (kbd_read_status S) 0 \<longleftrightarrow> kbd_waiting S \<noteq> [] \<or> mouse_waiting S \<noteq> []) \<and>
     (bit (kbd_read_status S) 5 \<longleftrightarrow> kbd_waiting S = [] \<and> mouse_waiting S \<noteq> []) \<and>
     (L1 w \<longleftrightarrow> kbd_waiting S \<noteq> [] \<and> kmode (kregs S) AND KBD_MODE_KBD_INT \<noteq> 0 \<and> kmode (kregs S) AND KBD_MODE_DISABLE_KBD = 0) \<and>
     (L2 w \<longleftrightarrow> kbd_waiting S = [] \<and> mouse_waiting S \<noteq> [] \<and> kmode (kregs S) AND KBD_MODE_MOUSE_INT \<noteq> 0)"
proof -
  have "i8042_inv L1 L2 E (S, w)" unfolding assms(2) by (rule i8042_run_inv)
  then show ?thesis using assms(1)
    by (auto simp: i8042_inv_def kbd_view_def Let_def kbd_read_status_def kbd_waiting_def mouse_waiting_def masks bit_simps)
qed

theorem kbd_status_shows_waiting_witness:
  "let (S, w) = run (kbd_step kbd_flags_env) (i8042_reset kbd_flags_env (i8042_initfn, (True, True))) [KKey 0x1e]
   in kbd_waiting S = [0x1e] \<and> bit (kbd_read_status S) 0 \<and> w = (True, False)"
proof -
  obtain S w where r: "(S, w) = run (kbd_step kbd_flags_env) (i8042_reset kbd_flags_env (i8042_initfn, (True, True))) [KKey 0x1e]"
    by (metis surj_pair)
  have k: "kbd_waiting (fst (run (kbd_step kbd_flags_env) (i8042_reset kbd_flags_env (i8042_initfn, (True, True))) [KKey 0x1e])) = [0x1e]"
    "kmode (kregs (fst (run (kbd_step kbd_flags_env) (i8042_reset kbd_flags_env (i8042_initfn, (True, True))) [KKey 0x1e]))) = 3"
    by code_simp+
  have wd: "kbd_wired fst snd kbd_flags_env"
    by (simp add: kbd_wired_def kbd_flags_env_def a20_set_def qemu_set_irq_def)
  have "fst w" "\<not> snd w" "bit (kbd_read_status S) 0"
    using kbd_status_shows_waiting [OF wd r] k unfolding r [symmetric] by simp_all
  then show ?thesis using k unfolding r [symmetric] by (cases w) simp
qed

section \<open>Reading\<close>

lemma read_data_kbd:
  assumes "i8042_inv L1 L2 E (S, w)" and "kbd_waiting S \<noteq> []" and "kbd_read_data E (S, w) = (v, S', w')"
  shows "kbd_waiting S = ucast v # kbd_waiting S'" "mouse S' = mouse S"
proof -
  have q: "qcount (kcommon (kbd S)) \<noteq> 0" using assms(2) by (simp add: kbd_waiting_def)
  have "kpending (kregs S) \<noteq> 2" using inv_pending [OF assms(1)] q by (cases "qcount (mcommon (mouse S)) = 0") auto
  then show "mouse S' = mouse S" "kbd_waiting S = ucast v # kbd_waiting S'"
    using assms(1,3) ps2_read_some(2) [of "kcommon (kbd S)" "kbd_update_kbd_irq E" "(kregs S, w)"] q
    by (auto simp: kbd_read_data_def kbd_waiting_def i8042_inv_def Let_def split: prod.splits)
qed

lemma reads_waiting:
  "i8042_inv L1 L2 E Sw \<Longrightarrow> n \<le> length (kbd_waiting (fst Sw)) \<Longrightarrow>
     fst (kbd_reads E n Sw) = take n (kbd_waiting (fst Sw)) \<and> mouse (fst (snd (kbd_reads E n Sw))) = mouse (fst Sw)"
proof (induction n arbitrary: Sw)
  case 0
  then show ?case by simp
next
  case (Suc n)
  obtain S w where Sw: "Sw = (S, w)" by force
  obtain v S' w' where r: "kbd_read_data E (S, w) = (v, S', w')" by (metis prod_cases3)
  have ne: "kbd_waiting S \<noteq> []" using Suc.prems(2) unfolding Sw by auto
  note k = read_data_kbd [OF Suc.prems(1) [unfolded Sw] ne r]
  have "i8042_inv L1 L2 E (S', w')" using read_inv [OF Suc.prems(1)] r unfolding Sw by simp
  from Suc.IH [OF this] Suc.prems(2) k r show ?case unfolding Sw by (simp add: case_prod_beta Let_def)
qed

lemma key_waiting:
  assumes "i8042_inv L1 L2 E Sw" and "qcount (kcommon (kbd (fst Sw))) + 2 \<le> 256" and "\<not> translate (kbd (fst Sw))"
    and "scancode_set (kbd (fst Sw)) = 2" and "0 \<le> k" and "k < 0xe0"
  shows "kbd_waiting (fst (kbd_key E k Sw)) = kbd_waiting (fst Sw) @ key_bytes k"
    "\<not> translate (kbd (fst (kbd_key E k Sw)))" "scancode_set (kbd (fst (kbd_key E k Sw))) = 2"
    "mouse (fst (kbd_key E k Sw)) = mouse (fst Sw)"
  using assms put_keycode_list [of "kbd (fst Sw)" k "kbd_update_kbd_irq E" "(kregs (fst Sw), snd Sw)"]
  by (simp_all add: kbd_key_def on_kbd_def i8042_inv_def kbd_waiting_def case_prod_beta Let_def)

lemma length_key_bytes: "length (key_bytes k) \<le> 2"
  by (simp add: key_bytes_def)

lemma keys_waiting:
  "i8042_inv L1 L2 E Sw \<Longrightarrow> qcount (kcommon (kbd (fst Sw))) + 2 * length ks \<le> 256 \<Longrightarrow> \<not> translate (kbd (fst Sw)) \<Longrightarrow>
   scancode_set (kbd (fst Sw)) = 2 \<Longrightarrow> list_all (\<lambda>k. 0 \<le> k \<and> k < 0xe0) ks \<Longrightarrow>
     i8042_inv L1 L2 E (fold (kbd_key E) ks Sw) \<and>
     kbd_waiting (fst (fold (kbd_key E) ks Sw)) = kbd_waiting (fst Sw) @ concat (map key_bytes ks) \<and>
     mouse (fst (fold (kbd_key E) ks Sw)) = mouse (fst Sw)"
proof (induction ks arbitrary: Sw)
  case Nil
  then show ?case by simp
next
  case (Cons k ks)
  note w = key_waiting [OF Cons.prems(1) _ Cons.prems(3,4), of k]
  have l: "qcount (kcommon (kbd (fst (kbd_key E k Sw)))) + 2 * length ks \<le> 256"
    using arg_cong [OF w(1), of length] Cons.prems(2,5) length_key_bytes [of k] by (simp add: kbd_waiting_def)
  show ?case using Cons.IH [OF key_inv [OF Cons.prems(1)] l] w Cons.prems by simp
qed

text \<open>
  C30.  Keys reach the guest in order: in any reachable state with no keyboard byte waiting,
  translation off and code set 2, the host presses and releases keys whose codes fit in the queue;
  the bytes the guest then reads from the data port decode to exactly these key events, and the
  bytes of the mouse stay waiting.
\<close>

theorem kbd_keys_reach_guest:
  assumes "(S, w) = run (kbd_step E) (i8042_reset E (i8042_initfn, w0)) ops" and "kbd_waiting S = []"
    and "\<not> translate (kbd S)" and "scancode_set (kbd S) = 2"
    and "list_all (\<lambda>k. 0 \<le> k \<and> k < 0xe0) ks" and "length ks \<le> 128"
    and "Sw = fold (kbd_key E) ks (S, w)"
  shows "decode_set2 (fst (kbd_reads E (length (kbd_waiting (fst Sw))) Sw)) = ks \<and>
     mouse_waiting (fst (snd (kbd_reads E (length (kbd_waiting (fst Sw))) Sw))) = mouse_waiting S"
proof -
  have i: "i8042_inv (\<lambda>_. True) (\<lambda>_. True) E (S, w)" unfolding assms(1) by (rule i8042_run_inv)
  have q: "qcount (kcommon (kbd S)) = 0" using assms(2) by (simp add: kbd_waiting_def)
  have k: "i8042_inv (\<lambda>_. True) (\<lambda>_. True) E Sw" "kbd_waiting (fst Sw) = concat (map key_bytes ks)" "mouse (fst Sw) = mouse S"
    using keys_waiting [OF i, of ks] assms(2-7) q by simp_all
  have "list_all (\<lambda>k. 0 \<le> k \<and> k < 0x100) ks" using assms(5) by (auto simp: list_all_iff)
  then show ?thesis using reads_waiting [OF k(1), of "length (kbd_waiting (fst Sw))"] k(2,3)
    by (simp add: decode_keys mouse_waiting_def)
qed

theorem kbd_keys_reach_guest_witness:
  "let Sw = fold (kbd_key kbd_flags_env) [0x2a, 0x1e, 0x9e, 0xaa]
         (run (kbd_step kbd_flags_env) (i8042_reset kbd_flags_env (i8042_initfn, (True, True))) [KWriteData 0xFF, KReadData, KReadData])
   in decode_set2 (fst (kbd_reads kbd_flags_env (length (kbd_waiting (fst Sw))) Sw)) = [0x2a, 0x1e, 0x9e, 0xaa]"
proof -
  let ?r = "run (kbd_step kbd_flags_env) (i8042_reset kbd_flags_env (i8042_initfn, (True, True))) [KWriteData 0xFF, KReadData, KReadData]"
  have r: "(fst ?r, snd ?r) = ?r" by simp
  have k: "kbd_waiting (fst ?r) = []" "\<not> translate (kbd (fst ?r))" "scancode_set (kbd (fst ?r)) = 2" by code_simp+
  show ?thesis
    using kbd_keys_reach_guest [OF r k, of "[0x2a, 0x1e, 0x9e, 0xaa]"] unfolding Let_def r by simp
qed

end
