(* ===== verification/Config_Block.thy ===== *)
theory Config_Block
  imports Prelude
begin

text \<open>
  The Biffboot configuration block: \<^verbatim>\<open>tools/make_config_block.py\<close> and the same function of
  \<^verbatim>\<open>tools/bb_eth_setconfig.py\<close> write it, \<^verbatim>\<open>tools/read_config_block.py\<close> reads it.  Python byte strings
  are lists of bytes, the numbers of the settings are integers, the exceptions of the interpreter
  are values.  The digest of \<^verbatim>\<open>hashlib\<close> is a parameter \<open>md5\<close>.
\<close>

section \<open>Model\<close>

datatype py_exc = StructError | IndexErr | KeyErr

text \<open>\<^verbatim>\<open>struct.pack\<close> and \<^verbatim>\<open>struct.unpack\<close> of a little-endian integer of \<open>n\<close> bytes.\<close>

primrec le_bytes :: "nat \<Rightarrow> int \<Rightarrow> u8 list" where
  "le_bytes 0 v = []"
| "le_bytes (Suc n) v = of_int v # le_bytes n (v div 256)"

primrec le_int :: "u8 list \<Rightarrow> int" where
  "le_int [] = 0"
| "le_int (b # bs) = uint b + 256 * le_int bs"

definition pack_u :: "nat \<Rightarrow> int \<Rightarrow> py_exc + u8 list" where
  "pack_u n v = (if 0 \<le> v \<and> v < 256 ^ n then Inr (le_bytes n v) else Inl StructError)"

definition unpack_i :: "u8 list \<Rightarrow> int" where
  "unpack_i bs = (let v = le_int bs in if v \<ge> 2 ^ 31 then v - 2 ^ 32 else v)"

record settings =
  version :: int
  bootsource :: int
  console :: int
  nic :: int
  boottype :: int
  loadaddress :: int
  cmdline :: "u8 list"
  kernelmax :: int

fun pack_all :: "(nat \<times> int) list \<Rightarrow> py_exc + u8 list" where
  "pack_all [] = Inr []"
| "pack_all ((n, v) # fs) =
     (case pack_u n v of Inl e \<Rightarrow> Inl e
      | Inr b \<Rightarrow> (case pack_all fs of Inl e \<Rightarrow> Inl e | Inr bs \<Rightarrow> Inr (b @ bs)))"

text \<open>The padding loops \<^verbatim>\<open>while len(s) < n: s += c\<close>.\<close>

definition pad_to :: "nat \<Rightarrow> u8 \<Rightarrow> u8 list \<Rightarrow> u8 list" where
  "pad_to n c s = s @ replicate (n - length s) c"

definition GetConfig :: "(u8 list \<Rightarrow> u8 list) \<Rightarrow> settings \<Rightarrow> py_exc + u8 list" where
  "GetConfig md5 c =
     (case pack_all [(4, 1), (1, bootsource c), (1, console c), (1, nic c), (1, boottype c), (4, loadaddress c)] of
        Inl e \<Rightarrow> Inl e
      | Inr hdr \<Rightarrow>
          (let cfg = hdr @ pad_to 1024 0 (cmdline c) in
           case pack_u 2 (kernelmax c) of
             Inl e \<Rightarrow> Inl e
           | Inr k \<Rightarrow> (let cfg1 = pad_to (0x2000 - 0x10) 0xff (cfg @ k) in Inr (cfg1 @ md5 cfg1))))"

text \<open>
  The loop that looks for the end of the command line.  A negative index of a Python string counts
  from its end, below \<open>- length s\<close> it raises \<^verbatim>\<open>IndexError\<close>.
\<close>

definition py_index :: "u8 list \<Rightarrow> int \<Rightarrow> py_exc + u8" where
  "py_index s i =
     (if 0 \<le> i \<and> i < int (length s) then Inr (s ! nat i)
      else if - int (length s) \<le> i \<and> i < 0 then Inr (s ! nat (int (length s) + i))
      else Inl IndexErr)"

function strend_loop :: "u8 list \<Rightarrow> int \<Rightarrow> py_exc + int" where
  "strend_loop s strend =
     (case py_index s strend of
        Inl e \<Rightarrow> Inl e
      | Inr c \<Rightarrow> (if c = 0 then strend_loop s (strend - 1) else Inr strend))"
  by pat_completeness auto

termination
  by (relation "measure (\<lambda>(s, i). nat (i + int (length s) + 1))") (auto simp: py_index_def split: if_splits)

declare strend_loop.simps [simp del]

definition py_take :: "u8 list \<Rightarrow> int \<Rightarrow> u8 list" where
  "py_take s n = (if n \<ge> 0 then take (nat n) s else take (nat (int (length s) + n)) s)"

definition bytes_at :: "nat \<Rightarrow> nat \<Rightarrow> u8 list \<Rightarrow> u8 list" where
  "bytes_at a n s = take n (drop a s)"

definition GetValues :: "u8 list \<Rightarrow> py_exc + settings" where
  "GetValues config =
     (let d = take 1038 config in
      if length d \<noteq> 1038 then Inl StructError
      else
        (let cmd = bytes_at 12 1024 d in
         case strend_loop cmd 1023 of
           Inl e \<Rightarrow> Inl e
         | Inr strend \<Rightarrow>
             Inr \<lparr>version = unpack_i (bytes_at 0 4 d), bootsource = le_int (bytes_at 4 1 d), console = le_int (bytes_at 5 1 d),
                  nic = le_int (bytes_at 6 1 d), boottype = le_int (bytes_at 7 1 d), loadaddress = le_int (bytes_at 8 4 d),
                  cmdline = py_take cmd (strend + 1), kernelmax = le_int (bytes_at 1036 2 d)\<rparr>))"

text \<open>The main program of the reader, without a key: what it prints for the keys in their order.\<close>

datatype shown = Word string | Hex int | Text "u8 list"

datatype shown_error = WrongSize | WrongMD5 | Raised py_exc

definition optionvalues :: "(string \<times> (int \<times> string) list) list" where
  "optionvalues =
     [(''bootsource'', [(0, ''flash''), (1, ''MMC''), (2, ''Net'')]),
      (''console'', [(0, ''disabled''), (1, ''enabled'')]),
      (''nic'', [(0, ''disabled''), (1, ''enabled''), (2, ''promiscuous'')]),
      (''boottype'', [(0, ''flatbin''), (1, ''Linux''), (2, ''Multiboot''), (3, ''Coreboot'')])]"

definition option_text :: "string \<Rightarrow> int \<Rightarrow> shown_error + shown" where
  "option_text key v =
     (case map_of (the (map_of optionvalues key)) v of None \<Rightarrow> Inl (Raised KeyErr) | Some t \<Rightarrow> Inr (Word t))"

fun collect :: "(shown_error + shown) list \<Rightarrow> shown_error + shown list" where
  "collect [] = Inr []"
| "collect (x # xs) =
     (case x of Inl e \<Rightarrow> Inl e | Inr y \<Rightarrow> (case collect xs of Inl e \<Rightarrow> Inl e | Inr ys \<Rightarrow> Inr (y # ys)))"

definition block_check :: "(u8 list \<Rightarrow> u8 list) \<Rightarrow> u8 list \<Rightarrow> shown_error option" where
  "block_check md5 config =
     (if length config \<noteq> 0x2000 then Some WrongSize
      else if md5 (take (0x2000 - 0x10) config) \<noteq> drop (0x2000 - 0x10) config then Some WrongMD5
      else None)"

definition show_config :: "(u8 list \<Rightarrow> u8 list) \<Rightarrow> u8 list \<Rightarrow> shown_error + shown list" where
  "show_config md5 config =
     (case block_check md5 config of
        Some e \<Rightarrow> Inl e
      | None \<Rightarrow>
          (case GetValues config of
             Inl e \<Rightarrow> Inl (Raised e)
           | Inr v \<Rightarrow>
               collect [option_text ''bootsource'' (bootsource v), option_text ''console'' (console v),
                 option_text ''nic'' (nic v), option_text ''boottype'' (boottype v), Inr (Hex (loadaddress v)),
                 Inr (Text (cmdline v)), Inr (Hex (kernelmax v))]))"

definition settings_ok :: "settings \<Rightarrow> bool" where
  "settings_ok c \<longleftrightarrow> version c = 1 \<and> 0 \<le> bootsource c \<and> bootsource c < 256 \<and> 0 \<le> console c \<and> console c < 256 \<and>
     0 \<le> nic c \<and> nic c < 256 \<and> 0 \<le> boottype c \<and> boottype c < 256 \<and> 0 \<le> loadaddress c \<and> loadaddress c < 2 ^ 32 \<and>
     0 \<le> kernelmax c \<and> kernelmax c < 2 ^ 16"

definition example_settings :: settings where
  "example_settings = \<lparr>version = 1, bootsource = 0, console = 1, nic = 1, boottype = 1, loadaddress = 0x400000,
     cmdline = [0x63, 0x6f, 0x6e], kernelmax = 0x10\<rparr>"

section \<open>Packing\<close>

lemma length_le_bytes [simp]: "length (le_bytes n v) = n"
  by (induction n arbitrary: v) auto

lemma le_int_bytes: "0 \<le> v \<Longrightarrow> v < 256 ^ n \<Longrightarrow> le_int (le_bytes n v) = v"
proof (induction n arbitrary: v)
  case 0
  then show ?case by simp
next
  case (Suc n)
  have "v div 256 < 256 ^ n" using Suc.prems by (simp add: div_less_iff_less_mult mult.commute)
  moreover have "uint (of_int v :: u8) = v mod 256" by (simp add: unsigned_of_int take_bit_eq_mod)
  ultimately show ?case using Suc.IH [of "v div 256"] Suc.prems(1) by simp
qed

lemma length_pad_to [simp]: "length (pad_to n c s) = max n (length s)"
  by (simp add: pad_to_def)

section \<open>The end of the command line\<close>

lemma strend_text:
  assumes "s \<noteq> []" and "last s \<noteq> 0"
  shows "strend_loop (s @ replicate m 0) (int (length s + k) - 1) = Inr (int (length s) - 1) \<or> k > m"
proof (induction k)
  case 0
  have "py_index (s @ replicate m 0) (int (length s) - 1) = Inr (last s)"
    using assms(1) by (cases s rule: rev_cases) (auto simp: py_index_def nth_append)
  then show ?case using assms(2) by (subst strend_loop.simps) simp
next
  case (Suc k)
  show ?case
  proof (cases "Suc k \<le> m")
    case True
    have "py_index (s @ replicate m 0) (int (length s + Suc k) - 1) = Inr 0"
      using True by (auto simp: py_index_def nth_append nat_add_distrib)
    then show ?thesis using Suc True by (subst strend_loop.simps) simp
  qed simp
qed

lemma strend_zero: "i < int n \<Longrightarrow> strend_loop (replicate n 0) i = Inl IndexErr"
proof (induction "nat (i + int n + 1)" arbitrary: i rule: less_induct)
  case less
  show ?case
  proof (cases "- int n \<le> i")
    case True
    then have "py_index (replicate n 0) i = Inr 0" using less.prems by (auto simp: py_index_def)
    then show ?thesis using less.hyps [of "i - 1"] less.prems True by (subst strend_loop.simps) auto
  next
    case False
    then have "py_index (replicate n 0) i = Inl IndexErr" using less.prems by (auto simp: py_index_def)
    then show ?thesis by (subst strend_loop.simps) simp
  qed
qed

section \<open>Writing and reading a block\<close>

definition header :: "settings \<Rightarrow> u8 list" where
  "header c = le_bytes 4 1 @ le_bytes 1 (bootsource c) @ le_bytes 1 (console c) @ le_bytes 1 (nic c) @
     le_bytes 1 (boottype c) @ le_bytes 4 (loadaddress c)"

definition body :: "settings \<Rightarrow> u8 list" where
  "body c = pad_to (0x2000 - 0x10) 0xff (header c @ pad_to 1024 0 (cmdline c) @ le_bytes 2 (kernelmax c))"

lemma GetConfig_ok: "settings_ok c \<Longrightarrow> GetConfig md5 c = Inr (body c @ md5 (body c))"
  by (simp add: GetConfig_def settings_ok_def pack_u_def body_def header_def Let_def)

lemma length_header [simp]: "length (header c) = 12"
  by (simp add: header_def)

lemma body_prefix: "body c = (header c @ pad_to 1024 0 (cmdline c) @ le_bytes 2 (kernelmax c)) @
    replicate (0x2000 - 0x10 - length (header c @ pad_to 1024 0 (cmdline c) @ le_bytes 2 (kernelmax c))) 0xff"
  by (simp add: body_def pad_to_def)

lemma header_fields:
  "bytes_at 0 4 (header c @ r) = le_bytes 4 1" "bytes_at 4 1 (header c @ r) = le_bytes 1 (bootsource c)"
  "bytes_at 5 1 (header c @ r) = le_bytes 1 (console c)" "bytes_at 6 1 (header c @ r) = le_bytes 1 (nic c)"
  "bytes_at 7 1 (header c @ r) = le_bytes 1 (boottype c)" "bytes_at 8 4 (header c @ r) = le_bytes 4 (loadaddress c)"
  by (simp_all add: bytes_at_def header_def)

lemma bytes_at_after: "bytes_at (12 + a) n (header c @ r) = bytes_at a n r"
  by (simp add: bytes_at_def)

lemma take_bytes_at: "xs = take a xs @ bytes_at a n xs @ drop (a + n) xs"
  unfolding bytes_at_def by (metis append_take_drop_id drop_drop add.commute)

text \<open>What the reader decodes of a block whose command line field is \<open>cmd\<close>, followed by \<open>k\<close>.\<close>

lemma GetValues_fields:
  assumes "settings_ok c" and "length cmd = 1024" and "length k = 2"
  shows "GetValues (header c @ cmd @ k @ rest) =
     (case strend_loop cmd 1023 of Inl e \<Rightarrow> Inl e
      | Inr strend \<Rightarrow> Inr (c\<lparr>cmdline := py_take cmd (strend + 1), kernelmax := le_int k\<rparr>))"
proof -
  have t: "take 1038 (header c @ cmd @ k @ rest) = header c @ cmd @ k" using assms(2,3) by simp
  have s: "bytes_at 12 1024 (header c @ cmd @ k) = cmd" "bytes_at 1036 2 (header c @ cmd @ k) = k"
    using assms(2,3) bytes_at_after [of 0 1024 c "cmd @ k"] bytes_at_after [of 1024 2 c "cmd @ k"] by (simp_all add: bytes_at_def)
  have v: "unpack_i (le_bytes 4 1) = version c" "le_int (le_bytes 1 (bootsource c)) = bootsource c"
    "le_int (le_bytes 1 (console c)) = console c" "le_int (le_bytes 1 (nic c)) = nic c"
    "le_int (le_bytes 1 (boottype c)) = boottype c" "le_int (le_bytes 4 (loadaddress c)) = loadaddress c"
    using assms(1) by (simp_all add: settings_ok_def le_int_bytes unpack_i_def unsigned_of_int take_bit_eq_mod)
  show ?thesis unfolding GetValues_def t Let_def s header_fields v using assms(2,3) by (simp split: sum.splits)
qed

lemma block_check_ok:
  assumes "length (cmdline c) \<le> 1024" and "length (md5 (body c)) = 16"
  shows "block_check md5 (body c @ md5 (body c)) = None"
proof -
  have "length (body c) = 0x1ff0" using assms(1) by (simp add: body_def max_def)
  then show ?thesis using assms(2) by (simp add: block_check_def)
qed

lemma GetValues_body:
  assumes "settings_ok c" and "length (cmdline c) \<le> 1024"
  shows "GetValues (body c @ d) =
     (case strend_loop (pad_to 1024 0 (cmdline c)) 1023 of Inl e \<Rightarrow> Inl e
      | Inr strend \<Rightarrow> Inr (c\<lparr>cmdline := py_take (pad_to 1024 0 (cmdline c)) (strend + 1)\<rparr>))"
proof -
  have k: "le_int (le_bytes 2 (kernelmax c)) = kernelmax c" using assms(1) by (simp add: settings_ok_def le_int_bytes)
  have "length (pad_to 1024 0 (cmdline c)) = 1024" using assms(2) by simp
  from GetValues_fields [OF assms(1) this, of "le_bytes 2 (kernelmax c)"] show ?thesis
    unfolding body_prefix k by (simp split: sum.splits)
qed

text \<open>
  C32.  The configuration block: for settings that fit their fields and a command line of 1 to 1024
  bytes that does not end in a zero byte, the generator produces a block that the reader accepts
  (8192 bytes, with the digest of the rest in the last 16) and that decodes to exactly the settings.
\<close>

theorem config_block_roundtrip:
  assumes "settings_ok c" and "cmdline c \<noteq> []" and "length (cmdline c) \<le> 1024" and "last (cmdline c) \<noteq> 0"
    and "\<forall>bs. length (md5 bs) = 16"
  shows "\<exists>block. GetConfig md5 c = Inr block \<and> length block = 0x2000 \<and> block_check md5 block = None \<and>
     GetValues block = Inr c"
proof -
  let ?m = "1024 - length (cmdline c)"
  have p: "pad_to 1024 0 (cmdline c) = cmdline c @ replicate ?m 0" by (simp add: pad_to_def)
  have "strend_loop (pad_to 1024 0 (cmdline c)) 1023 = Inr (int (length (cmdline c)) - 1)"
    using strend_text [OF assms(2,4), of ?m ?m] assms(3) unfolding p by simp
  then have "GetValues (body c @ md5 (body c)) = Inr c"
    unfolding GetValues_body [OF assms(1,3)] by (simp add: py_take_def p)
  moreover have "length (body c) = 0x1ff0" using assms(3) by (simp add: body_def max_def)
  ultimately show ?thesis
    using GetConfig_ok [OF assms(1)] block_check_ok [OF assms(3)] assms(5) by (intro exI conjI) auto
qed

theorem config_block_roundtrip_witness:
  "\<exists>block. GetConfig (\<lambda>bs. replicate 16 (of_nat (length bs))) example_settings = Inr block \<and>
     length block = 0x2000 \<and> GetValues block = Inr example_settings"
proof -
  have "settings_ok example_settings" "cmdline example_settings \<noteq> []" "length (cmdline example_settings) \<le> 1024"
    "last (cmdline example_settings) \<noteq> 0"
    by (simp_all add: settings_ok_def example_settings_def)
  from config_block_roundtrip [OF this, of "\<lambda>bs. replicate 16 (of_nat (length bs))"] show ?thesis by auto
qed

text \<open>
  Command lines outside these limits: the generator still writes a block with a correct digest for an
  empty command line, but the reader runs off the front of the field and raises \<^verbatim>\<open>IndexError\<close>; a
  command line of more than 1025 bytes overwrites the kernel size, which is then read from it.
\<close>

theorem config_cmdline_limits:
  assumes "settings_ok c" and "\<forall>bs. length (md5 bs) = 16"
  shows "cmdline c = [] \<Longrightarrow> \<exists>block. GetConfig md5 c = Inr block \<and> show_config md5 block = Inl (Raised IndexErr)"
    "length (cmdline c) \<ge> 1026 \<Longrightarrow> cmdline c ! 1023 \<noteq> 0 \<Longrightarrow>
       \<exists>block v. GetConfig md5 c = Inr block \<and> GetValues block = Inr v \<and> kernelmax v = le_int (bytes_at 1024 2 (cmdline c))"
proof -
  assume e: "cmdline c = []"
  have "strend_loop (pad_to 1024 0 (cmdline c)) 1023 = Inl IndexErr" by (simp add: e pad_to_def strend_zero)
  then have "GetValues (body c @ md5 (body c)) = Inl IndexErr"
    using e by (simp add: GetValues_body [OF assms(1)])
  then show "\<exists>block. GetConfig md5 c = Inr block \<and> show_config md5 block = Inl (Raised IndexErr)"
    using GetConfig_ok [OF assms(1)] block_check_ok [of c md5] assms(2) e by (simp add: show_config_def)
next
  assume l: "length (cmdline c) \<ge> 1026" and z: "cmdline c ! 1023 \<noteq> 0"
  let ?cmd = "take 1024 (cmdline c)" and ?k = "bytes_at 1024 2 (cmdline c)"
  have "pad_to 1024 0 (cmdline c) = ?cmd @ ?k @ drop 1026 (cmdline c)"
    using l take_bytes_at [of "cmdline c" 1024 2] by (simp add: pad_to_def)
  then have b: "body c @ md5 (body c) = header c @ ?cmd @ ?k @ drop 1026 (cmdline c) @ le_bytes 2 (kernelmax c) @
     replicate (0x2000 - 0x10 - length (header c @ pad_to 1024 0 (cmdline c) @ le_bytes 2 (kernelmax c))) 0xff @ md5 (body c)"
    by (subst body_prefix) simp
  have "py_index ?cmd 1023 = Inr (cmdline c ! 1023)" using l by (simp add: py_index_def)
  then have "strend_loop ?cmd 1023 = Inr 1023" using z by (subst strend_loop.simps) simp
  then have "GetValues (body c @ md5 (body c)) = Inr (c\<lparr>cmdline := py_take ?cmd 1024, kernelmax := le_int ?k\<rparr>)"
    unfolding b using GetValues_fields [OF assms(1), of ?cmd ?k] l by (simp add: bytes_at_def)
  then show "\<exists>block v. GetConfig md5 c = Inr block \<and> GetValues block = Inr v \<and> kernelmax v = le_int ?k"
    using GetConfig_ok [OF assms(1)] by auto
qed

end
