(* ===== verification/Upload.thy ===== *)
theory Upload
  imports Config_Block "HOL-Library.Monad_Syntax"
begin

text \<open>
  The tools that write a firmware image to a board: \<^verbatim>\<open>tools/bb_upload8.py\<close> over the serial line and
  \<^verbatim>\<open>tools/bb_eth_upload8.py\<close> (with the older \<^verbatim>\<open>tools/bb_eth_upload.py\<close>) over raw ethernet.  The socket
  is the environment: \<open>eth_send\<close>, \<open>eth_recv\<close> (\<^const>\<open>None\<close> is \<^verbatim>\<open>socket.error\<close>) and \<open>eth_sleep\<close> work on
  the world.  An operation returns its value or exception with the new world; \<^const>\<open>None\<close> as a whole
  means that it never returns, which only a network that never stops sending can cause.  The number
  of polls of a command is that of the loop over its timeout in steps of a millisecond.
\<close>

section \<open>Model\<close>

datatype up_exc = UStruct | UIOError | UValueError

text \<open>\<^verbatim>\<open>bb_upload8.py\<close>: the packets for the serial boot loader.\<close>

definition packet_indices :: "nat \<Rightarrow> nat list" where
  "packet_indices len = map (\<lambda>j. j * 8192) [0..<(len + 8191) div 8192]"

definition dashes :: "u8 list" where
  "dashes = [0x2d, 0x2d, 0x2d, 0x2d]"

fun packet_loop :: "(u8 list \<Rightarrow> u8 list) \<Rightarrow> u8 list \<Rightarrow> nat list \<Rightarrow> u8 list list \<Rightarrow> nat \<Rightarrow> u8 list list \<times> nat" where
  "packet_loop md5 data [] out padding = (out, padding)"
| "packet_loop md5 data (index # is) out padding =
     (let chunk = bytes_at index 8192 data; payload = pad_to 8192 0xff chunk
      in packet_loop md5 data is (out @ [dashes @ md5 payload @ payload]) (padding + (8192 - length chunk)))"

definition FirmwareToPackets :: "(u8 list \<Rightarrow> u8 list) \<Rightarrow> u8 list \<Rightarrow> up_exc + (u8 list list \<times> nat)" where
  "FirmwareToPackets md5 data =
     (if length data \<ge> 2 ^ 32 then Inl UStruct else Inr (packet_loop md5 data (packet_indices (length data)) [] 0))"

text \<open>\<^verbatim>\<open>data[:-padding]\<close> is empty for a padding of 0.\<close>

definition PacketsToFirmware :: "u8 list list \<Rightarrow> nat \<Rightarrow> u8 list" where
  "PacketsToFirmware parts padding =
     (let data = concat (map (drop 20) parts)
      in if padding = 0 then [] else take (length data - padding) data)"

text \<open>\<^verbatim>\<open>BiffSocket\<close>.\<close>

record 'w eth =
  eth_send :: "u8 list \<Rightarrow> 'w \<Rightarrow> 'w"
  eth_recv :: "'w \<Rightarrow> u8 list option \<times> 'w"
  eth_sleep :: "'w \<Rightarrow> 'w"

record BiffSocket =
  dest :: "u8 list"
  src :: "u8 list"
  proto :: int

abbreviation (input) TYPE_ATTN :: nat where "TYPE_ATTN \<equiv> 0"
abbreviation (input) TYPE_RELEASE :: nat where "TYPE_RELEASE \<equiv> 2"
abbreviation (input) TYPE_DATA_RESET :: nat where "TYPE_DATA_RESET \<equiv> 4"
abbreviation (input) TYPE_DATA_ADD :: nat where "TYPE_DATA_ADD \<equiv> 6"
abbreviation (input) TYPE_DATA_DIGEST :: nat where "TYPE_DATA_DIGEST \<equiv> 8"
abbreviation (input) TYPE_DATA_WRITE :: nat where "TYPE_DATA_WRITE \<equiv> 0xa"
abbreviation (input) TYPE_ERASE_SECTOR :: nat where "TYPE_ERASE_SECTOR \<equiv> 0xc"

definition broadcast :: "u8 list" where
  "broadcast = replicate 6 0xff"

definition be_bytes :: "nat \<Rightarrow> int \<Rightarrow> u8 list" where
  "be_bytes n v = rev (le_bytes n v)"

definition g_timeout :: "nat \<Rightarrow> nat option" where
  "g_timeout = map_of [(TYPE_ATTN, 1), (TYPE_RELEASE, 50), (TYPE_DATA_WRITE, 1000), (TYPE_DATA_DIGEST, 50),
     (TYPE_ERASE_SECTOR, 5000)]"

text \<open>One turn of the receive loop: go on, stop with an exception, or a reply.\<close>

datatype turn = Again BiffSocket | Fail BiffSocket | Reply int "u8 list" BiffSocket

definition receive_turn :: "nat \<Rightarrow> u8 list \<Rightarrow> BiffSocket \<Rightarrow> turn" where
  "receive_turn cmd data soc =
     (if take 6 data = broadcast then Again soc
      else if length (bytes_at 12 2 data) \<noteq> 2 then Fail soc
      else if le_int (rev (bytes_at 12 2 data)) \<noteq> 0xb1ff then Again soc
      else
        (let s = bytes_at 6 6 data;
             soc1 = (if dest soc = broadcast then soc\<lparr>dest := s\<rparr> else soc)
         in if s \<noteq> dest soc1 then Again soc1
            else if length (bytes_at 16 4 data) \<noteq> 4 then Fail soc1
            else if le_int (bytes_at 14 2 data) \<noteq> int (cmd OR 1) then Again soc1
            else Reply (le_int (bytes_at 16 4 data)) (drop 20 data) soc1))"

partial_function (option) Receive ::
  "'w eth \<Rightarrow> nat \<Rightarrow> BiffSocket \<Rightarrow> 'w \<Rightarrow> ((up_exc + (int \<times> u8 list) option) \<times> BiffSocket \<times> 'w) option" where
  "Receive E cmd soc w =
     (case eth_recv E w of
        (None, w1) \<Rightarrow> Some (Inr None, soc, w1)
      | (Some data, w1) \<Rightarrow>
          (case receive_turn cmd data soc of
             Fail soc1 \<Rightarrow> Some (Inl UStruct, soc1, w1)
           | Reply arg buffer soc1 \<Rightarrow> Some (Inr (Some (arg, buffer)), soc1, w1)
           | Again soc1 \<Rightarrow> Receive E cmd soc1 w1))"

primrec poll_loop ::
  "'w eth \<Rightarrow> nat \<Rightarrow> nat \<Rightarrow> BiffSocket \<Rightarrow> 'w \<Rightarrow> ((up_exc + (bool \<times> u8 list)) \<times> BiffSocket \<times> 'w) option" where
  "poll_loop E cmd 0 soc w = Some (Inr (False, []), soc, w)"
| "poll_loop E cmd (Suc n) soc w =
     do { (r, soc1, w1) \<leftarrow> Receive E cmd soc (eth_sleep E w);
          (case r of
             Inl e \<Rightarrow> Some (Inl e, soc1, w1)
           | Inr None \<Rightarrow> poll_loop E cmd n soc1 w1
           | Inr (Some (arg, buffer)) \<Rightarrow> Some (Inr (True, take (nat arg) buffer), soc1, w1)) }"

definition Send ::
  "'w eth \<Rightarrow> nat \<Rightarrow> int \<Rightarrow> u8 list \<Rightarrow> BiffSocket \<times> 'w \<Rightarrow> ((up_exc + (bool \<times> u8 list)) \<times> BiffSocket \<times> 'w) option" where
  "Send E cmd arg data sw =
     (let soc = fst sw; w = snd sw in
      if cmd \<ge> 2 ^ 16 \<or> arg < 0 \<or> arg \<ge> 2 ^ 32 then Some (Inl UStruct, soc, w)
      else
        (let w1 = eth_send E (dest soc @ src soc @ be_bytes 2 (proto soc) @ le_bytes 2 (int cmd) @ le_bytes 4 arg @ data) w
         in case g_timeout cmd of
              None \<Rightarrow> Some (Inr (False, []), soc, w1)
            | Some n \<Rightarrow> poll_loop E cmd n soc w1))"

text \<open>The upload, over a socket \<open>S\<close> with the operation \<^verbatim>\<open>Send\<close>.\<close>

type_synonym 's sender = "nat \<Rightarrow> int \<Rightarrow> u8 list \<Rightarrow> 's \<Rightarrow> ((up_exc + (bool \<times> u8 list)) \<times> 's) option"

function DataToChunks :: "u8 list \<Rightarrow> nat \<Rightarrow> u8 list list" where
  "DataToChunks data ch_size =
     (if data = [] \<or> ch_size = 0 then []
      else pad_to ch_size 0xff (take ch_size data) # DataToChunks (drop ch_size data) ch_size)"
  by pat_completeness auto

termination
  by (relation "measure (\<lambda>(d, n). length d)") auto

declare DataToChunks.simps [simp del]

text \<open>Sequencing: an exception ends the operation with the state it was raised in.\<close>

definition up_bind ::
  "((up_exc + 'a) \<times> 's) option \<Rightarrow> ('a \<Rightarrow> 's \<Rightarrow> ((up_exc + 'b) \<times> 's) option) \<Rightarrow> ((up_exc + 'b) \<times> 's) option" where
  "up_bind m f =
     do { (r, s1) \<leftarrow> m; (case r of Inl e \<Rightarrow> Some (Inl e, s1) | Inr x \<Rightarrow> f x s1) }"

primrec add_loop :: "'s sender \<Rightarrow> u8 list list \<Rightarrow> 's \<Rightarrow> ((up_exc + unit) \<times> 's) option" where
  "add_loop S [] s = Some (Inr (), s)"
| "add_loop S (d # ds) s = up_bind (S TYPE_DATA_ADD 512 d s) (\<lambda>_. add_loop S ds)"

definition Transfer :: "'s sender \<Rightarrow> (u8 list \<Rightarrow> u8 list) \<Rightarrow> u8 list \<Rightarrow> 's \<Rightarrow> ((up_exc + bool) \<times> 's) option" where
  "Transfer S md5 chunk s =
     up_bind (S TYPE_DATA_RESET 0 [] s) (\<lambda>_ s1.
     up_bind (add_loop S (DataToChunks chunk 512) s1) (\<lambda>_ s2.
     up_bind (S TYPE_DATA_DIGEST 0 [] s2) (\<lambda>(ok, digest) s3.
       Some (Inr (digest = md5 chunk), s3))))"

primrec try_loop :: "'s sender \<Rightarrow> (u8 list \<Rightarrow> u8 list) \<Rightarrow> nat \<Rightarrow> u8 list \<Rightarrow> 's \<Rightarrow> ((up_exc + bool) \<times> 's) option" where
  "try_loop S md5 0 chunk s = Some (Inr False, s)"
| "try_loop S md5 (Suc n) chunk s =
     up_bind (Transfer S md5 chunk s) (\<lambda>txed s1.
       if txed then Some (Inr True, s1) else try_loop S md5 n chunk s1)"

definition SendChunk ::
  "'s sender \<Rightarrow> (u8 list \<Rightarrow> u8 list) \<Rightarrow> u8 list \<Rightarrow> nat \<Rightarrow> 's \<Rightarrow> ((up_exc + unit) \<times> 's) option" where
  "SendChunk S md5 chunk offset s =
     up_bind (try_loop S md5 5 chunk s) (\<lambda>txed s1.
       if \<not> txed then Some (Inl UIOError, s1)
       else
         up_bind (S TYPE_DATA_WRITE (int offset) [] s1) (\<lambda>(ok, err) s2.
           if \<not> ok then Some (Inl UIOError, s2)
           else if length err \<noteq> 1 then Some (Inl UStruct, s2)
           else if hd err \<noteq> 0 then Some (Inl UIOError, s2)
           else Some (Inr (), s2)))"

primrec upload_chunks ::
  "'s sender \<Rightarrow> (u8 list \<Rightarrow> u8 list) \<Rightarrow> u8 list list \<Rightarrow> nat \<Rightarrow> 's \<Rightarrow> ((up_exc + unit) \<times> 's) option" where
  "upload_chunks S md5 [] offset s = Some (Inr (), s)"
| "upload_chunks S md5 (chunk # cs) offset s =
     up_bind (SendChunk S md5 chunk offset s) (\<lambda>_. upload_chunks S md5 cs (Suc offset))"


text \<open>The older boards: the image must leave the configuration alone, and the sectors are erased first.\<close>

definition g_sectors :: "int list" where
  "g_sectors = [0x00000000, 0x00006000, 0x00008000, 0x00010000, 0x00020000, 0x00030000, 0x00040000, 0x00050000,
     0x00060000, 0x00070000, 0x00080000, 0x00090000, 0x000A0000, 0x000B0000, 0x000C0000, 0x000D0000, 0x000E0000]"

primrec erase_loop :: "'s sender \<Rightarrow> int list \<Rightarrow> 's \<Rightarrow> ((up_exc + unit) \<times> 's) option" where
  "erase_loop S [] s = Some (Inr (), s)"
| "erase_loop S (i # is) s =
     up_bind (S TYPE_ERASE_SECTOR i [] s) (\<lambda>(ok, buf) s1.
       if ok then (if length buf \<noteq> 4 then Some (Inl UStruct, s1) else erase_loop S is s1)
       else Some (Inl UIOError, s1))"

definition UploadBinary :: "'s sender \<Rightarrow> (u8 list \<Rightarrow> u8 list) \<Rightarrow> u8 list \<Rightarrow> 's \<Rightarrow> ((up_exc + unit) \<times> 's) option" where
  "UploadBinary S md5 data s =
     (let parts = DataToChunks data 8192 in
      if length parts > 119 then Some (Inl UValueError, s)
      else up_bind (erase_loop S g_sectors s) (\<lambda>_. upload_chunks S md5 parts 0))"

section \<open>Specification\<close>




definition chunk_image :: "nat \<Rightarrow> u8 list \<Rightarrow> u8 list" where
  "chunk_image n data = data @ replicate ((n - length data mod n) mod n) 0xff"

section \<open>Chunks\<close>

lemma DataToChunks_Nil [simp]: "DataToChunks [] n = []"
  by (simp add: DataToChunks.simps)

lemma DataToChunks_step:
  "0 < n \<Longrightarrow> data \<noteq> [] \<Longrightarrow> DataToChunks data n = pad_to n 0xff (take n data) # DataToChunks (drop n data) n"
  by (subst DataToChunks.simps) simp

lemma concat_DataToChunks: "0 < n \<Longrightarrow> concat (DataToChunks data n) = chunk_image n data"
proof (induction data n rule: DataToChunks.induct)
  case (1 data n)
  show ?case
  proof (cases "length data \<le> n")
    case True
    show ?thesis
    proof (cases "data = [] \<or> length data = n")
      case False
      then have "length data mod n = length data" "(n - length data) mod n = n - length data" using True by auto
      then show ?thesis using False True 1(2) by (simp add: DataToChunks_step chunk_image_def pad_to_def)
    qed (use 1(2) in \<open>auto simp: DataToChunks_step chunk_image_def pad_to_def\<close>)
  next
    case False
    then have "length (drop n data) mod n = length data mod n" using mod_add_self2 [of "length data - n" n] by simp
    moreover have "data \<noteq> []" using False by auto
    moreover have "take n data @ drop n data @ r = data @ r" for r by (simp flip: append_assoc)
    ultimately show ?thesis using False 1 by (subst DataToChunks_step) (simp_all add: chunk_image_def pad_to_def)
  qed
qed

lemma length_chunk: "0 < n \<Longrightarrow> c \<in> set (DataToChunks data n) \<Longrightarrow> length c = n"
  by (induction data n rule: DataToChunks.induct) (subst (asm) (2) DataToChunks.simps, auto split: if_splits)

section \<open>Packets for the serial line\<close>

definition frame :: "(u8 list \<Rightarrow> u8 list) \<Rightarrow> u8 list \<Rightarrow> u8 list" where
  "frame md5 p = dashes @ md5 p @ p"

definition padding_of :: "nat \<Rightarrow> nat" where
  "padding_of len = (8192 - len mod 8192) mod 8192"

lemma padding_step: "0 < l \<Longrightarrow> 8192 - min l 8192 + padding_of (l - 8192) = padding_of l"
proof (cases "l \<le> 8192")
  case True
  assume "0 < l"
  then show ?thesis using True by (cases "l = 8192") (auto simp: padding_of_def)
next
  case False
  then have "(l - 8192) mod 8192 = l mod 8192" using mod_add_self2 [of "l - 8192" 8192] by simp
  then show ?thesis using False by (simp add: padding_of_def)
qed

lemma padding_of_0: "padding_of l = 0 \<longleftrightarrow> 8192 dvd l"
proof (cases "l mod 8192 = 0")
  case False
  then have "8192 - l mod 8192 < 8192" "8192 - l mod 8192 \<noteq> 0" by simp_all
  then show ?thesis using False unfolding padding_of_def dvd_eq_mod_eq_0 by simp
qed (simp add: padding_of_def dvd_eq_mod_eq_0)

lemma packet_loop_chunks:
  assumes "N = (length data + 8191) div 8192" and "a \<le> N"
  shows "packet_loop md5 data (map (\<lambda>j. j * 8192) [a..<N]) out p =
     (out @ map (frame md5) (DataToChunks (drop (a * 8192) data) 8192), p + padding_of (length data - a * 8192))"
  using assms(2)
proof (induction "N - a" arbitrary: a out p)
  case 0
  then have "a = N" by simp
  moreover have "length data \<le> N * 8192" using assms(1) by linarith
  ultimately show ?case by (simp add: padding_of_def)
next
  case (Suc m)
  then have a: "a < N" by simp
  then have l: "a * 8192 < length data" using assms(1) by linarith
  let ?d = "drop (a * 8192) data"
  have d: "?d \<noteq> []" using l by simp
  have c: "DataToChunks ?d 8192 = pad_to 8192 0xff (take 8192 ?d) # DataToChunks (drop (Suc a * 8192) data) 8192"
    using DataToChunks_step [OF _ d, of 8192] by (simp add: add.commute)
  have p: "8192 - length (take 8192 ?d) + padding_of (length data - Suc a * 8192) = padding_of (length data - a * 8192)"
    using padding_step [of "length data - a * 8192"] l by (simp add: min.commute add.commute)
  let ?p = "p + (8192 - length (take 8192 ?d))"
  have "[a..<N] = a # [Suc a..<N]" using a by (rule upt_conv_Cons)
  then have "packet_loop md5 data (map (\<lambda>j. j * 8192) [a..<N]) out p =
      packet_loop md5 data (map (\<lambda>j. j * 8192) [Suc a..<N]) (out @ [frame md5 (pad_to 8192 0xff (take 8192 ?d))]) ?p"
    by (simp add: Let_def bytes_at_def frame_def)
  also have "\<dots> = ((out @ [frame md5 (pad_to 8192 0xff (take 8192 ?d))]) @
      map (frame md5) (DataToChunks (drop (Suc a * 8192) data) 8192), ?p + padding_of (length data - Suc a * 8192))"
    using Suc.hyps(2) a by (intro Suc.hyps(1)) simp_all
  also have "?p + padding_of (length data - Suc a * 8192) = p + padding_of (length data - a * 8192)"
    using p by (simp only: add.assoc)
  finally show ?case unfolding c by simp
qed

lemma FirmwareToPackets_eq:
  "length data < 2 ^ 32 \<Longrightarrow>
     FirmwareToPackets md5 data = Inr (map (frame md5) (DataToChunks data 8192), padding_of (length data))"
  using packet_loop_chunks [of _ data 0 md5 "[]" 0] by (simp add: FirmwareToPackets_def packet_indices_def)

text \<open>
  C35.  The serial packets carry the image: the image is cut into payloads of 8192 bytes, the last
  padded with 0xff, each preceded by four dashes and its digest; taking the packets apart again
  restores the image -- except that an image whose length is a multiple of 8192 comes back empty,
  because the slice up to \<open>-0\<close> is empty.
\<close>

theorem firmware_packets_roundtrip:
  assumes "length data < 2 ^ 32" and "\<forall>bs. length (md5 bs) = 16"
  shows "\<exists>parts padding. FirmwareToPackets md5 data = Inr (parts, padding) \<and>
     (\<forall>q\<in>set parts. \<exists>p. length p = 8192 \<and> q = dashes @ md5 p @ p) \<and>
     concat (map (drop 20) parts) = data @ replicate padding 0xff \<and> padding < 8192 \<and>
     PacketsToFirmware parts padding = (if 8192 dvd length data then [] else data)"
proof -
  let ?ps = "DataToChunks data 8192"
  have f: "drop 20 (frame md5 p) = p" for p using assms(2) by (simp add: frame_def dashes_def)
  have c: "concat (map (drop 20) (map (frame md5) ?ps)) = data @ replicate (padding_of (length data)) 0xff"
    using concat_DataToChunks [of 8192 data] by (simp add: f comp_def chunk_image_def padding_of_def)
  have z: "padding_of (length data) = 0 \<longleftrightarrow> 8192 dvd length data" by (rule padding_of_0)
  have "PacketsToFirmware (map (frame md5) ?ps) (padding_of (length data)) = (if 8192 dvd length data then [] else data)"
    unfolding PacketsToFirmware_def c Let_def using z by simp
  moreover have "\<forall>q\<in>set (map (frame md5) ?ps). \<exists>p. length p = 8192 \<and> q = dashes @ md5 p @ p"
    using length_chunk [of 8192] by (auto simp: frame_def)
  moreover have "padding_of (length data) < 8192" by (simp add: padding_of_def)
  ultimately show ?thesis using FirmwareToPackets_eq [OF assms(1), of md5] c by blast
qed

theorem firmware_packets_roundtrip_witness:
  "\<exists>parts padding. FirmwareToPackets (\<lambda>_. replicate 16 0) [1, 2, 3] = Inr (parts, padding) \<and>
     PacketsToFirmware parts padding = [1, 2, 3]"
proof -
  have "\<not> 8192 dvd length [1, 2, 3 :: u8]" by (auto dest: dvd_imp_le)
  then show ?thesis using firmware_packets_roundtrip [of "[1, 2, 3]" "\<lambda>_. replicate 16 0"] by auto
qed

section \<open>Upload over ethernet\<close>













lemma up_bind_Some [simp]: "up_bind (Some (Inr x, s)) f = f x s"
  by (simp add: up_bind_def)







section \<open>Replies\<close>

definition reply_frame :: "nat \<Rightarrow> u8 list \<Rightarrow> BiffSocket \<Rightarrow> bool" where
  "reply_frame cmd data soc \<longleftrightarrow> take 6 data \<noteq> broadcast \<and> bytes_at 6 6 data = dest soc \<and>
     bytes_at 12 2 data = [0xb1, 0xff] \<and> le_int (bytes_at 14 2 data) = int (cmd OR 1)"

lemma be_b1ff:
  assumes "length bs = 2" and "le_int (rev bs) = 0xb1ff"
  shows "bs = [0xb1, 0xff]"
proof -
  obtain a b where bs: "bs = [a, b]" using assms(1) by (auto simp: numeral_2_eq_2 length_Suc_conv)
  have e: "uint b + 256 * uint a = 0xb1ff" using assms(2) by (simp add: bs)
  have b: "0 \<le> uint b" "uint b < 256" using uint_bounded [of b] by simp_all
  have "(uint b + 256 * uint a) div 256 = uint a" "(uint b + 256 * uint a) mod 256 = uint b" using b by simp_all
  then have "uint a = 0xb1" "uint b = 0xff" unfolding e by simp_all
  then have "a = 0xb1" "b = 0xff" by (simp_all add: word_uint_eq_iff)
  then show ?thesis by (simp add: bs)
qed

lemma receive_turn_Reply:
  assumes "receive_turn cmd data soc = Reply arg buffer soc1"
  shows "reply_frame cmd data soc1 \<and> arg = le_int (bytes_at 16 4 data) \<and> buffer = drop 20 data"
    "dest soc \<noteq> broadcast \<Longrightarrow> soc1 = soc"
  using assms be_b1ff [of "bytes_at 12 2 data"]
  by (auto simp: receive_turn_def reply_frame_def Let_def split: if_splits)

lemma receive_turn_Again: "receive_turn cmd data soc = Again soc1 \<Longrightarrow> dest soc \<noteq> broadcast \<Longrightarrow> soc1 = soc"
  by (auto simp: receive_turn_def Let_def split: if_splits)

text \<open>
  A reply that \<^verbatim>\<open>Receive\<close> returns is the last frame read from the network, sent by the board the socket
  talks to, in the protocol of the tool and of the type that answers the command.
\<close>

definition authentic :: "'w eth \<Rightarrow> nat \<Rightarrow> BiffSocket \<Rightarrow> (up_exc + (int \<times> u8 list) option) \<times> BiffSocket \<times> 'w \<Rightarrow> bool" where
  "authentic E cmd soc y \<longleftrightarrow>
     (case y of (r, soc', w') \<Rightarrow> \<forall>arg buffer. r = Inr (Some (arg, buffer)) \<longrightarrow>
        soc' = soc \<and> (\<exists>data w0. eth_recv E w0 = (Some data, w') \<and> reply_frame cmd data soc \<and>
          arg = le_int (bytes_at 16 4 data) \<and> buffer = drop 20 data))"

theorem Receive_authentic:
  assumes "Receive E cmd soc w = Some y" and "dest soc \<noteq> broadcast"
  shows "authentic E cmd soc y"
proof -
  have "dest soc \<noteq> broadcast \<longrightarrow> authentic E cmd soc y"
  proof (rule Receive.raw_induct [of "\<lambda>E cmd soc w y. dest soc \<noteq> broadcast \<longrightarrow> authentic E cmd soc y", OF _ assms(1)])
    fix R :: "'a eth \<Rightarrow> nat \<Rightarrow> BiffSocket \<Rightarrow> 'a \<Rightarrow> ((up_exc + (int \<times> u8 list) option) \<times> BiffSocket \<times> 'a) option"
    fix E cmd soc w y
    assume ih: "\<And>E cmd soc w y. R E cmd soc w = Some y \<Longrightarrow> dest soc \<noteq> broadcast \<longrightarrow> authentic E cmd soc y"
    assume b: "(case eth_recv E w of (None, w1) \<Rightarrow> Some (Inr None, soc, w1)
      | (Some data, w1) \<Rightarrow> (case receive_turn cmd data soc of Again soc1 \<Rightarrow> R E cmd soc1 w1
           | Fail soc1 \<Rightarrow> Some (Inl UStruct, soc1, w1)
           | Reply arg buffer soc1 \<Rightarrow> Some (Inr (Some (arg, buffer)), soc1, w1))) = Some y"
    show "dest soc \<noteq> broadcast \<longrightarrow> authentic E cmd soc y"
    proof
      assume d: "dest soc \<noteq> broadcast"
      show "authentic E cmd soc y"
        using b d ih receive_turn_Again [of cmd _ soc] receive_turn_Reply [of cmd _ soc]
        by (fastforce simp: authentic_def split: prod.splits option.splits turn.splits)
    qed
  qed
  then show ?thesis using assms(2) by blast
qed

end
