(* ===== verification/Tftp.thy ===== *)
theory Tftp
  imports Upload
begin

text \<open>
  The boot server \<^verbatim>\<open>tools/bootp_server.py\<close>: the reply to a BOOTP request and the TFTP connection that
  serves a file, with the overridden methods of the main program.  The network is the list of what
  \<^verbatim>\<open>select\<close> and \<^verbatim>\<open>recvfrom\<close> bring, in order: a timeout or a datagram with its sender.  A connection
  whose list is used up is still waiting.  An exception that is not a \<^verbatim>\<open>TFTPError\<close> ends the thread of
  the connection.  The file system is a parameter \<open>files\<close>; what the connection has put on the network
  is \<open>sent\<close>.
\<close>

section \<open>Model\<close>

datatype tftp_event = Timeout | Datagram nat "u8 list"

datatype tftp_exc = TFTPError int string | TStructError | TValueError | TIOError | TAttributeError

datatype packet =
    PRequest int "u8 list" "u8 list"
  | PData int "u8 list"
  | PAck int
  | PErr int "u8 list"

abbreviation (input) RRQ :: int where "RRQ \<equiv> 1"
abbreviation (input) WRQ :: int where "WRQ \<equiv> 2"
abbreviation (input) DATA :: int where "DATA \<equiv> 3"
abbreviation (input) ACK :: int where "ACK \<equiv> 4"
abbreviation (input) ERR :: int where "ERR \<equiv> 5"
abbreviation (input) HDRSIZE :: nat where "HDRSIZE \<equiv> 4"

record conn =
  blocksize :: nat
  retry :: nat
  active :: bool
  blockNumber :: int
  lastpkt :: "u8 list"
  unread :: "u8 list"
  sent :: "u8 list list"

definition new_conn :: conn where
  "new_conn = \<lparr>blocksize = 512, retry = 5, active = False, blockNumber = 0, lastpkt = [], unread = [], sent = []\<rparr>"

text \<open>The format \<^verbatim>\<open>!h\<close>: a signed number of two bytes in network order.\<close>

definition pack_h :: "int \<Rightarrow> (u8 list) option" where
  "pack_h v = (if - (2 ^ 15) \<le> v \<and> v < 2 ^ 15 then Some (be_bytes 2 v) else None)"

definition unpack_h :: "u8 list \<Rightarrow> int option" where
  "unpack_h bs =
     (if length bs \<noteq> 2 then None
      else (let v = le_int (rev bs) in Some (if v \<ge> 2 ^ 15 then v - 2 ^ 16 else v)))"

fun split_nul :: "u8 list \<Rightarrow> u8 list list" where
  "split_nul [] = [[]]"
| "split_nul (x # xs) =
     (if x = 0 then [] # split_nul xs
      else (case split_nul xs of [] \<Rightarrow> [[x]] | y # ys \<Rightarrow> (x # y) # ys))"

definition send :: "u8 list \<Rightarrow> conn \<Rightarrow> conn" where
  "send pkt c = c\<lparr>sent := sent c @ [pkt], lastpkt := pkt\<rparr>"

definition retransmit :: "conn \<Rightarrow> conn" where
  "retransmit c = c\<lparr>sent := sent c @ [lastpkt c]\<rparr>"

definition parse_opcode :: "int \<Rightarrow> u8 list \<Rightarrow> tftp_exc + packet" where
  "parse_opcode opcode data =
     (if opcode = RRQ \<or> opcode = WRQ then
        (case split_nul (drop 2 data) of [filename, mode, junk] \<Rightarrow> Inr (PRequest opcode filename mode) | _ \<Rightarrow> Inl TValueError)
      else if opcode = DATA then
        (case unpack_h (bytes_at 2 2 data) of None \<Rightarrow> Inl TStructError | Some block \<Rightarrow> Inr (PData block (drop 4 data)))
      else if opcode = ACK then
        (case unpack_h (bytes_at 2 2 data) of None \<Rightarrow> Inl TStructError | Some block \<Rightarrow> Inr (PAck block))
      else if opcode = ERR then
        (case unpack_h (bytes_at 2 2 data) of None \<Rightarrow> Inl TStructError | Some errnum \<Rightarrow> Inr (PErr errnum (butlast (drop 4 data))))
      else Inl (TFTPError 4 ''Unknown packet type''))"

definition tftp_parse :: "u8 list \<Rightarrow> tftp_exc + packet" where
  "tftp_parse data =
     (case unpack_h (take 2 data) of None \<Rightarrow> Inl TStructError | Some opcode \<Rightarrow> parse_opcode opcode data)"

text \<open>The receive loop: the exception of the last timeout, or the datagram; \<^const>\<open>None\<close> when nothing is left.\<close>

fun recv_loop :: "nat \<Rightarrow> nat \<Rightarrow> tftp_event list \<Rightarrow> conn \<Rightarrow> (tftp_exc + u8 list) option \<times> tftp_event list \<times> conn" where
  "recv_loop client 0 evs c = (Some (Inl (TFTPError 4 ''Transfer timed out'')), evs, c)"
| "recv_loop client (Suc n) [] c = (None, [], c)"
| "recv_loop client (Suc n) (Timeout # evs) c = recv_loop client n evs (retransmit c)"
| "recv_loop client (Suc n) (Datagram addr data # evs) c =
     (if addr = client then (Some (Inr (take (blocksize c + HDRSIZE) data)), evs, c)
      else recv_loop client (Suc n) evs c)"

definition sendData :: "u8 list \<Rightarrow> conn \<Rightarrow> tftp_exc option \<times> conn" where
  "sendData data c =
     (let block = blockNumber c + 1; c1 = c\<lparr>blockNumber := block\<rparr> in
      case pack_h block of
        None \<Rightarrow> (Some TStructError, c1)
      | Some b \<Rightarrow> (None, (send (be_bytes 2 DATA @ b @ data) c1)\<lparr>active := (length data = blocksize c)\<rparr>))"

definition sendAck :: "conn \<Rightarrow> tftp_exc option \<times> conn" where
  "sendAck c =
     (let block = blockNumber c; c1 = c\<lparr>blockNumber := blockNumber c + 1\<rparr> in
      case pack_h block of
        None \<Rightarrow> (Some TStructError, c1)
      | Some b \<Rightarrow> (None, send (be_bytes 2 ACK @ b) c1))"

definition string_bytes :: "string \<Rightarrow> u8 list" where
  "string_bytes s = map of_char s"

definition sendError :: "int \<Rightarrow> string \<Rightarrow> conn \<Rightarrow> conn" where
  "sendError errnum errtext c = c\<lparr>sent := sent c @ [be_bytes 2 ERR @ be_bytes 2 errnum @ string_bytes errtext @ [0]]\<rparr>"

text \<open>\<^verbatim>\<open>self.sendData(self.file.read(self.blocksize))\<close>\<close>

definition send_block :: "conn \<Rightarrow> tftp_exc option \<times> conn" where
  "send_block c = sendData (take (blocksize c) (unread c)) (c\<lparr>unread := drop (blocksize c) (unread c)\<rparr>)"

definition handleRRQ :: "(u8 list \<Rightarrow> u8 list option) \<Rightarrow> u8 list \<Rightarrow> conn \<Rightarrow> tftp_exc option \<times> conn" where
  "handleRRQ files filename c =
     (case files filename of None \<Rightarrow> (Some TIOError, c) | Some data \<Rightarrow> send_block (c\<lparr>unread := data\<rparr>))"

text \<open>
  \<^verbatim>\<open>writeRequest\<close> of the main program calls \<^verbatim>\<open>StringIO.StringIO()\<close> after \<^verbatim>\<open>from StringIO import StringIO\<close> has
  made that name the class: a write request raises \<^verbatim>\<open>AttributeError\<close>.
\<close>

definition handleWRQ :: "conn \<Rightarrow> tftp_exc option \<times> conn" where
  "handleWRQ c = (Some TAttributeError, c)"

definition handleACK :: "conn \<Rightarrow> tftp_exc option \<times> conn" where
  "handleACK c = (if active c then send_block c else (None, c))"

text \<open>The file of a read request is not open for writing: \<^verbatim>\<open>file.write\<close> raises \<^verbatim>\<open>IOError\<close>.\<close>

definition handleDATA :: "conn \<Rightarrow> tftp_exc option \<times> conn" where
  "handleDATA c = (case sendAck c of (Some e, c1) \<Rightarrow> (Some e, c1) | (None, c1) \<Rightarrow> (Some TIOError, c1))"

definition recvAck :: "int \<Rightarrow> conn \<Rightarrow> tftp_exc option \<times> conn" where
  "recvAck block c = (if block = blockNumber c then handleACK c else (None, c))"

definition recvData :: "int \<Rightarrow> u8 list \<Rightarrow> conn \<Rightarrow> tftp_exc option \<times> conn" where
  "recvData block data c =
     (if block = blockNumber c then handleDATA (c\<lparr>active := (blocksize c = length data)\<rparr>) else (None, c))"

definition recvErr :: "conn \<Rightarrow> tftp_exc option \<times> conn" where
  "recvErr c = (None, retransmit c)"

definition dispatch :: "packet \<Rightarrow> conn \<Rightarrow> tftp_exc option \<times> conn" where
  "dispatch pkt c =
     (case pkt of
        PData block data \<Rightarrow> recvData block data c
      | PAck block \<Rightarrow> recvAck block c
      | PErr errnum errtxt \<Rightarrow> recvErr c
      | PRequest opcode filename mode \<Rightarrow> (Some (TFTPError 5 ''Invalid opcode''), c))"

datatype outcome = Waiting | Finished | Died tftp_exc

definition raised :: "tftp_exc \<Rightarrow> conn \<Rightarrow> outcome \<times> conn" where
  "raised e c = (case e of TFTPError n txt \<Rightarrow> (Finished, sendError n txt c) | _ \<Rightarrow> (Died e, c))"

lemma recv_loop_consumes: "recv_loop client n evs c = (Some (Inr d), evs', c') \<Longrightarrow> length evs' < length evs"
  by (induction client n evs c rule: recv_loop.induct) (auto split: if_splits)

text \<open>The loop of \<^verbatim>\<open>connect\<close> until the transfer is no longer active.\<close>

function serve :: "nat \<Rightarrow> tftp_event list \<Rightarrow> conn \<Rightarrow> outcome \<times> conn" where
  "serve client evs c =
     (if \<not> active c then (Finished, c)
      else (case recv_loop client (retry c) evs c of
              (None, evs1, c1) \<Rightarrow> (Waiting, c1)
            | (Some (Inl e), evs1, c1) \<Rightarrow> raised e c1
            | (Some (Inr data), evs1, c1) \<Rightarrow>
                (case tftp_parse data of
                   Inl e \<Rightarrow> raised e c1
                 | Inr pkt \<Rightarrow>
                     (case dispatch pkt c1 of
                        (Some e, c2) \<Rightarrow> raised e c2
                      | (None, c2) \<Rightarrow> serve client evs1 c2))))"
  by pat_completeness auto

termination
  by (relation "measure (\<lambda>(client, evs, c). length evs)") (auto dest: recv_loop_consumes [OF sym] recv_loop_consumes)

declare serve.simps [simp del]

definition connect :: "(u8 list \<Rightarrow> u8 list option) \<Rightarrow> nat \<Rightarrow> u8 list \<Rightarrow> tftp_event list \<Rightarrow> conn \<Rightarrow> outcome \<times> conn" where
  "connect files client data evs c =
     (case tftp_parse data of
        Inl e \<Rightarrow> raised e c
      | Inr (PRequest opcode filename mode) \<Rightarrow>
          (let c1 = c\<lparr>active := True\<rparr> in
           case (if opcode = RRQ then handleRRQ files filename c1 else handleWRQ c1) of
             (Some e, c2) \<Rightarrow> raised e c2
           | (None, c2) \<Rightarrow> serve client evs c2)
      | Inr _ \<Rightarrow> raised (TFTPError 4 ''Bad request'') c)"

text \<open>
  The BOOTP reply to a request of 300 bytes, with the fields of \<^verbatim>\<open>!4B I Hxx 4I 16s 64s 128s 64s\<close>: the
  operation, the addresses of client and server and the file name are set, the two unused bytes
  are packed as zeros, the others are kept.
\<close>

definition KERNEL_IMAGE_BIN :: "u8 list" where
  "KERNEL_IMAGE_BIN = string_bytes ''bzImage''"

definition bootp_server :: "u8 list \<Rightarrow> u8 list \<Rightarrow> u8 list option" where
  "bootp_server TFTP_HOST data =
     (if length data \<noteq> 300 then None
      else Some ([2] @ bytes_at 1 9 data @ [0, 0] @ bytes_at 12 4 data @ [192, 168, 0, 159] @ TFTP_HOST @
        bytes_at 24 84 data @ take 128 (pad_to 128 0 KERNEL_IMAGE_BIN) @ bytes_at 236 64 data))"

section \<open>Specification\<close>

definition rrq_pkt :: "u8 list \<Rightarrow> u8 list \<Rightarrow> u8 list" where
  "rrq_pkt filename mode = [0, 1] @ filename @ [0] @ mode @ [0]"

definition ack_pkt :: "nat \<Rightarrow> u8 list" where
  "ack_pkt k = be_bytes 2 ACK @ be_bytes 2 (int k)"

text \<open>Block \<open>k\<close> of a file (from 0) and the packet that carries it with its number (from 1).\<close>

definition data_pkt :: "u8 list \<Rightarrow> nat \<Rightarrow> u8 list" where
  "data_pkt data k = be_bytes 2 DATA @ be_bytes 2 (int (Suc k)) @ bytes_at (512 * k) 512 data"

definition is_data :: "u8 list \<Rightarrow> bool" where
  "is_data p \<longleftrightarrow> take 2 p = be_bytes 2 DATA"

text \<open>The blocks as they appear on the network, without repetitions.\<close>

definition blocks_sent :: "conn \<Rightarrow> u8 list list" where
  "blocks_sent c = remdups_adj (filter is_data (sent c))"

text \<open>Events that keep the connection waiting: fewer than five timeouts, and datagrams of others.\<close>

definition is_noise :: "nat \<Rightarrow> tftp_event list \<Rightarrow> bool" where
  "is_noise client evs \<longleftrightarrow> length (filter (\<lambda>e. e = Timeout) evs) < 5 \<and>
     list_all (\<lambda>e. case e of Timeout \<Rightarrow> True | Datagram addr d \<Rightarrow> addr \<noteq> client) evs"

text \<open>A client that acknowledges the blocks from \<open>k\<close> on, each after some noise.\<close>

primrec acks :: "nat \<Rightarrow> nat \<Rightarrow> tftp_event list list \<Rightarrow> tftp_event list" where
  "acks client k [] = []"
| "acks client k (evs # ns) = evs @ Datagram client (ack_pkt k) # acks client (Suc k) ns"

definition serving :: "u8 list \<Rightarrow> nat \<Rightarrow> conn \<Rightarrow> bool" where
  "serving data n c \<longleftrightarrow> blocksize c = 512 \<and> retry c = 5 \<and> blockNumber c = int (Suc n) \<and> Suc n < 2 ^ 15 \<and>
     lastpkt c = data_pkt data n \<and> unread c = drop (512 * Suc n) data \<and> active c = (512 * Suc n \<le> length data) \<and>
     sent c \<noteq> [] \<and> last (sent c) = data_pkt data n \<and> blocks_sent c = map (data_pkt data) [0..<Suc n] \<and>
     512 * n \<le> length data"

definition in_order :: "u8 list \<Rightarrow> conn \<Rightarrow> bool" where
  "in_order data c \<longleftrightarrow> (\<exists>n. blocks_sent c = map (data_pkt data) [0..<n] \<and> 512 * (n - 1) \<le> length data)"

section \<open>Packets\<close>

lemma be2: "be_bytes 2 v = [of_int (v div 256), of_int v]"
  by (simp add: be_bytes_def numeral_2_eq_2)

lemma length_be2 [simp]: "length (be_bytes n v) = n"
  by (simp add: be_bytes_def)

lemma le_int_be2: "0 \<le> v \<Longrightarrow> v < 2 ^ 16 \<Longrightarrow> le_int (rev (be_bytes 2 v)) = v"
  using le_int_bytes [of v 2] by (simp add: be_bytes_def)

lemma unpack_be2: "0 \<le> v \<Longrightarrow> v < 2 ^ 15 \<Longrightarrow> unpack_h (be_bytes 2 v) = Some v"
  using le_int_be2 [of v] by (simp add: unpack_h_def)

lemma be2_inj:
  assumes "be_bytes 2 (int a) = be_bytes 2 (int b)" and "a < 2 ^ 16" and "b < 2 ^ 16"
  shows "a = b"
proof -
  have "le_int (rev (be_bytes 2 (int a))) = int a" "le_int (rev (be_bytes 2 (int b))) = int b"
    using assms(2,3) by (intro le_int_be2; simp)+
  then show ?thesis using assms(1) by (metis of_nat_eq_iff)
qed

lemma opcodes [simp]: "be_bytes 2 3 = [0, 3]" "be_bytes 2 4 = [0, 4]" "be_bytes 2 5 = [0, 5]"
  by (simp_all add: be2)

lemma is_data_pkt [simp]: "is_data (data_pkt data k)" "\<not> is_data (0 # 4 # x)" "\<not> is_data (0 # 5 # x)"
  by (simp_all add: is_data_def data_pkt_def)

lemma split_nul_text: "0 \<notin> set x \<Longrightarrow> split_nul (x @ 0 # y) = x # split_nul y"
  by (induction x) auto

lemma parse_rrq:
  "0 \<notin> set filename \<Longrightarrow> 0 \<notin> set mode \<Longrightarrow> tftp_parse (rrq_pkt filename mode) = Inr (PRequest RRQ filename mode)"
  by (simp add: tftp_parse_def rrq_pkt_def unpack_h_def parse_opcode_def split_nul_text)

lemma parse_ack: "k < 2 ^ 15 \<Longrightarrow> tftp_parse (take 516 (ack_pkt k)) = Inr (PAck (int k))"
proof -
  assume k: "k < 2 ^ 15"
  have "take 516 (ack_pkt k) = [0, 4] @ be_bytes 2 (int k)" by (simp add: ack_pkt_def)
  moreover have "unpack_h [0, 4] = Some 4" by (simp add: unpack_h_def)
  moreover have "bytes_at 2 2 ([0, 4] @ be_bytes 2 (int k)) = be_bytes 2 (int k)" by (simp add: bytes_at_def)
  ultimately show ?thesis using k unpack_be2 [of "int k"] by (simp add: tftp_parse_def parse_opcode_def)
qed

section \<open>The connection\<close>

lemma remdups_adj_snoc:
  "remdups_adj (xs @ [x]) = (if xs \<noteq> [] \<and> last xs = x then remdups_adj xs else remdups_adj xs @ [x])"
  by (induction xs rule: remdups_adj.induct) auto

lemma last_filter: "xs \<noteq> [] \<Longrightarrow> P (last xs) \<Longrightarrow> last (filter P xs) = last xs" "xs \<noteq> [] \<Longrightarrow> P (last xs) \<Longrightarrow> filter P xs \<noteq> []"
  by (induction xs rule: rev_induct) auto

lemma retransmit_serving: "serving data n c \<Longrightarrow> serving data n (retransmit c)"
  using last_filter [of "sent c" is_data]
  by (simp add: serving_def retransmit_def blocks_sent_def remdups_adj_snoc)

lemma data_pkt_inj:
  assumes "data_pkt data a = data_pkt data b" and "a < 2 ^ 15" and "b < 2 ^ 15"
  shows "a = b"
proof -
  have "be_bytes 2 (int (Suc a)) = be_bytes 2 (int (Suc b))"
    using arg_cong [OF assms(1), of "\<lambda>p. take 2 (drop 2 p)"] by (simp add: data_pkt_def del: of_nat_Suc)
  then show ?thesis using be2_inj [of "Suc a" "Suc b"] assms(2,3) by simp
qed

lemma pack_h_nat: "k < 2 ^ 15 \<Longrightarrow> pack_h (int k) = Some (be_bytes 2 (int k))"
  by (simp add: pack_h_def)

lemma send_block_serving:
  assumes s: "serving data n c" and a: "active c"
  shows "(if Suc (Suc n) < 2 ^ 15 then \<exists>c'. send_block c = (None, c') \<and> serving data (Suc n) c'
     else \<exists>c'. send_block c = (Some TStructError, c') \<and> sent c' = sent c)"
proof (cases "Suc (Suc n) < 2 ^ 15")
  case True
  have n: "blockNumber c + 1 = int (Suc (Suc n))" using s by (simp add: serving_def)
  have len: "512 * Suc n \<le> length data" using s a by (simp add: serving_def)
  let ?d = "bytes_at (512 * Suc n) 512 data"
  let ?p = "data_pkt data (Suc n)"
  let ?c = "c\<lparr>unread := drop (512 * Suc (Suc n)) data, blockNumber := int (Suc (Suc n)), sent := sent c @ [?p], lastpkt := ?p,
    active := (length ?d = 512)\<rparr>"
  have "send_block c = (None, ?c)"
    using s pack_h_nat [OF True] unfolding send_block_def sendData_def Let_def n
    by (simp add: serving_def n send_def data_pkt_def bytes_at_def)
  moreover have "blocks_sent ?c = map (data_pkt data) [0..<Suc (Suc n)]"
  proof -
    have "data_pkt data n \<noteq> ?p" using data_pkt_inj [of data n "Suc n"] True by auto
    moreover have "last (filter is_data (sent c)) = data_pkt data n" "blocks_sent c = map (data_pkt data) [0..<Suc n]"
      using s last_filter(1) [of "sent c" is_data] by (simp_all add: serving_def)
    ultimately show ?thesis by (simp add: blocks_sent_def remdups_adj_snoc)
  qed
  moreover have "length ?d = 512 \<longleftrightarrow> 512 * Suc (Suc n) \<le> length data" using len by (auto simp: bytes_at_def)
  ultimately show ?thesis using s True len by (simp add: serving_def)
next
  case False
  then have "pack_h (blockNumber c + 1) = None" using s by (simp add: serving_def pack_h_def)
  then show ?thesis using False by (simp add: send_block_def sendData_def Let_def)
qed

lemma serving_in_order: "serving data n c \<Longrightarrow> in_order data c"
  unfolding in_order_def serving_def by (rule exI [of _ "Suc n"]) simp

lemma in_order_sent: "in_order data c \<Longrightarrow> filter is_data (sent c') = filter is_data (sent c) \<Longrightarrow> in_order data c'"
  by (simp add: in_order_def blocks_sent_def)

lemma raised_in_order: "in_order data c \<Longrightarrow> in_order data (snd (raised e c))"
  by (cases e) (auto simp: raised_def sendError_def elim!: in_order_sent)

lemma recv_loop_serving: "recv_loop client k evs c = (r, evs', c') \<Longrightarrow> serving data n c \<Longrightarrow> serving data n c'"
  by (induction client k evs c rule: recv_loop.induct) (auto simp: retransmit_serving split: if_splits)

lemma dispatch_serving:
  assumes "serving data n c" and "active c" and "dispatch pkt c = (r, c')"
  shows "in_order data c' \<and> (r = None \<longrightarrow> (\<exists>m. serving data m c'))"
proof (cases pkt)
  case (PAck block)
  have "in_order data c" using assms(1) by (rule serving_in_order)
  then show ?thesis using assms PAck send_block_serving [OF assms(1,2)] serving_in_order in_order_sent [of data c c']
    by (auto simp: dispatch_def recvAck_def handleACK_def split: if_splits)
next
  case (PData block d)
  have "in_order data c" using assms(1) by (rule serving_in_order)
  then show ?thesis using assms PData
    by (auto simp: dispatch_def recvData_def handleDATA_def sendAck_def send_def Let_def
      split: if_splits option.splits elim!: in_order_sent)
qed (use assms serving_in_order [OF assms(1)] retransmit_serving [OF assms(1)] serving_in_order [OF retransmit_serving [OF assms(1)]]
  in \<open>auto simp: dispatch_def recvErr_def\<close>)

text \<open>Whatever the network brings, the blocks go out in order.\<close>

lemma serve_in_order: "serving data n c \<Longrightarrow> in_order data (snd (serve client evs c))"
proof (induction client evs c arbitrary: n rule: serve.induct)
  case (1 client evs c)
  show ?case
  proof (cases "active c")
    case True
    obtain r evs1 c1 where r: "recv_loop client (retry c) evs c = (r, evs1, c1)" by (cases "recv_loop client (retry c) evs c")
    have s1: "serving data n c1" using recv_loop_serving [OF r 1(2)] .
    then have a1: "active c1" using True 1(2) by (simp add: serving_def)
    note io = serving_in_order [OF s1]
    show ?thesis
    proof (cases "\<exists>d pkt. r = Some (Inr d) \<and> tftp_parse d = Inr pkt")
      case False
      then show ?thesis using True r io
        by (subst serve.simps) (auto simp: raised_in_order split: option.splits sum.splits)
    next
      case ok: True
      then obtain d pkt where d: "r = Some (Inr d)" "tftp_parse d = Inr pkt" by blast
      obtain e c2 where e: "dispatch pkt c1 = (e, c2)" by (cases "dispatch pkt c1")
      note ds = dispatch_serving [OF s1 a1 e]
      show ?thesis
      proof (cases e)
        case None
        then obtain m where "serving data m c2" using ds by blast
        then have "in_order data (snd (serve client evs1 c2))"
          using 1(1) True r d e None by simp
        then show ?thesis using True r d e None by (subst serve.simps) simp
      next
        case (Some x)
        then show ?thesis using True r d e ds by (subst serve.simps) (simp add: raised_in_order)
      qed
    qed
  qed (use 1(2) in \<open>simp add: serve.simps serving_in_order\<close>)
qed

lemma first_block:
  "\<exists>c. send_block (new_conn\<lparr>active := True, unread := data\<rparr>) = (None, c) \<and> serving data 0 c"
  by (auto simp: send_block_def sendData_def new_conn_def pack_h_def send_def serving_def data_pkt_def bytes_at_def
    blocks_sent_def is_data_def Let_def)

lemma connect_rrq:
  assumes "0 \<notin> set filename" and "0 \<notin> set mode" and "files filename = Some data"
  shows "\<exists>c. serving data 0 c \<and> connect files client (rrq_pkt filename mode) evs new_conn = serve client evs c"
  using first_block [of data] assms by (auto simp: connect_def parse_rrq handleRRQ_def Let_def)

lemma recv_loop_noise:
  assumes "length (filter (\<lambda>e. e = Timeout) evs) < k"
    and "list_all (\<lambda>e. case e of Timeout \<Rightarrow> True | Datagram addr d \<Rightarrow> addr \<noteq> client) evs" and "serving data n c"
  shows "\<exists>c'. recv_loop client k (evs @ Datagram client d # rest) c = (Some (Inr (take 516 d)), rest, c') \<and> serving data n c'"
  using assms
proof (induction evs arbitrary: k c)
  case Nil
  then show ?case by (cases k) (auto simp: serving_def)
next
  case (Cons e evs)
  then show ?case by (cases k; cases e) (auto simp: retransmit_serving)
qed

lemma full_blocks: "n \<le> l div 512 \<Longrightarrow> 512 * n \<le> (l::nat)"
  by (simp add: less_eq_div_iff_mult_less_eq mult.commute)

lemma acks_append: "acks client k (xs @ ys) = acks client k xs @ acks client (k + length xs) ys"
  by (induction xs arbitrary: k) auto

text \<open>A client that acknowledges each block drives the connection forward, block by block.\<close>

lemma serve_acks:
  assumes "serving data n c" and "n + length ns = m" and "m \<le> length data div 512" and "Suc m < 2 ^ 15"
    and "\<forall>evs\<in>set ns. is_noise client evs"
  shows "\<exists>c'. serving data m c' \<and> serve client (acks client (Suc n) ns @ rest) c = serve client rest c'"
  using assms
proof (induction ns arbitrary: n c)
  case (Cons evs ns)
  have n: "Suc n \<le> m" using Cons.prems(2) by simp
  then have "512 * Suc n \<le> length data" using full_blocks [of "Suc n" "length data"] Cons.prems(3) by linarith
  then have a: "active c" using Cons.prems(1) by (simp add: serving_def)
  have "retry c = 5" using Cons.prems(1) by (simp add: serving_def)
  then obtain c1 where r: "recv_loop client (retry c) (acks client (Suc n) (evs # ns) @ rest) c =
      (Some (Inr (take 516 (ack_pkt (Suc n)))), acks client (Suc (Suc n)) ns @ rest, c1)" "serving data n c1"
    using recv_loop_noise [of evs 5 client data n c] Cons.prems(1,5) by (fastforce simp: is_noise_def)
  have a1: "active c1" "blockNumber c1 = int (Suc n)" using r(2) a Cons.prems(1) by (auto simp: serving_def)
  obtain c2 where c2: "send_block c1 = (None, c2)" "serving data (Suc n) c2"
    using send_block_serving [OF r(2) a1(1)] n Cons.prems(4) by auto
  have p: "tftp_parse (take 516 (ack_pkt (Suc n))) = Inr (PAck (int (Suc n)))" using n Cons.prems(4) by (intro parse_ack) simp
  have "dispatch (PAck (int (Suc n))) c1 = (None, c2)"
    using a1 c2 by (simp add: dispatch_def recvAck_def handleACK_def)
  then have "serve client (acks client (Suc n) (evs # ns) @ rest) c = serve client (acks client (Suc (Suc n)) ns @ rest) c2"
    using a r(1) p by (subst serve.simps) (simp del: acks.simps)
  then show ?case using Cons.IH [OF c2(2)] Cons.prems by simp
qed auto

lemma concat_blocks: "concat (map (\<lambda>k. bytes_at (512 * k) 512 data) [0..<n]) = take (512 * n) data"
proof (induction n)
  case (Suc n)
  then show ?case using take_add [of "512 * n" 512 data] by (simp add: bytes_at_def add.commute)
qed simp

lemma payload: "drop 4 (data_pkt data k) = bytes_at (512 * k) 512 data"
  by (simp add: data_pkt_def)

lemma serving_complete:
  "serving data (length data div 512) c \<Longrightarrow> concat (map (drop 4) (blocks_sent c)) = data"
  using concat_blocks [of data "Suc (length data div 512)"]
  by (simp add: serving_def payload comp_def del: upt_Suc mult_Suc_right) (simp add: bytes_at_def)

lemma serve_not_active: "\<not> active c \<Longrightarrow> serve client evs c = (Finished, c)"
  by (simp add: serve.simps)

text \<open>
  C36.  A read request for an existing file is served in order: whatever timeouts and datagrams the
  network brings, in any order and number, the data packets of the connection, without immediate
  repetitions, are the first blocks of the file with their numbers.  If each of the full blocks is
  acknowledged before the fifth timeout, the connection ends normally and the packets carry exactly
  the file, for every file of less than 32767 full blocks.
\<close>

theorem tftp_serves_file:
  assumes "0 \<notin> set filename" and "0 \<notin> set mode" and "files filename = Some data"
  shows "in_order data (snd (connect files client (rrq_pkt filename mode) evs new_conn)) \<and>
    (length ns = length data div 512 \<and> length data div 512 < 32767 \<and> (\<forall>n\<in>set ns. is_noise client n) \<longrightarrow>
       (\<exists>c. connect files client (rrq_pkt filename mode) (acks client 1 ns) new_conn = (Finished, c) \<and>
          concat (map (drop 4) (blocks_sent c)) = data))"
proof (intro conjI impI)
  show "in_order data (snd (connect files client (rrq_pkt filename mode) evs new_conn))"
    using connect_rrq [of filename mode files, OF assms] serve_in_order by metis
  assume ns: "length ns = length data div 512 \<and> length data div 512 < 32767 \<and> (\<forall>n\<in>set ns. is_noise client n)"
  obtain c where c: "serving data 0 c" "connect files client (rrq_pkt filename mode) (acks client 1 ns) new_conn = serve client (acks client 1 ns) c"
    using connect_rrq [of filename mode files, OF assms] by blast
  obtain c' where c': "serving data (length data div 512) c'" "serve client (acks client 1 ns) c = serve client [] c'"
    using serve_acks [OF c(1), of ns "length data div 512" client "[]"] ns by auto
  have "\<not> active c'" using c'(1) by (auto simp: serving_def)
  then show "\<exists>c. connect files client (rrq_pkt filename mode) (acks client 1 ns) new_conn = (Finished, c) \<and>
      concat (map (drop 4) (blocks_sent c)) = data"
    using c(2) c' serving_complete by (simp add: serve_not_active)
qed

text \<open>A file of 600 bytes: one block, a timeout, its acknowledgement, and the short last block.\<close>

theorem tftp_serves_file_witness:
  "\<exists>c. connect (\<lambda>f. if f = [0x62] then Some (replicate 600 7) else None) 9 (rrq_pkt [0x62] [0x6f])
      [Timeout, Datagram 3 [1], Datagram 9 (ack_pkt 1)] new_conn = (Finished, c) \<and>
     concat (map (drop 4) (blocks_sent c)) = replicate 600 7"
  using tftp_serves_file [of "[0x62]" "[0x6f]" "\<lambda>f. if f = [0x62] then Some (replicate 600 7) else None" "replicate 600 7" 9 "[]"
    "[[Timeout, Datagram 3 [1]]]"]
  by (simp add: is_noise_def)

text \<open>
  The block number is packed as a signed number of 16 bits.  A file of 32767 full blocks or more ends
  the thread of the connection with an exception after block 32767, without a packet to the client.
\<close>

theorem tftp_large_file_dies:
  assumes "0 \<notin> set filename" and "0 \<notin> set mode" and "files filename = Some data"
    and "32767 \<le> length data div 512" and "length ns = 32767" and "\<forall>n\<in>set ns. is_noise client n"
  shows "\<exists>c. connect files client (rrq_pkt filename mode) (acks client 1 ns) new_conn = (Died TStructError, c) \<and>
    length (blocks_sent c) = 32767"
proof -
  obtain c where c: "serving data 0 c" "connect files client (rrq_pkt filename mode) (acks client 1 ns) new_conn = serve client (acks client 1 ns) c"
    using connect_rrq [of filename mode files, OF assms(1-3)] by blast
  define ks where "ks = take 32766 ns"
  define n where "n = ns ! 32766"
  have ns: "ns = ks @ [n]" "length ks = 32766"
    using assms(5) take_Suc_conv_app_nth [of 32766 ns] by (simp_all add: ks_def n_def)
  have noise: "is_noise client n" "\<forall>k\<in>set ks. is_noise client k" using assms(6) ns(1) by auto
  have "acks client 1 ns = acks client 1 ks @ n @ [Datagram client (ack_pkt 32767)]"
    using ns acks_append [of client 1 ks "[n]"] by simp
  then obtain c1 where c1: "serving data 32766 c1" "serve client (acks client 1 ns) c = serve client (n @ [Datagram client (ack_pkt 32767)]) c1"
    using serve_acks [OF c(1), of ks 32766 client "n @ [Datagram client (ack_pkt 32767)]"] ns(2) noise(2) assms(4) by auto
  have "512 * Suc 32766 \<le> length data" using full_blocks [of "Suc 32766" "length data"] assms(4) by simp
  then have a: "active c1" "retry c1 = 5" using c1(1) by (auto simp: serving_def)
  obtain c2 where r: "recv_loop client 5 (n @ [Datagram client (ack_pkt 32767)]) c1 = (Some (Inr (take 516 (ack_pkt 32767))), [], c2)"
    "serving data 32766 c2"
    using recv_loop_noise [of n 5 client data 32766 c1 "ack_pkt 32767" "[]"] noise(1) c1(1) by (auto simp: is_noise_def)
  have a2: "active c2" "blockNumber c2 = 32767" using a(1) c1(1) r(2) by (simp_all add: serving_def)
  obtain c3 where c3: "send_block c2 = (Some TStructError, c3)" "sent c3 = sent c2"
    using send_block_serving [OF r(2) a2(1)] by auto
  have "serve client (n @ [Datagram client (ack_pkt 32767)]) c1 = (Died TStructError, c3)"
    using a r(1) parse_ack [of 32767] a2 c3(1)
    by (subst serve.simps) (simp add: dispatch_def recvAck_def handleACK_def raised_def)
  moreover have "length (blocks_sent c3) = 32767" using r(2) c3(2) by (simp add: serving_def blocks_sent_def del: upt_Suc)
  ultimately show ?thesis using c(2) c1(2) by simp
qed

text \<open>The reply to a BOOTP request has its size and keeps what identifies the request.\<close>

lemma bytes_at_rules:
  "length (bytes_at a n s) = min n (length s - a)"
  "length xs \<le> a \<Longrightarrow> bytes_at a n (xs @ ys) = bytes_at (a - length xs) n ys"
  "a + n \<le> length xs \<Longrightarrow> bytes_at a n (xs @ ys) = bytes_at a n xs"
  "a + n \<le> m \<Longrightarrow> bytes_at a n (bytes_at b m s) = bytes_at (b + a) n s"
  "bytes_at 0 (length xs) xs = xs"
  by (auto simp: bytes_at_def take_drop min_def add.commute)

theorem bootp_reply_fields:
  assumes "length TFTP_HOST = 4" and "bootp_server TFTP_HOST data = Some reply"
  shows "length reply = 300 \<and> bytes_at 4 4 reply = bytes_at 4 4 data \<and> bytes_at 20 4 reply = TFTP_HOST \<and>
    bytes_at 28 16 reply = bytes_at 28 16 data \<and> bytes_at 108 7 reply = KERNEL_IMAGE_BIN"
proof -
  have l: "length data = 300" using assms(2) by (simp add: bootp_server_def split: if_splits)
  let ?f = "take 128 (pad_to 128 0 KERNEL_IMAGE_BIN)"
  have f: "length ?f = 128" "bytes_at 0 7 ?f = KERNEL_IMAGE_BIN"
    by (simp_all add: KERNEL_IMAGE_BIN_def string_bytes_def pad_to_def bytes_at_def)
  have r: "reply = [2] @ bytes_at 1 9 data @ [0, 0] @ bytes_at 12 4 data @ [192, 168, 0, 159] @ TFTP_HOST @
      bytes_at 24 84 data @ ?f @ bytes_at 236 64 data"
    using assms(2) l by (simp add: bootp_server_def)
  have h: "bytes_at 0 4 TFTP_HOST = TFTP_HOST" using bytes_at_rules(5) [of TFTP_HOST] assms(1) by simp
  have n: "length [2 :: u8] = 1" "length [0 :: u8, 0] = 2" "length [192 :: u8, 168, 0, 159] = 4" by simp_all
  note simps = bytes_at_rules(1-4) l n f assms(1) h
  have "length reply = 300" unfolding r by (simp add: simps)
  moreover have "bytes_at 4 4 reply = bytes_at 4 4 data" unfolding r by (simp add: simps del: append.simps)
  moreover have "bytes_at 20 4 reply = TFTP_HOST" unfolding r by (simp add: simps del: append.simps)
  moreover have "bytes_at 28 16 reply = bytes_at 28 16 data" unfolding r by (simp add: simps del: append.simps)
  moreover have "bytes_at 108 7 reply = KERNEL_IMAGE_BIN" unfolding r by (simp add: simps del: append.simps)
  ultimately show ?thesis by blast
qed

end
