(* ===== verification/Fw_Cfg.thy ===== *)
theory Fw_Cfg
  imports Prelude
begin

text \<open>
  The firmware configuration device (\<^verbatim>\<open>hw/fw_cfg.c\<close>), through which the BIOS reads tables and files
  from the emulator.  Entries point to host buffers, and the file directory is changed in place
  after its entry was made, so buffers live in a store: \<open>mem\<close> lists them, a pointer is an index, and
  \<^const>\<open>None\<close> is the null pointer.  An access outside the entry table, through a null pointer or to a
  null callback has no defined result: the operation returns \<^const>\<open>None\<close>.
\<close>

section \<open>Model\<close>

abbreviation (input) FW_CFG_SIGNATURE :: u16 where "FW_CFG_SIGNATURE \<equiv> 0x00"
abbreviation (input) FW_CFG_UUID :: u16 where "FW_CFG_UUID \<equiv> 0x02"
abbreviation (input) FW_CFG_NOGRAPHIC :: u16 where "FW_CFG_NOGRAPHIC \<equiv> 0x04"
abbreviation (input) FW_CFG_NB_CPUS :: u16 where "FW_CFG_NB_CPUS \<equiv> 0x05"
abbreviation (input) FW_CFG_BOOT_MENU :: u16 where "FW_CFG_BOOT_MENU \<equiv> 0x0e"
abbreviation (input) FW_CFG_MAX_CPUS :: u16 where "FW_CFG_MAX_CPUS \<equiv> 0x0f"
abbreviation (input) FW_CFG_FILE_DIR :: u16 where "FW_CFG_FILE_DIR \<equiv> 0x19"
abbreviation (input) FW_CFG_FILE_FIRST :: u16 where "FW_CFG_FILE_FIRST \<equiv> 0x20"
abbreviation (input) FW_CFG_FILE_SLOTS :: nat where "FW_CFG_FILE_SLOTS \<equiv> 0x10"
abbreviation (input) FW_CFG_MAX_ENTRY :: u16 where "FW_CFG_MAX_ENTRY \<equiv> 0x30"
abbreviation (input) FW_CFG_WRITE_CHANNEL :: u16 where "FW_CFG_WRITE_CHANNEL \<equiv> 0x4000"
abbreviation (input) FW_CFG_ARCH_LOCAL :: u16 where "FW_CFG_ARCH_LOCAL \<equiv> 0x8000"
abbreviation (input) FW_CFG_ENTRY_MASK :: u16 where "FW_CFG_ENTRY_MASK \<equiv> 0x3fff"
abbreviation (input) FW_CFG_INVALID :: u16 where "FW_CFG_INVALID \<equiv> 0xffff"

record 'w FWCfgEntry =
  fw_len :: u32
  fw_data :: "nat option"
  fw_callback :: "(u8 list \<Rightarrow> 'w \<Rightarrow> 'w) option"

record 'w FWCfgState =
  entries :: "bool \<Rightarrow> u16 \<Rightarrow> 'w FWCfgEntry"
  fw_files :: "nat option"
  cur_entry :: u16
  cur_offset :: u32
  mem :: "u8 list list"
  world :: 'w

definition arch_of :: "u16 \<Rightarrow> bool" where
  "arch_of key \<longleftrightarrow> key AND FW_CFG_ARCH_LOCAL \<noteq> 0"

definition cur :: "'w FWCfgState \<Rightarrow> 'w FWCfgEntry" where
  "cur s = entries s (arch_of (cur_entry s)) (cur_entry s AND FW_CFG_ENTRY_MASK)"

definition in_table :: "'w FWCfgState \<Rightarrow> bool" where
  "in_table s \<longleftrightarrow> cur_entry s AND FW_CFG_ENTRY_MASK < FW_CFG_MAX_ENTRY"

text \<open>Reading and writing a byte of a buffer; outside of it nothing is defined.\<close>

definition buf_get :: "u8 list list \<Rightarrow> nat option \<Rightarrow> nat \<Rightarrow> u8 option" where
  "buf_get m p i = (case p of None \<Rightarrow> None
     | Some b \<Rightarrow> if b < length m \<and> i < length (m ! b) then Some (m ! b ! i) else None)"

definition buf_put :: "u8 list list \<Rightarrow> nat option \<Rightarrow> nat \<Rightarrow> u8 \<Rightarrow> (u8 list list) option" where
  "buf_put m p i v = (case p of None \<Rightarrow> None
     | Some b \<Rightarrow> if b < length m \<and> i < length (m ! b) then Some (m[b := (m ! b)[i := v]]) else None)"

definition fw_cfg_write :: "u8 \<Rightarrow> 'w FWCfgState \<Rightarrow> 'w FWCfgState option" where
  "fw_cfg_write value s =
     (if cur_entry s AND FW_CFG_WRITE_CHANNEL \<noteq> 0 then
        (if \<not> in_table s then None
         else if cur_offset s < fw_len (cur s) then
           (case buf_put (mem s) (fw_data (cur s)) (unat (cur_offset s)) value of
              None \<Rightarrow> None
            | Some m \<Rightarrow>
                (let s1 = s\<lparr>mem := m, cur_offset := cur_offset s + 1\<rparr> in
                 if cur_offset s1 = fw_len (cur s1) then
                   (case fw_callback (cur s1) of
                      None \<Rightarrow> None
                    | Some cb \<Rightarrow> Some (s1\<lparr>world := cb (m ! the (fw_data (cur s1))) (world s1), cur_offset := 0\<rparr>))
                 else Some s1))
         else Some s)
      else Some s)"

definition fw_cfg_select :: "u16 \<Rightarrow> 'w FWCfgState \<Rightarrow> nat \<times> 'w FWCfgState" where
  "fw_cfg_select key s =
     (let s1 = s\<lparr>cur_offset := 0\<rparr> in
      if key AND FW_CFG_ENTRY_MASK \<ge> FW_CFG_MAX_ENTRY then (0, s1\<lparr>cur_entry := FW_CFG_INVALID\<rparr>)
      else (1, s1\<lparr>cur_entry := key\<rparr>))"

definition fw_cfg_read :: "'w FWCfgState \<Rightarrow> (u8 \<times> 'w FWCfgState) option" where
  "fw_cfg_read s =
     (if cur_entry s = FW_CFG_INVALID then Some (0, s)
      else if \<not> in_table s then None
      else if fw_data (cur s) = None \<or> cur_offset s \<ge> fw_len (cur s) then Some (0, s)
      else (case buf_get (mem s) (fw_data (cur s)) (unat (cur_offset s)) of
              None \<Rightarrow> None
            | Some v \<Rightarrow> Some (v, s\<lparr>cur_offset := cur_offset s + 1\<rparr>)))"

definition fw_cfg_io_readb :: "u32 \<Rightarrow> 'w FWCfgState \<Rightarrow> (u32 \<times> 'w FWCfgState) option" where
  "fw_cfg_io_readb addr s = map_option (\<lambda>(v, s1). (ucast v, s1)) (fw_cfg_read s)"

definition fw_cfg_io_writeb :: "u32 \<Rightarrow> u32 \<Rightarrow> 'w FWCfgState \<Rightarrow> 'w FWCfgState option" where
  "fw_cfg_io_writeb addr value s = fw_cfg_write (ucast value) s"

definition fw_cfg_io_writew :: "u32 \<Rightarrow> u32 \<Rightarrow> 'w FWCfgState \<Rightarrow> 'w FWCfgState" where
  "fw_cfg_io_writew addr value s = snd (fw_cfg_select (ucast value) s)"

definition fw_cfg_reset :: "'w FWCfgState \<Rightarrow> 'w FWCfgState" where
  "fw_cfg_reset s = snd (fw_cfg_select 0 s)"

definition fw_cfg_add_bytes :: "u16 \<Rightarrow> nat option \<Rightarrow> u32 \<Rightarrow> 'w FWCfgState \<Rightarrow> nat \<times> 'w FWCfgState" where
  "fw_cfg_add_bytes key data len s =
     (let a = arch_of key; k = key AND FW_CFG_ENTRY_MASK in
      if k \<ge> FW_CFG_MAX_ENTRY then (0, s)
      else (1, s\<lparr>entries := (entries s)(a := (entries s a)(k := (entries s a k)\<lparr>fw_data := data, fw_len := len\<rparr>))\<rparr>))"

text \<open>\<^verbatim>\<open>qemu_malloc\<close> and the initialisation of the new buffer.\<close>

definition new_buf :: "u8 list \<Rightarrow> 'w FWCfgState \<Rightarrow> nat \<times> 'w FWCfgState" where
  "new_buf bs s = (length (mem s), s\<lparr>mem := mem s @ [bs]\<rparr>)"

definition fw_cfg_add_i16 :: "u16 \<Rightarrow> u16 \<Rightarrow> 'w FWCfgState \<Rightarrow> nat \<times> 'w FWCfgState" where
  "fw_cfg_add_i16 key value s = (let (p, s1) = new_buf (to_le 2 value) s in fw_cfg_add_bytes key (Some p) 2 s1)"

definition fw_cfg_add_i32 :: "u16 \<Rightarrow> u32 \<Rightarrow> 'w FWCfgState \<Rightarrow> nat \<times> 'w FWCfgState" where
  "fw_cfg_add_i32 key value s = (let (p, s1) = new_buf (to_le 4 value) s in fw_cfg_add_bytes key (Some p) 4 s1)"

definition fw_cfg_add_i64 :: "u16 \<Rightarrow> u64 \<Rightarrow> 'w FWCfgState \<Rightarrow> nat \<times> 'w FWCfgState" where
  "fw_cfg_add_i64 key value s = (let (p, s1) = new_buf (to_le 8 value) s in fw_cfg_add_bytes key (Some p) 8 s1)"

definition fw_cfg_add_callback ::
  "u16 \<Rightarrow> (u8 list \<Rightarrow> 'w \<Rightarrow> 'w) option \<Rightarrow> nat option \<Rightarrow> nat \<Rightarrow> 'w FWCfgState \<Rightarrow> nat \<times> 'w FWCfgState" where
  "fw_cfg_add_callback key callback data len s =
     (let a = arch_of key; k = key AND FW_CFG_ENTRY_MASK in
      if key AND FW_CFG_WRITE_CHANNEL = 0 then (0, s)
      else if k \<ge> FW_CFG_MAX_ENTRY \<or> len > 65535 then (0, s)
      else (1, s\<lparr>entries := (entries s)(a := (entries s a)(k :=
             \<lparr>fw_len = of_nat len, fw_data = data, fw_callback = callback\<rparr>))\<rparr>))"

text \<open>
  The directory \<^verbatim>\<open>FWCfgFiles\<close> in memory: a count and sixteen records of 64 bytes with size, selector,
  two reserved bytes and a name of 56 bytes, the numbers in big-endian order.
\<close>

definition to_be :: "nat \<Rightarrow> 'a::len word \<Rightarrow> u8 list" where
  "to_be n w = rev (to_le n w)"

definition of_be :: "u8 list \<Rightarrow> 'a::len word" where
  "of_be bs = of_le (rev bs)"

definition overwrite :: "nat \<Rightarrow> u8 list \<Rightarrow> u8 list \<Rightarrow> u8 list" where
  "overwrite a xs bs = take a bs @ xs @ drop (a + length xs) bs"

definition pstrcpy :: "nat \<Rightarrow> u8 list \<Rightarrow> u8 list" where
  "pstrcpy buf_size str = take (buf_size - 1) str @ [0]"

definition file_at :: "nat \<Rightarrow> nat" where
  "file_at i = 4 + 64 * i"

definition name_of :: "nat \<Rightarrow> u8 list \<Rightarrow> u8 list" where
  "name_of i dir = takeWhile (\<lambda>c. c \<noteq> 0) (take 56 (drop (file_at i + 8) dir))"

definition on_buf :: "nat \<Rightarrow> (u8 list \<Rightarrow> u8 list) \<Rightarrow> 'w FWCfgState \<Rightarrow> 'w FWCfgState" where
  "on_buf b f s = s\<lparr>mem := (mem s)[b := f (mem s ! b)]\<rparr>"

definition files_dir :: "'w FWCfgState \<Rightarrow> nat \<times> 'w FWCfgState" where
  "files_dir s =
     (case fw_files s of
        Some b \<Rightarrow> (b, s)
      | None \<Rightarrow>
          (let (b, s1) = new_buf (replicate (4 + 64 * FW_CFG_FILE_SLOTS) 0) s
           in (b, snd (fw_cfg_add_bytes FW_CFG_FILE_DIR (Some b) 1028 (s1\<lparr>fw_files := Some b\<rparr>)))))"

text \<open>A count above the number of slots, which only the guest could have stored, leads outside the buffer.\<close>

definition fw_cfg_add_file :: "u8 list \<Rightarrow> nat option \<Rightarrow> u32 \<Rightarrow> 'w FWCfgState \<Rightarrow> (nat \<times> 'w FWCfgState) option" where
  "fw_cfg_add_file filename data len s =
     (let (b, s1) = files_dir s; index = unat (of_be (take 4 (mem s1 ! b)) :: u32) in
      if index = FW_CFG_FILE_SLOTS then Some (0, s1)
      else if index > FW_CFG_FILE_SLOTS then None
      else
        (let s2 = snd (fw_cfg_add_bytes (FW_CFG_FILE_FIRST + of_nat index) data len s1);
             s3 = on_buf b (overwrite (file_at index + 8) (pstrcpy 56 filename)) s2 in
         if list_ex (\<lambda>i. name_of index (mem s3 ! b) = name_of i (mem s3 ! b)) [0..<index] then Some (1, s3)
         else
           (let s4 = on_buf b (overwrite (file_at index) (to_be 4 len)) s3;
                s5 = on_buf b (overwrite (file_at index + 4) (to_be 2 (FW_CFG_FILE_FIRST + of_nat index))) s4;
                s6 = on_buf b (overwrite 0 (to_be 4 (of_nat (index + 1) :: u32))) s5
            in Some (1, s6))))"

text \<open>The machine is ready: the boot order becomes a file.\<close>

definition bootorder :: "u8 list" where
  "bootorder = map of_char ''bootorder''"

definition fw_cfg_machine_ready :: "nat option \<Rightarrow> u32 \<Rightarrow> 'w FWCfgState \<Rightarrow> 'w FWCfgState option" where
  "fw_cfg_machine_ready bootindex len s = map_option snd (fw_cfg_add_file bootorder bootindex len s)"

definition empty_fw :: "'w \<Rightarrow> 'w FWCfgState" where
  "empty_fw w = \<lparr>entries = \<lambda>_ _. \<lparr>fw_len = 0, fw_data = None, fw_callback = None\<rparr>, fw_files = None, cur_entry = 0,
     cur_offset = 0, mem = [], world = w\<rparr>"

text \<open>The entries that the device starts with; \<open>uuid\<close> and the numbers come from the command line.\<close>

definition fw_cfg_init :: "u8 list \<Rightarrow> bool \<Rightarrow> u16 \<Rightarrow> u16 \<Rightarrow> u16 \<Rightarrow> 'w \<Rightarrow> 'w FWCfgState" where
  "fw_cfg_init uuid nographic smp_cpus max_cpus boot_menu w =
     (let (p, s1) = new_buf (map of_char ''QEMU'') (empty_fw w);
          s2 = snd (fw_cfg_add_bytes FW_CFG_SIGNATURE (Some p) 4 s1);
          (q, s3) = new_buf uuid s2;
          s4 = snd (fw_cfg_add_bytes FW_CFG_UUID (Some q) 16 s3);
          s5 = snd (fw_cfg_add_i16 FW_CFG_NOGRAPHIC (if nographic then 1 else 0) s4);
          s6 = snd (fw_cfg_add_i16 FW_CFG_NB_CPUS smp_cpus s5);
          s7 = snd (fw_cfg_add_i16 FW_CFG_MAX_CPUS max_cpus s6)
      in snd (fw_cfg_add_i16 FW_CFG_BOOT_MENU boot_menu s7))"

section \<open>Specification\<close>

datatype fw_op = Select u32 | ReadB | WriteB u32

text \<open>The accesses of the guest through the two ports, with the bytes it reads.\<close>

fun guest_run :: "fw_op list \<Rightarrow> 'w FWCfgState \<Rightarrow> (u32 list \<times> 'w FWCfgState) option" where
  "guest_run [] s = Some ([], s)"
| "guest_run (Select v # ops) s = guest_run ops (fw_cfg_io_writew 0x510 v s)"
| "guest_run (ReadB # ops) s =
     (case fw_cfg_io_readb 0x511 s of None \<Rightarrow> None
      | Some (v, s1) \<Rightarrow> map_option (\<lambda>(vs, s2). (v # vs, s2)) (guest_run ops s1))"
| "guest_run (WriteB v # ops) s =
     (case fw_cfg_io_writeb 0x511 v s of None \<Rightarrow> None | Some s1 \<Rightarrow> guest_run ops s1)"

text \<open>The host registers files, each with a buffer of its own.\<close>

fun add_files :: "(u8 list \<times> u8 list) list \<Rightarrow> 'w FWCfgState \<Rightarrow> 'w FWCfgState option" where
  "add_files [] s = Some s"
| "add_files ((name, data) # fs) s =
     (let (p, s1) = new_buf data s in
      case fw_cfg_add_file name (Some p) (of_nat (length data)) s1 of
        None \<Rightarrow> None | Some (r, s2) \<Rightarrow> add_files fs s2)"

definition file_ok :: "u8 list \<times> u8 list \<Rightarrow> bool" where
  "file_ok f \<longleftrightarrow> length (fst f) < 56 \<and> 0 \<notin> set (fst f) \<and> length (snd f) < 2 ^ 32"

definition file_rec :: "nat \<Rightarrow> u8 list \<times> u8 list \<Rightarrow> u8 list" where
  "file_rec j f = to_be 4 (of_nat (length (snd f)) :: u32) @ to_be 2 (0x20 + of_nat j :: u16) @ [0, 0] @
     fst f @ replicate (56 - length (fst f)) 0"

definition file_recs :: "(u8 list \<times> u8 list) list \<Rightarrow> u8 list list" where
  "file_recs fs = map (\<lambda>j. file_rec j (fs ! j)) [0..<length fs]"

definition dir_bytes :: "(u8 list \<times> u8 list) list \<Rightarrow> u8 list" where
  "dir_bytes fs = to_be 4 (of_nat (length fs) :: u32) @ concat (file_recs fs) @ replicate (64 * (16 - length fs)) 0"

text \<open>The bytes that an entry offers, and entries whose buffer holds at least their length.\<close>

definition entry_bytes :: "u8 list list \<Rightarrow> 'w FWCfgEntry \<Rightarrow> u8 list" where
  "entry_bytes m e = (case fw_data e of None \<Rightarrow> [] | Some b \<Rightarrow> take (unat (fw_len e)) (m ! b))"

definition entry_ok :: "u8 list list \<Rightarrow> 'w FWCfgEntry \<Rightarrow> bool" where
  "entry_ok m e \<longleftrightarrow> (case fw_data e of None \<Rightarrow> True | Some b \<Rightarrow> b < length m \<and> unat (fw_len e) \<le> length (m ! b))"

definition holds :: "'w FWCfgState \<Rightarrow> u16 \<Rightarrow> u8 list \<Rightarrow> bool" where
  "holds s k bs \<longleftrightarrow> entry_ok (mem s) (entries s False k) \<and> entry_bytes (mem s) (entries s False k) = bs"

definition dir_inv :: "(u8 list \<times> u8 list) list \<Rightarrow> nat \<Rightarrow> 'w FWCfgState \<Rightarrow> bool" where
  "dir_inv fs b s \<longleftrightarrow> fw_files s = Some b \<and> b < length (mem s) \<and> mem s ! b = dir_bytes fs \<and> length fs \<le> 16 \<and>
     fw_data (entries s False 0x19) = Some b \<and> fw_len (entries s False 0x19) = 1028 \<and>
     (\<forall>j<length fs. \<exists>p<length (mem s). p \<noteq> b \<and> mem s ! p = snd (fs ! j) \<and>
        fw_data (entries s False (0x20 + of_nat j)) = Some p \<and>
        fw_len (entries s False (0x20 + of_nat j)) = of_nat (length (snd (fs ! j))))"

definition byte_or_zero :: "u8 list \<Rightarrow> nat \<Rightarrow> nat \<Rightarrow> u32" where
  "byte_or_zero bs k i = (if k + i < length bs then ucast (bs ! (k + i)) else 0)"

section \<open>Reading an entry\<close>

lemma in_table_valid: "in_table s \<Longrightarrow> cur_entry s \<noteq> FW_CFG_INVALID"
  by (auto simp: in_table_def)

lemma read_step:
  assumes "in_table s" and "entry_ok (mem s) (cur s)"
  defines "bs \<equiv> entry_bytes (mem s) (cur s)" and "k \<equiv> unat (cur_offset s)"
  shows "fw_cfg_read s = Some (if k < length bs then (bs ! k, s\<lparr>cur_offset := cur_offset s + 1\<rparr>) else (0, s))"
proof (cases "fw_data (cur s)")
  case None
  then show ?thesis using assms in_table_valid [OF assms(1)] by (simp add: fw_cfg_read_def entry_bytes_def)
next
  case (Some b)
  then have l: "length bs = unat (fw_len (cur s))" "b < length (mem s)" "unat (fw_len (cur s)) \<le> length (mem s ! b)"
    using assms(2) by (auto simp: bs_def entry_bytes_def entry_ok_def)
  have "k < length bs \<longleftrightarrow> \<not> cur_offset s \<ge> fw_len (cur s)" by (simp add: l(1) k_def word_le_nat_alt not_le)
  then show ?thesis using Some l in_table_valid [OF assms(1)] assms(1)
    by (auto simp: fw_cfg_read_def buf_get_def bs_def entry_bytes_def k_def)
qed

lemma guest_reads:
  assumes "in_table s" and "entry_ok (mem s) (cur s)"
  shows "\<exists>s'. guest_run (replicate n ReadB) s =
    Some (map (byte_or_zero (entry_bytes (mem s) (cur s)) (unat (cur_offset s))) [0..<n], s')"
  using assms
proof (induction n arbitrary: s)
  case 0
  then show ?case by simp
next
  case (Suc n)
  let ?bs = "entry_bytes (mem s) (cur s)" and ?k = "unat (cur_offset s)"
  note r = read_step [OF Suc.prems]
  show ?case
  proof (cases "?k < length ?bs")
    case True
    let ?s = "s\<lparr>cur_offset := cur_offset s + 1\<rparr>"
    have s: "cur ?s = cur s" "in_table ?s" using Suc.prems by (simp_all add: cur_def in_table_def)
    have "length ?bs < 2 ^ 32" using unat_less [of "fw_len (cur s)"] by (auto simp: entry_bytes_def split: option.splits)
    then have k: "unat (cur_offset s + 1) = Suc ?k" using True by (subst unat_add_lem [THEN iffD1]) auto
    obtain s' where "guest_run (replicate n ReadB) ?s = Some (map (byte_or_zero ?bs (Suc ?k)) [0..<n], s')"
      using Suc.IH [of ?s] Suc.prems s k by auto
    then show ?thesis using r True
      by (simp add: fw_cfg_io_readb_def map_upt_Suc byte_or_zero_def del: upt_Suc)
  next
    case False
    obtain s' where "guest_run (replicate n ReadB) s = Some (map (byte_or_zero ?bs ?k) [0..<n], s')"
      using Suc.IH [OF Suc.prems] by auto
    then show ?thesis using r False by (simp add: fw_cfg_io_readb_def map_upt_Suc byte_or_zero_def del: upt_Suc)
  qed
qed

lemma ucast_key [simp]: "ucast (ucast (key :: u16) :: u32) = key"
  by (rule bit_word_eqI) (simp add: bit_simps)

lemma small_key:
  assumes "key < 0x30"
  shows "key AND 0x3fff = key" "\<not> arch_of key" "\<not> bit key 14"
proof -
  have u: "unat key < 2 ^ 6" using assms by (simp add: word_less_nat_alt)
  have "unat (key AND mask 14) = unat key" using u by (simp only: unat_and_mask) simp
  then have "key AND mask 14 = key" by (rule unsigned_word_eqI)
  then show "key AND 0x3fff = key" by (simp add: mask_numeral)
  show "\<not> arch_of key" "\<not> bit key 14" using u not_bit_small [of key 6] by (simp_all add: arch_of_def masks)
qed

lemma guest_reads_entry:
  assumes "key < 0x30" and "holds s key bs"
  shows "\<exists>s'. guest_run (Select (ucast key) # replicate (length bs) ReadB) s = Some (map ucast bs, s')"
proof -
  let ?s = "fw_cfg_io_writew 0x510 (ucast key) s"
  have k: "key AND 0x3fff = key" "\<not> arch_of key" using small_key [OF assms(1)] by auto
  have "?s = s\<lparr>cur_offset := 0, cur_entry := key\<rparr>"
    using assms(1) k by (simp add: fw_cfg_io_writew_def fw_cfg_select_def not_le Let_def)
  then have "in_table ?s" "cur ?s = entries s False key" "mem ?s = mem s" "cur_offset ?s = 0"
    using assms(1) k by (simp_all add: in_table_def cur_def)
  moreover have "map (byte_or_zero bs 0) [0..<length bs] = map ucast bs"
    by (rule nth_equalityI) (simp_all add: byte_or_zero_def)
  ultimately show ?thesis using guest_reads [of ?s "length bs"] assms(2) by (simp add: holds_def)
qed

section \<open>The directory\<close>

lemma overwrite_mid: "length ys = length zs \<Longrightarrow> overwrite (length xs) ys (xs @ zs @ rest) = xs @ ys @ rest"
  by (simp add: overwrite_def)

lemma length_to_be [simp]: "length (to_be n w) = n"
  by (simp add: to_be_def)

lemma length_file_rec [simp]: "file_ok f \<Longrightarrow> length (file_rec j f) = 64"
  by (simp add: file_rec_def file_ok_def)

lemma length_concat_64: "\<forall>r\<in>set rs. length r = 64 \<Longrightarrow> length (concat rs) = 64 * length rs"
  by (induction rs) auto

lemma drop_concat_64: "\<forall>r\<in>set rs. length r = 64 \<Longrightarrow> i \<le> length rs \<Longrightarrow> drop (64 * i) (concat rs) = concat (drop i rs)"
proof (induction rs arbitrary: i)
  case (Cons r rs)
  then show ?case by (cases i) auto
qed simp

lemma file_recs_64:
  assumes "\<forall>f\<in>set fs. file_ok f"
  shows "\<forall>r\<in>set (file_recs fs). length r = 64" "length (file_recs fs) = length fs"
  using assms by (auto simp: file_recs_def)

lemma file_recs_snoc: "file_recs (fs @ [f]) = file_recs fs @ [file_rec (length fs) f]"
  by (auto simp: file_recs_def nth_append)

lemma count_of_dir: "length fs \<le> 16 \<Longrightarrow> unat (of_be (take 4 (dir_bytes fs)) :: u32) = length fs"
  by (simp add: dir_bytes_def of_be_def to_be_def of_le_to_le_full unat_of_nat_small)

lemma takeWhile_name: "0 \<notin> set n \<Longrightarrow> takeWhile (\<lambda>c. c \<noteq> 0) (n @ 0 # r) = n"
  by (induction n) auto

lemma name_of_rec:
  assumes "file_ok f"
  shows "takeWhile (\<lambda>c. c \<noteq> 0) (take 56 (drop 8 (file_rec j f @ r))) = fst f"
proof -
  have "drop 8 (file_rec j f @ r) = fst f @ replicate (56 - length (fst f)) 0 @ r" by (simp add: file_rec_def)
  moreover have "replicate (56 - length (fst f)) (0 :: u8) = 0 # replicate (55 - length (fst f)) 0"
    using assms by (cases "56 - length (fst f)") (auto simp: file_ok_def)
  ultimately show ?thesis using assms takeWhile_name [of "fst f"] by (simp add: file_ok_def take_Cons')
qed

text \<open>The image while a file is added: records, a name without its numbers, and free records.\<close>

definition dir_mid :: "(u8 list \<times> u8 list) list \<Rightarrow> u8 list \<Rightarrow> u8 list" where
  "dir_mid fs r = to_be 4 (of_nat (length fs) :: u32) @ concat (file_recs fs) @ r @ replicate (64 * (15 - length fs)) 0"

lemma name_of_mid:
  assumes "\<forall>f\<in>set fs. file_ok f" and "i < length fs"
  shows "name_of i (dir_mid fs r) = fst (fs ! i)"
proof -
  have r: "\<forall>r\<in>set (file_recs fs). length r = 64" "length (file_recs fs) = length fs" using file_recs_64 [OF assms(1)] by auto
  have l: "length (concat (file_recs fs)) = 64 * length fs" using length_concat_64 [OF r(1)] r(2) by simp
  have "drop (64 * i) (concat (file_recs fs)) = file_rec i (fs ! i) @ concat (drop (Suc i) (file_recs fs))"
    using assms(2) r by (simp add: drop_concat_64 file_recs_def flip: Cons_nth_drop_Suc)
  then have "drop (file_at i + 8) (dir_mid fs r) =
      drop 8 (file_rec i (fs ! i) @ concat (drop (Suc i) (file_recs fs)) @ r @ replicate (64 * (15 - length fs)) 0)"
    using assms l by (simp add: dir_mid_def file_at_def add.commute flip: drop_drop)
  then show ?thesis unfolding name_of_def using name_of_rec [of "fs ! i"] assms by simp
qed

lemma dir_bytes_mid: "length fs < 16 \<Longrightarrow> dir_bytes fs = dir_mid fs (replicate 64 0)"
proof -
  assume "length fs < 16"
  then have "64 * (16 - length fs) = 64 + 64 * (15 - length fs)" by simp
  then show ?thesis by (simp only: dir_bytes_def dir_mid_def replicate_add append_assoc)
qed

lemma overwrite_rec:
  assumes "\<forall>f\<in>set fs. file_ok f" and "length ys = length zs"
  shows "overwrite (file_at (length fs) + length as) ys (dir_mid fs (as @ zs @ bs)) = dir_mid fs (as @ ys @ bs)"
proof -
  have l: "length (concat (file_recs fs)) = 64 * length fs" using length_concat_64 file_recs_64 [OF assms(1)] by metis
  let ?xs = "to_be 4 (of_nat (length fs) :: u32) @ concat (file_recs fs) @ as"
  have "file_at (length fs) + length as = length ?xs" by (simp add: file_at_def l)
  then show ?thesis using overwrite_mid [OF assms(2), of ?xs "bs @ replicate (64 * (15 - length fs)) 0"]
    by (simp add: dir_mid_def add.assoc)
qed

lemma name_of_new:
  assumes "\<forall>f\<in>set fs. file_ok f" and "file_ok f" and "length as = 8"
  shows "name_of (length fs) (dir_mid fs (as @ (fst f @ [0]) @ r)) = fst f"
proof -
  have l: "length (concat (file_recs fs)) = 64 * length fs" using length_concat_64 file_recs_64 [OF assms(1)] by metis
  have "drop (file_at (length fs) + 8) (dir_mid fs (as @ (fst f @ [0]) @ r)) =
      fst f @ 0 # r @ replicate (64 * (15 - length fs)) 0"
    using l assms(3) by (simp add: dir_mid_def file_at_def)
  then show ?thesis using takeWhile_name [of "fst f"] assms(2) by (simp add: name_of_def file_ok_def take_Cons')
qed

text \<open>The four updates of a record turn a free record into that of the file.\<close>

lemma dir_updates:
  assumes fs: "\<forall>f\<in>set fs. file_ok f" and f: "file_ok f" and n: "length fs < 16"
  defines "z \<equiv> replicate (55 - length (fst f)) (0 :: u8)"
  shows "overwrite (file_at (length fs) + 8) (pstrcpy 56 (fst f)) (dir_bytes fs) = dir_mid fs (replicate 8 0 @ (fst f @ [0]) @ z)"
    and "overwrite 0 (to_be 4 (of_nat (length fs + 1) :: u32))
      (overwrite (file_at (length fs) + 4) (to_be 2 (0x20 + of_nat (length fs) :: u16))
        (overwrite (file_at (length fs)) (to_be 4 (of_nat (length (snd f)) :: u32))
          (dir_mid fs (replicate 8 0 @ (fst f @ [0]) @ z)))) = dir_bytes (fs @ [f])"
proof -
  have nm: "pstrcpy 56 (fst f) = fst f @ [0]" using f by (simp add: pstrcpy_def file_ok_def)
  have 64: "replicate 64 (0 :: u8) = replicate 8 0 @ replicate (length (fst f @ [0])) 0 @ z"
    using f by (simp add: z_def file_ok_def flip: replicate_add replicate_Suc)
  show "overwrite (file_at (length fs) + 8) (pstrcpy 56 (fst f)) (dir_bytes fs) = dir_mid fs (replicate 8 0 @ (fst f @ [0]) @ z)"
    unfolding dir_bytes_mid [OF n] 64 nm
    using overwrite_rec [OF fs, of "fst f @ [0]" "replicate (length (fst f @ [0])) 0" "replicate 8 0" z] by simp
  let ?l = "to_be 4 (of_nat (length (snd f)) :: u32)" and ?k = "to_be 2 (0x20 + of_nat (length fs) :: u16)"
  let ?n = "fst f @ 0 # z"
  have 8: "replicate 8 (0 :: u8) = replicate 4 0 @ replicate 2 0 @ [0, 0]" by (simp add: numeral_eq_Suc)
  have 1: "overwrite (file_at (length fs)) ?l (dir_mid fs (replicate 8 0 @ ?n)) = dir_mid fs (?l @ replicate 2 0 @ [0, 0] @ ?n)"
    unfolding 8 using overwrite_rec [OF fs, of ?l "replicate 4 0" "[]" "replicate 2 0 @ [0, 0] @ ?n"] by simp
  have 2: "overwrite (file_at (length fs) + 4) ?k (dir_mid fs (?l @ replicate 2 0 @ [0, 0] @ ?n)) = dir_mid fs (?l @ ?k @ [0, 0] @ ?n)"
    using overwrite_rec [OF fs, of ?k "replicate 2 0" ?l "[0, 0] @ ?n"] by simp
  have "0 # z = replicate (56 - length (fst f)) 0"
    using f Suc_diff_le [of "length (fst f)" 55] by (simp add: z_def file_ok_def flip: replicate_Suc)
  then have r: "?l @ ?k @ [0, 0] @ ?n = file_rec (length fs) f" by (simp add: file_rec_def)
  have 3: "overwrite 0 (to_be 4 (of_nat (length fs + 1) :: u32)) (dir_mid fs (file_rec (length fs) f)) = dir_bytes (fs @ [f])"
    using n by (simp add: overwrite_def dir_mid_def dir_bytes_def file_recs_snoc)
  show "overwrite 0 (to_be 4 (of_nat (length fs + 1) :: u32)) (overwrite (file_at (length fs) + 4) ?k
      (overwrite (file_at (length fs)) ?l (dir_mid fs (replicate 8 0 @ (fst f @ [0]) @ z)))) = dir_bytes (fs @ [f])"
    using 1 2 3 r by simp
qed

section \<open>Adding files\<close>

lemma key_word: "j < 16 \<Longrightarrow> (0x20 + of_nat j :: u16) < 0x30" "j < 16 \<Longrightarrow> unat (0x20 + of_nat j :: u16) = 0x20 + j"
proof -
  assume j: "j < 16"
  then have "unat (of_nat j :: u16) = j" by (simp add: unat_of_nat_small)
  then show u: "unat (0x20 + of_nat j :: u16) = 0x20 + j" using j by (subst unat_add_lem [THEN iffD1]) auto
  then show "(0x20 + of_nat j :: u16) < 0x30" using j by (simp add: word_less_nat_alt)
qed

lemma file_keys_inj: "i < 16 \<Longrightarrow> j < 16 \<Longrightarrow> (0x20 + of_nat i :: u16) = 0x20 + of_nat j \<longleftrightarrow> i = j"
  by (metis add_left_cancel key_word(2))

lemma file_key_dir: "j < 16 \<Longrightarrow> (0x20 + of_nat j :: u16) \<noteq> 0x19"
proof
  assume "j < 16" "(0x20 + of_nat j :: u16) = 0x19"
  then have "0x20 + j = unat (0x19 :: u16)" using key_word(2) [of j] by metis
  then show False by simp
qed

lemma add_bytes_small:
  "key < 0x30 \<Longrightarrow> snd (fw_cfg_add_bytes key data len s) =
     s\<lparr>entries := (entries s)(False := (entries s False)(key := (entries s False key)\<lparr>fw_data := data, fw_len := len\<rparr>))\<rparr>"
  using small_key [of key] by (simp add: fw_cfg_add_bytes_def Let_def not_le)

lemma new_buf_dir_inv:
  "dir_inv fs b s \<Longrightarrow> dir_inv fs b (snd (new_buf bs s))"
  by (fastforce simp: dir_inv_def new_buf_def nth_append)

lemma dir_bytes_Nil: "dir_bytes [] = replicate (4 + 64 * 16) 0"
proof -
  have "to_le n (0 :: u32) = replicate n 0" for n by (induction n) auto
  then have "dir_bytes [] = replicate 4 0 @ replicate (64 * 16) 0" by (simp add: dir_bytes_def file_recs_def to_be_def)
  then show ?thesis by (simp only: replicate_add)
qed

lemma files_dir_inv:
  assumes "fw_files s = None"
  shows "\<exists>s1. files_dir s = (length (mem s), s1) \<and> dir_inv [] (length (mem s)) s1 \<and> mem s1 = mem s @ [dir_bytes []]"
proof -
  let ?s = "(snd (new_buf (dir_bytes []) s))\<lparr>fw_files := Some (length (mem s))\<rparr>"
  let ?s1 = "snd (fw_cfg_add_bytes 0x19 (Some (length (mem s))) 1028 ?s)"
  have "?s1 = ?s\<lparr>entries := (entries ?s)(False := (entries ?s False)(0x19 :=
      (entries ?s False 0x19)\<lparr>fw_data := Some (length (mem s)), fw_len := 1028\<rparr>))\<rparr>"
    by (rule add_bytes_small) simp
  moreover have "files_dir s = (length (mem s), ?s1)"
    using assms unfolding files_dir_def dir_bytes_Nil [symmetric] by (simp add: new_buf_def Let_def)
  ultimately show ?thesis by (simp add: dir_inv_def new_buf_def)
qed

lemma add_file_dir: "fw_cfg_add_file name data len (snd (files_dir s)) = fw_cfg_add_file name data len s"
proof -
  have "files_dir (snd (files_dir s)) = files_dir s"
    using files_dir_inv [of s] by (cases "fw_files s") (auto simp: dir_inv_def files_dir_def)
  then show ?thesis by (simp add: fw_cfg_add_file_def)
qed

lemma add_file_inv:
  assumes inv: "dir_inv fs b s" and fs: "\<forall>f\<in>set fs. file_ok f" and f: "file_ok f" and n: "length fs < 16"
    and new: "fst f \<notin> fst ` set fs" and p: "p < length (mem s)" "p \<noteq> b" "mem s ! p = snd f"
  shows "\<exists>s'. fw_cfg_add_file (fst f) (Some p) (of_nat (length (snd f))) s = Some (1, s') \<and> dir_inv (fs @ [f]) b s' \<and>
    length (mem s') = length (mem s)"
proof -
  let ?k = "0x20 + of_nat (length fs) :: u16"
  let ?s2 = "snd (fw_cfg_add_bytes ?k (Some p) (of_nat (length (snd f))) s)"
  let ?z = "replicate (55 - length (fst f)) (0 :: u8)"
  have b: "files_dir s = (b, s)" "b < length (mem s)" "mem s ! b = dir_bytes fs"
    using inv by (auto simp: dir_inv_def files_dir_def)
  have idx: "unat (of_be (take 4 (mem s ! b)) :: u32) = length fs" using b(3) n count_of_dir by simp
  have s2: "?s2 = s\<lparr>entries := (entries s)(False := (entries s False)(?k :=
      (entries s False ?k)\<lparr>fw_data := Some p, fw_len := of_nat (length (snd f))\<rparr>))\<rparr>"
    using key_word(1) [OF n] by (rule add_bytes_small)
  then have m2: "mem ?s2 = mem s" by simp
  let ?d3 = "dir_mid fs (replicate 8 0 @ (fst f @ [0]) @ ?z)"
  let ?s3 = "on_buf b (overwrite (file_at (length fs) + 8) (pstrcpy 56 (fst f))) ?s2"
  have d3: "mem ?s3 ! b = ?d3" using b m2 dir_updates(1) [OF fs f n] by (simp add: on_buf_def)
  have nodup: "\<not> list_ex (\<lambda>i. name_of (length fs) (mem ?s3 ! b) = name_of i (mem ?s3 ! b)) [0..<length fs]"
  proof -
    have "name_of (length fs) ?d3 = fst f" using name_of_new [OF fs f, of "replicate 8 0" ?z] by simp
    then show ?thesis using name_of_mid [OF fs] new d3 by (auto simp: list_ex_iff)
  qed
  define s' where "s' = ?s2\<lparr>mem := (mem s)[b := dir_bytes (fs @ [f])]\<rparr>"
  have "on_buf b (overwrite 0 (to_be 4 (of_nat (length fs + 1) :: u32)))
      (on_buf b (overwrite (file_at (length fs) + 4) (to_be 2 ?k))
        (on_buf b (overwrite (file_at (length fs)) (to_be 4 (of_nat (length (snd f)) :: u32))) ?s3)) = s'"
    using d3 b m2 dir_updates(2) [OF fs f n] by (simp add: on_buf_def s'_def)
  then have "fw_cfg_add_file (fst f) (Some p) (of_nat (length (snd f))) s = Some (1, s')"
    using nodup n by (simp add: fw_cfg_add_file_def b(1) idx Let_def)
  moreover have "dir_inv (fs @ [f]) b s'"
    using inv p b n file_key_dir [OF n] file_keys_inj [OF _ n]
    by (fastforce simp: s'_def s2 dir_inv_def nth_append less_Suc_eq)
  ultimately show ?thesis by (simp add: s'_def)
qed

lemma add_files_inv:
  assumes "dir_inv fs b s" and "\<forall>f\<in>set (fs @ gs). file_ok f" and "length (fs @ gs) \<le> 16" and "distinct (map fst (fs @ gs))"
  shows "\<exists>s'. add_files gs s = Some s' \<and> dir_inv (fs @ gs) b s'"
  using assms
proof (induction gs arbitrary: fs s)
  case (Cons g gs)
  let ?s = "snd (new_buf (snd g) s)"
  have i: "dir_inv fs b ?s" using Cons.prems(1) by (rule new_buf_dir_inv)
  have m: "length (mem s) < length (mem ?s)" "length (mem s) \<noteq> b" "mem ?s ! length (mem s) = snd g"
    using Cons.prems(1) by (auto simp: new_buf_def dir_inv_def)
  obtain s1 where s1: "fw_cfg_add_file (fst g) (Some (length (mem s))) (of_nat (length (snd g))) ?s = Some (1, s1)" "dir_inv (fs @ [g]) b s1"
    using add_file_inv [OF i _ _ _ _ m] Cons.prems(2-4) by (force simp: image_iff)
  then show ?case using Cons.IH [OF s1(2)] Cons.prems(2-4) by (cases g) (simp add: new_buf_def)
qed simp

lemma dir_inv_holds:
  assumes "dir_inv fs b s" and "\<forall>f\<in>set fs. file_ok f"
  shows "holds s 0x19 (dir_bytes fs)" "j < length fs \<Longrightarrow> holds s (0x20 + of_nat j) (snd (fs ! j))"
proof -
  have "length fs \<le> 16" using assms(1) by (simp add: dir_inv_def)
  then have l: "length (dir_bytes fs) = 1028"
    using length_concat_64 [OF file_recs_64(1) [OF assms(2)]] file_recs_64(2) [OF assms(2)]
    by (simp add: dir_bytes_def flip: add_mult_distrib2)
  then show "holds s 0x19 (dir_bytes fs)"
    using assms(1) by (simp add: holds_def entry_ok_def entry_bytes_def dir_inv_def)
  assume j: "j < length fs"
  then have "length (snd (fs ! j)) < 2 ^ 32" using assms(2) by (simp add: file_ok_def)
  then show "holds s (0x20 + of_nat j) (snd (fs ! j))"
    using assms(1) j unat_of_nat_small [of "length (snd (fs ! j))", where 'a = 32]
    by (fastforce simp: holds_def entry_ok_def entry_bytes_def dir_inv_def)
qed

text \<open>
  C37.  The files that the host registers reach the firmware.  When up to sixteen files with different
  names of at most 55 characters are added to a device without files, the guest that selects the
  directory reads the number of files and for each its size, its selector and its name, and the guest that
  selects a file by the selector of the directory reads its contents.
\<close>

theorem fw_cfg_files_reach_guest:
  assumes "fw_files s = None" and "fs \<noteq> []" and "length fs \<le> 16" and "\<forall>f\<in>set fs. file_ok f" and "distinct (map fst fs)"
  shows "\<exists>s'. add_files fs s = Some s' \<and>
    (\<exists>s''. guest_run (Select 0x19 # replicate 1028 ReadB) s' = Some (map ucast (dir_bytes fs), s'')) \<and>
    (\<forall>j<length fs. \<exists>s''. guest_run (Select (0x20 + of_nat j) # replicate (length (snd (fs ! j))) ReadB) s' =
       Some (map ucast (snd (fs ! j)), s''))"
proof -
  obtain g gs where fs: "fs = g # gs" using assms(2) by (cases fs) auto
  let ?s = "snd (new_buf (snd g) s)" and ?p = "length (mem s)"
  define b where "b = length (mem ?s)"
  obtain s1 where d: "files_dir ?s = (b, s1)" "dir_inv [] b s1" "mem s1 = mem ?s @ [dir_bytes []]"
    using files_dir_inv [of ?s] assms(1) by (auto simp: new_buf_def b_def)
  have p: "?p < length (mem s1)" "?p \<noteq> b" "mem s1 ! ?p = snd g" using d(3) by (auto simp: new_buf_def b_def nth_append)
  obtain s2 where s2: "fw_cfg_add_file (fst g) (Some ?p) (of_nat (length (snd g))) s1 = Some (1, s2)" "dir_inv [g] b s2"
    using add_file_inv [OF d(2) _ _ _ _ p] assms(4) fs by auto
  have "fw_cfg_add_file (fst g) (Some ?p) (of_nat (length (snd g))) ?s = Some (1, s2)"
    using s2(1) d(1) add_file_dir [of _ _ _ ?s] by simp
  then have a: "add_files fs s = add_files gs s2" by (cases g) (simp add: fs new_buf_def)
  obtain s' where s': "add_files gs s2 = Some s'" "dir_inv fs b s'"
    using add_files_inv [OF s2(2), of gs] assms(3-5) fs by auto
  note h = dir_inv_holds [OF s'(2) assms(4)]
  have l: "length (dir_bytes fs) = 1028"
    using h(1) s'(2) by (auto simp: holds_def entry_ok_def entry_bytes_def dir_inv_def)
  have "\<exists>s''. guest_run (Select 0x19 # replicate 1028 ReadB) s' = Some (map ucast (dir_bytes fs), s'')"
    using guest_reads_entry [OF _ h(1)] l by simp
  moreover have "\<exists>s''. guest_run (Select (0x20 + of_nat j) # replicate (length (snd (fs ! j))) ReadB) s' =
       Some (map ucast (snd (fs ! j)), s'')" if "j < length fs" for j
  proof -
    have j: "j < 16" using that assms(3) by simp
    have "ucast (0x20 + of_nat j :: u16) = (0x20 + of_nat j :: u32)"
    proof -
      have "unat (of_nat j :: u32) = j" using j by (simp add: unat_of_nat_small)
      then have "unat (0x20 + of_nat j :: u32) = 0x20 + j" using j by (subst unat_add_lem [THEN iffD1]) auto
      then show ?thesis using key_word(2) [OF j] by (intro unsigned_word_eqI [where 'a = nat]) (simp add: unat_ucast_up)
    qed
    then show ?thesis using guest_reads_entry [OF key_word(1) [OF j] h(2) [OF that]] by metis
  qed
  ultimately show ?thesis using a s'(1) by simp
qed

theorem fw_cfg_files_reach_guest_witness:
  "\<exists>s'. add_files [([0x61], [1, 2, 3]), ([0x62], [4])] (fw_cfg_init (replicate 16 0) True 1 1 0 ()) = Some s' \<and>
     (\<exists>s''. guest_run (Select 0x21 # replicate 1 ReadB) s' = Some ([4], s''))"
proof -
  let ?fs = "[([0x61], [1, 2, 3]), ([0x62], [4])] :: (u8 list \<times> u8 list) list"
  let ?s = "fw_cfg_init (replicate 16 0) True 1 1 0 ()"
  have "fw_files ?s = None"
    by (simp add: fw_cfg_init_def empty_fw_def new_buf_def fw_cfg_add_bytes_def fw_cfg_add_i16_def Let_def)
  moreover have "\<forall>f\<in>set ?fs. file_ok f" by (simp add: file_ok_def)
  ultimately obtain s' where "add_files ?fs ?s = Some s'" "\<forall>j<length ?fs. \<exists>s''.
      guest_run (Select (0x20 + of_nat j) # replicate (length (snd (?fs ! j))) ReadB) s' = Some (map ucast (snd (?fs ! j)), s'')"
    using fw_cfg_files_reach_guest [of ?s ?fs] by auto
  then show ?thesis by (auto dest!: spec [of _ "1 :: nat"])
qed

section \<open>Writing\<close>

definition harmless :: "fw_op \<Rightarrow> bool" where
  "harmless p = (case p of Select v \<Rightarrow> \<not> bit v 14 \<and> (ucast v :: u16) AND FW_CFG_ENTRY_MASK < FW_CFG_MAX_ENTRY | _ \<Rightarrow> True)"

definition plain :: "'w FWCfgState \<Rightarrow> bool" where
  "plain s \<longleftrightarrow> in_table s \<and> \<not> bit (cur_entry s) 14 \<and> (\<forall>a k. entry_ok (mem s) (entries s a k))"

lemma harmless_step:
  assumes "plain s" and "harmless p"
  shows "\<exists>vs s'. guest_run [p] s = Some (vs, s') \<and> plain s' \<and> mem s' = mem s \<and> entries s' = entries s \<and> world s' = world s"
proof (cases p)
  case (Select v)
  then show ?thesis using assms
    by (auto simp: fw_cfg_io_writew_def fw_cfg_select_def harmless_def plain_def in_table_def Let_def bit_simps)
next
  case ReadB
  then show ?thesis using assms read_step [of s]
    by (auto simp: fw_cfg_io_readb_def plain_def in_table_def cur_def)
next
  case (WriteB v)
  then show ?thesis using assms by (simp add: fw_cfg_io_writeb_def fw_cfg_write_def plain_def masks)
qed

lemma guest_run_Cons:
  "guest_run (p # ops) s = (case guest_run [p] s of None \<Rightarrow> None
     | Some (vs, s1) \<Rightarrow> map_option (\<lambda>(ws, s2). (vs @ ws, s2)) (guest_run ops s1))"
  by (cases p) (auto simp: option.map_id split: option.splits)

lemma harmless_run:
  "plain s \<Longrightarrow> list_all harmless ops \<Longrightarrow>
     \<exists>vs s'. guest_run ops s = Some (vs, s') \<and> mem s' = mem s \<and> entries s' = entries s \<and> world s' = world s"
proof (induction ops arbitrary: s)
  case (Cons p ops)
  obtain vs s1 where "guest_run [p] s = Some (vs, s1)" "plain s1" "mem s1 = mem s" "entries s1 = entries s" "world s1 = world s"
    using harmless_step [OF Cons.prems(1), of p] Cons.prems(2) by auto
  then show ?case using Cons.IH [of s1] Cons.prems(2) by (subst guest_run_Cons) auto
qed simp

definition writable :: "nat \<Rightarrow> 'w FWCfgState \<Rightarrow> bool" where
  "writable b s \<longleftrightarrow> bit (cur_entry s) 14 \<and> in_table s \<and> fw_data (cur s) = Some b \<and> b < length (mem s) \<and>
     fw_callback (cur s) = None \<and> unat (fw_len (cur s)) \<le> length (mem s ! b)"

lemma write_step:
  fixes v :: u32
  assumes "writable b s" and "unat (cur_offset s) < unat (fw_len (cur s))"
  defines "k \<equiv> unat (cur_offset s)"
  defines "s1 \<equiv> s\<lparr>mem := (mem s)[b := (mem s ! b)[k := ucast v]], cur_offset := cur_offset s + 1\<rparr>"
  shows "fw_cfg_io_writeb 0x511 v s = (if Suc k = unat (fw_len (cur s)) then None else Some s1)"
    "writable b s1" "unat (cur_offset s1) = Suc k" "cur s1 = cur s"
proof -
  show k1: "unat (cur_offset s1) = Suc k"
    using assms(2) unat_less [of "fw_len (cur s)"] unfolding s1_def k_def by simp (subst unat_add_lem [THEN iffD1]; simp)
  show c: "cur s1 = cur s" by (simp add: s1_def cur_def)
  have "cur_offset s + 1 = fw_len (cur s) \<longleftrightarrow> Suc k = unat (fw_len (cur s))"
    using k1 unfolding word_unat_eq_iff s1_def by simp
  then show "fw_cfg_io_writeb 0x511 v s = (if Suc k = unat (fw_len (cur s)) then None else Some s1)"
    using assms(1,2) c
    by (simp add: fw_cfg_io_writeb_def fw_cfg_write_def writable_def buf_put_def masks word_less_nat_alt Let_def s1_def k_def)
  show "writable b s1" using assms(1) c by (simp add: writable_def s1_def in_table_def)
qed

lemma write_entry:
  assumes "writable b s" and "unat (cur_offset s) + length vs = unat (fw_len (cur s))" and "vs \<noteq> []"
  shows "guest_run (map WriteB vs) s = None"
  using assms
proof (induction vs arbitrary: s)
  case (Cons v vs)
  have "unat (cur_offset s) < unat (fw_len (cur s))" using Cons.prems(2) by simp
  note w = write_step [OF Cons.prems(1) this, of v]
  show ?case
  proof (cases "vs = []")
    case True
    then show ?thesis using w(1) Cons.prems(2) by simp
  next
    case False
    then show ?thesis using w(1) Cons.IH [OF w(2)] w(3,4) Cons.prems(2) by (cases vs) auto
  qed
qed simp

lemma write_prefix:
  assumes "writable b s" and "unat (cur_offset s) + length vs < unat (fw_len (cur s))"
  shows "\<exists>s'. guest_run (map WriteB vs) s = Some ([], s') \<and>
    mem s' ! b = overwrite (unat (cur_offset s)) (map ucast vs) (mem s ! b)"
  using assms
proof (induction vs arbitrary: s)
  case Nil
  then show ?case by (simp add: overwrite_def)
next
  case (Cons v vs)
  let ?k = "unat (cur_offset s)" and ?x = "mem s ! b"
  have k: "?k < unat (fw_len (cur s))" using Cons.prems(2) by simp
  note w = write_step [OF Cons.prems(1) k, of v]
  have l: "b < length (mem s)" "?k < length ?x" using Cons.prems(1) k by (auto simp: writable_def)
  obtain s' where "guest_run (map WriteB vs) (s\<lparr>mem := (mem s)[b := ?x[?k := ucast v]], cur_offset := cur_offset s + 1\<rparr>) = Some ([], s')"
    "mem s' ! b = overwrite (Suc ?k) (map ucast vs) (?x[?k := ucast v])"
    using Cons.IH [OF w(2)] w(3,4) Cons.prems(2) l(1) by auto
  moreover have "overwrite (Suc ?k) (map ucast vs) (?x[?k := ucast v]) = overwrite ?k (map ucast (v # vs)) ?x"
    using l(2) by (simp add: overwrite_def take_Suc_conv_app_nth)
  ultimately show ?case using w(1) Cons.prems(2) by auto
qed

lemma select_writable:
  assumes "\<forall>a k. entry_ok (mem s) (entries s a k)" and "k < FW_CFG_MAX_ENTRY" and "fw_data (entries s False k) = Some b"
    and "fw_callback (entries s False k) = None"
  defines "s1 \<equiv> fw_cfg_io_writew 0x510 (ucast k OR 0x4000) s"
  shows "writable b s1" "cur s1 = entries s False k" "cur_offset s1 = 0" "mem s1 = mem s"
proof -
  note sk = small_key [OF assms(2)]
  have key: "ucast (ucast k OR 0x4000 :: u32) = k OR (0x4000 :: u16)" by (rule bit_word_eqI) (simp add: bit_simps)
  have m: "(k OR 0x4000) AND 0x3fff = k" using sk by (simp add: bit.conj_disj_distrib2)
  have f: "\<not> arch_of (k OR 0x4000)" "bit (k OR 0x4000) 14" using sk by (simp_all add: arch_of_def masks bit_simps)
  have s1: "s1 = s\<lparr>cur_offset := 0, cur_entry := k OR 0x4000\<rparr>"
    using assms(2) m not_le [of "0x30" k] by (simp add: s1_def fw_cfg_io_writew_def fw_cfg_select_def key Let_def)
  show c: "cur s1 = entries s False k" "cur_offset s1 = 0" "mem s1 = mem s" using m f by (simp_all add: s1 cur_def)
  have "entry_ok (mem s) (entries s False k)" using assms(1) by blast
  then show "writable b s1" using c assms(2-4) m f by (simp add: writable_def entry_ok_def) (simp add: s1 in_table_def m)
qed

text \<open>
  C38.  What the guest can do through the write channel.  As long as it selects existing entries
  without the write flag, nothing it does fails or changes an entry.  But after selecting any key that
  is out of range a single write reads outside the table of entries; and selecting any entry that has
  no callback, with the write flag, lets the guest overwrite the buffer of the host byte by byte and
  calls the null callback with its last byte.
\<close>

theorem fw_cfg_guest_writes:
  assumes "\<forall>a k. entry_ok (mem s) (entries s a k)"
  shows "(plain s \<and> list_all harmless ops \<longrightarrow> (\<exists>vs s'. guest_run ops s = Some (vs, s') \<and> mem s' = mem s \<and> entries s' = entries s)) \<and>
    ((ucast key :: u16) AND FW_CFG_ENTRY_MASK \<ge> FW_CFG_MAX_ENTRY \<longrightarrow> guest_run [Select key, WriteB v] s = None) \<and>
    (k < FW_CFG_MAX_ENTRY \<and> fw_data (entries s False k) = Some b \<and> fw_callback (entries s False k) = None \<longrightarrow>
       (length vs < unat (fw_len (entries s False k)) \<longrightarrow>
          (\<exists>s'. guest_run (Select (ucast k OR 0x4000) # map WriteB vs) s = Some ([], s') \<and>
             mem s' ! b = map ucast vs @ drop (length vs) (mem s ! b))) \<and>
       (length vs = unat (fw_len (entries s False k)) \<and> vs \<noteq> [] \<longrightarrow>
          guest_run (Select (ucast k OR 0x4000) # map WriteB vs) s = None))"
proof (intro conjI impI)
  assume "plain s \<and> list_all harmless ops"
  then show "\<exists>vs s'. guest_run ops s = Some (vs, s') \<and> mem s' = mem s \<and> entries s' = entries s" using harmless_run by blast
next
  assume "(ucast key :: u16) AND FW_CFG_ENTRY_MASK \<ge> FW_CFG_MAX_ENTRY"
  then show "guest_run [Select key, WriteB v] s = None"
    by (simp add: fw_cfg_io_writew_def fw_cfg_select_def fw_cfg_io_writeb_def fw_cfg_write_def in_table_def Let_def)
next
  assume a: "k < FW_CFG_MAX_ENTRY \<and> fw_data (entries s False k) = Some b \<and> fw_callback (entries s False k) = None"
  then have w: "k < 0x30" "fw_data (entries s False k) = Some b" "fw_callback (entries s False k) = None" by auto
  note sw = select_writable [OF assms w]
  show "\<exists>s'. guest_run (Select (ucast k OR 0x4000) # map WriteB vs) s = Some ([], s') \<and>
      mem s' ! b = map ucast vs @ drop (length vs) (mem s ! b)" if "length vs < unat (fw_len (entries s False k))"
    using write_prefix [OF sw(1), of vs] sw(2-4) that by (simp add: overwrite_def)
  show "guest_run (Select (ucast k OR 0x4000) # map WriteB vs) s = None"
    if "length vs = unat (fw_len (entries s False k)) \<and> vs \<noteq> []"
    using write_entry [OF sw(1), of vs] sw(2-4) that by simp
qed

theorem fw_cfg_guest_writes_witness:
  "(let s = fw_cfg_init (replicate 16 0) True 1 1 0 () in
      guest_run [Select 0x3fff, WriteB 0] s = None \<and> guest_run [Select 0x4000, WriteB 1, WriteB 2, WriteB 3, WriteB 4] s = None)"
proof -
  let ?s = "fw_cfg_init (replicate 16 0) True 1 1 0 ()"
  have ok: "\<forall>a k. entry_ok (mem ?s) (entries ?s a k)"
    by (simp add: fw_cfg_init_def empty_fw_def new_buf_def fw_cfg_add_bytes_def fw_cfg_add_i16_def arch_of_def entry_ok_def Let_def
      nth_append)
  have e: "fw_data (entries ?s False 0) = Some 0" "fw_callback (entries ?s False 0) = None" "fw_len (entries ?s False 0) = 4"
    by (simp_all add: fw_cfg_init_def empty_fw_def new_buf_def fw_cfg_add_bytes_def fw_cfg_add_i16_def arch_of_def Let_def)
  show ?thesis using fw_cfg_guest_writes [OF ok, of "[]" "0x3fff" 0 0 0 "[1, 2, 3, 4]"] e by (simp add: Let_def)
qed

end
