(* ===== verification/Pcspk.thy ===== *)
theory Pcspk
  imports I8254
begin

text \<open>
  The PC speaker (\<^verbatim>\<open>hw/pcspk.c\<close>) on counter 2 of the interval timer.  The audio backend is the
  environment: \<open>aud_write\<close> (\<^verbatim>\<open>AUD_write\<close>) takes bytes and says how many it accepted, \<open>aud_active\<close> is
  \<^verbatim>\<open>AUD_set_active_out\<close>.  A write or read outside the sample buffer and a division by zero have no
  result: \<^const>\<open>None\<close>.
\<close>

section \<open>Model\<close>

abbreviation (input) PCSPK_BUF_LEN :: u32 where "PCSPK_BUF_LEN \<equiv> 1792"
abbreviation (input) PCSPK_SAMPLE_RATE :: u32 where "PCSPK_SAMPLE_RATE \<equiv> 32000"
abbreviation (input) PCSPK_MAX_FREQ :: u32 where "PCSPK_MAX_FREQ \<equiv> 16000"
abbreviation (input) PCSPK_MIN_COUNT :: u32 where "PCSPK_MIN_COUNT \<equiv> (PIT_FREQ + PCSPK_MAX_FREQ - 1) div PCSPK_MAX_FREQ"

record PCSpkState =
  sample_buf :: "u8 list"
  voice :: bool
  pit_count :: u32
  samples :: u32
  play_pos :: u32
  data_on :: u32
  dummy_refresh_clock :: u32

record 'w spk_env =
  aud_write :: "u8 list \<Rightarrow> 'w \<Rightarrow> u32 \<times> 'w"
  aud_active :: "bool \<Rightarrow> 'w \<Rightarrow> 'w"

definition sample_at :: "u32 \<Rightarrow> u32 \<Rightarrow> u8" where
  "sample_at n i = ucast ((64 AND drop_bit 25 (n * i)) - 32 :: u32)"

definition set_samples :: "u8 list \<Rightarrow> PCSpkState \<Rightarrow> PCSpkState option" where
  "set_samples bs s =
     (if length bs \<le> length (sample_buf s) then Some (s\<lparr>sample_buf := bs @ drop (length bs) (sample_buf s)\<rparr>) else None)"

definition generate_samples :: "PCSpkState \<Rightarrow> PCSpkState option" where
  "generate_samples s =
     (if pit_count s \<noteq> 0 then
        (let m = PCSPK_SAMPLE_RATE * pit_count s in
         if m = 0 then None
         else
           (let n = ucast (push_bit 32 (ucast PIT_FREQ :: u64) div ucast m) :: u32;
                k = drop_bit 1 (PCSPK_BUF_LEN * PIT_FREQ div m * m div drop_bit 1 PIT_FREQ + 1)
            in set_samples (map (\<lambda>i. sample_at n (of_nat i)) [0..<unat k]) (s\<lparr>samples := k\<rparr>)))
      else set_samples (replicate (unat PCSPK_BUF_LEN) 128) (s\<lparr>samples := PCSPK_BUF_LEN\<rparr>))"

text \<open>The loop that hands the samples to the backend while it has room for \<open>free\<close> bytes.\<close>

function play_loop :: "'w spk_env \<Rightarrow> int \<Rightarrow> PCSpkState \<Rightarrow> 'w \<Rightarrow> (PCSpkState \<times> 'w) option" where
  "play_loop E free s w =
     (if free > 0 then
        (let n = min (samples s - play_pos s) (of_int free) in
         if unat (play_pos s) + unat n > length (sample_buf s) then None
         else
           (let (k, w1) = aud_write E (take (unat n) (drop (unat (play_pos s)) (sample_buf s))) w in
            if k = 0 then Some (s, w1)
            else if samples s = 0 then None
            else play_loop E (free - int (unat k)) (s\<lparr>play_pos := (play_pos s + k) mod samples s\<rparr>) w1))
      else Some (s, w))"
  by pat_completeness auto

termination
  by (relation "measure (\<lambda>(E, free, s, w). nat free)") (auto simp: word_neq_0_conv word_less_def)

declare play_loop.simps [simp del]

definition pcspk_callback :: "'w spk_env \<Rightarrow> int \<Rightarrow> PITState \<Rightarrow> PCSpkState \<Rightarrow> 'w \<Rightarrow> (PCSpkState \<times> 'w) option" where
  "pcspk_callback E free pit s w =
     (if pit_get_mode pit 2 \<noteq> 3 then Some (s, w)
      else
        (let n0 = of_int (pit_get_initial_count pit 2) :: u32;
             n = (if n0 < PCSPK_MIN_COUNT then 0 else n0)
         in do {
              s1 \<leftarrow> (if pit_count s \<noteq> n then generate_samples (s\<lparr>pit_count := n, play_pos := 0\<rparr>) else Some s);
              play_loop E free s1 w
            }))"

definition pcspk_ioport_read :: "u64 \<Rightarrow> PITState \<Rightarrow> PCSpkState \<Rightarrow> (u32 \<times> PCSpkState) option" where
  "pcspk_ioport_read now pit s =
     (let s1 = s\<lparr>dummy_refresh_clock := dummy_refresh_clock s XOR 0x10\<rparr> in
      case pit_get_out pit 2 now of
        None \<Rightarrow> None
      | Some out \<Rightarrow>
          Some (ucast (pit_get_gate pit 2) OR push_bit 1 (data_on s1) OR dummy_refresh_clock s1 OR push_bit 5 (of_bool out), s1))"

definition pcspk_ioport_write ::
  "'w spk_env \<Rightarrow> 'w qemu_irq \<Rightarrow> u64 \<Rightarrow> u32 \<Rightarrow> PITState \<Rightarrow> PCSpkState \<Rightarrow> 'w \<Rightarrow> (PITState \<times> PCSpkState \<times> 'w) option" where
  "pcspk_ioport_write E irq now val pit s w =
     (let gate = val AND 1; s1 = s\<lparr>data_on := drop_bit 1 val AND 1\<rparr> in do {
        (pit1, w1) \<leftarrow> pit_set_gate irq now 2 (ucast gate) pit w;
        if voice s1
        then Some (pit1, if gate \<noteq> 0 then s1\<lparr>play_pos := 0\<rparr> else s1, aud_active E (gate AND data_on s1 \<noteq> 0) w1)
        else Some (pit1, s1, w1)
      })"

definition pcspk_zero :: PCSpkState where
  "pcspk_zero = \<lparr>sample_buf = replicate 1792 0, voice = False, pit_count = 0, samples = 0, play_pos = 0, data_on = 0,
     dummy_refresh_clock = 0\<rparr>"

text \<open>\<open>opened\<close> tells whether \<^verbatim>\<open>AUD_open_out\<close> returned a voice.\<close>

definition pcspk_audio_init :: "bool \<Rightarrow> PCSpkState \<Rightarrow> int \<times> PCSpkState" where
  "pcspk_audio_init opened s = (if opened then (0, s\<lparr>voice := True\<rparr>) else (-1, s\<lparr>voice := False\<rparr>))"

section \<open>Specification\<close>

text \<open>The timer and the speaker under their common operations.\<close>

datatype spk_op = Pit pit_op | SpkRead u64 | SpkWrite u64 u32 | SpkCallback int

fun spk_step :: "'w spk_env \<Rightarrow> 'w qemu_irq \<Rightarrow> (PITState \<times> PCSpkState \<times> 'w) option \<Rightarrow> spk_op \<Rightarrow> (PITState \<times> PCSpkState \<times> 'w) option" where
  "spk_step E irq None op = None"
| "spk_step E irq (Some (pit, s, w)) (Pit p) = map_option (\<lambda>(pit1, w1). (pit1, s, w1)) (pit_step irq (Some (pit, w)) p)"
| "spk_step E irq (Some (pit, s, w)) (SpkRead now) = map_option (\<lambda>(_, s1). (pit, s1, w)) (pcspk_ioport_read now pit s)"
| "spk_step E irq (Some (pit, s, w)) (SpkWrite now v) = pcspk_ioport_write E irq now v pit s w"
| "spk_step E irq (Some (pit, s, w)) (SpkCallback n) = map_option (\<lambda>(s1, w1). (pit, s1, w1)) (pcspk_callback E n pit s w)"

definition spk_op_ok :: "spk_op \<Rightarrow> bool" where
  "spk_op_ok p = (case p of Pit q \<Rightarrow> pit_op_ok q | _ \<Rightarrow> True)"

text \<open>The backend accepts no more than it is given.\<close>

definition aud_ok :: "'w spk_env \<Rightarrow> bool" where
  "aud_ok E \<longleftrightarrow> (\<forall>bs w. unat (fst (aud_write E bs w)) \<le> length bs)"

definition buf_ok :: "PCSpkState \<Rightarrow> bool" where
  "buf_ok s \<longleftrightarrow> length (sample_buf s) = 1792 \<and> samples s \<le> 1792 \<and>
     (if samples s = 0 then play_pos s = 0 else play_pos s < samples s)"

definition spk_inv :: "(PITState \<times> PCSpkState \<times> 'w) option \<Rightarrow> bool" where
  "spk_inv r = (case r of None \<Rightarrow> False | Some (pit, s, w) \<Rightarrow> pit_inv (Some (pit, w)) \<and> buf_ok s)"

section \<open>The sample buffer\<close>

lemma wavelength_samples:
  fixes m :: nat
  assumes "0 < m" and "m \<le> 2138182144"
  shows "896 \<le> (2138182144 div m * m div 596591 + 1) div 2" "(2138182144 div m * m div 596591 + 1) div 2 \<le> 1792"
proof -
  let ?x = "2138182144 div m * m"
  have u: "?x \<le> 2138182144" by (rule div_times_less_eq_dividend)
  have "?x + 2138182144 mod m = 2138182144" by (rule div_mult_mod_eq)
  moreover have "2138182144 mod m < m" using assms(1) by simp
  moreover have "m \<le> ?x" using assms div_le_mono [of m 2138182144 m] by simp
  ultimately have l: "1069091072 \<le> ?x" by linarith
  show "896 \<le> (?x div 596591 + 1) div 2" using div_le_mono [OF l, of 596591] by simp
  show "(?x div 596591 + 1) div 2 \<le> 1792" using div_le_mono [OF u, of 596591] by simp
qed

lemma unat_mult_small: "unat a * unat b < 2 ^ 32 \<Longrightarrow> unat (a * b :: u32) = unat a * unat b"
  using unat_mult_lem [of a b] by simp

lemma generate_samples_ok:
  assumes "length (sample_buf s) = 1792" and "unat (pit_count s) \<le> 0x10000" and "play_pos s = 0"
  shows "\<exists>s'. generate_samples s = Some s' \<and> buf_ok s' \<and> 896 \<le> unat (samples s')"
proof (cases "pit_count s = 0")
  case True
  then show ?thesis using assms by (simp add: generate_samples_def set_samples_def buf_ok_def)
next
  case False
  let ?m = "32000 * pit_count s"
  have m: "unat ?m = 32000 * unat (pit_count s)" using assms(2) by (subst unat_mult_small) auto
  have pos: "0 < unat (pit_count s)" using False by (simp add: unat_gt_0)
  have m0: "?m \<noteq> 0" using m pos by (metis mult_is_0 not_gr_zero unat_0 zero_neq_numeral)
  let ?q = "2138182144 div ?m * ?m div 596591"
  have b: "0 < unat ?m" "unat ?m \<le> 2138182144" using m pos assms(2) by auto
  have x: "2138182144 div unat ?m * unat ?m < 2 ^ 32" by (rule le_less_trans [OF div_times_less_eq_dividend]) simp
  have "unat (2138182144 div ?m * ?m) = 2138182144 div unat ?m * unat ?m"
    by (subst unat_mult_small) (use x in \<open>simp_all add: unat_div_distrib\<close>)
  then have q: "unat ?q = 2138182144 div unat ?m * unat ?m div 596591" by (simp add: unat_div_distrib)
  define k where "k = drop_bit 1 (?q + 1)"
  have "unat ?q \<le> 3584" using wavelength_samples(2) [OF b] q by linarith
  then have "unat (?q + 1) = unat ?q + 1" by (subst unat_add_lem [THEN iffD1]) auto
  then have k: "unat k = (unat ?q + 1) div 2" by (simp add: k_def drop_bit_eq_div unat_div_distrib)
  have kb: "896 \<le> unat k" "unat k \<le> 1792" using wavelength_samples [OF b] q k by auto
  then have "k \<noteq> 0" "k \<le> 1792" by (auto simp: word_le_nat_alt)
  then show ?thesis using False m0 kb assms
    by (simp add: generate_samples_def set_samples_def buf_ok_def Let_def word_neq_0_conv flip: k_def)
      (simp add: k_def word_neq_0_conv)
qed

section \<open>The loop and the operations\<close>

lemma play_loop_ok:
  assumes "aud_ok E" and "buf_ok s"
  shows "\<exists>s' w'. play_loop E free s w = Some (s', w') \<and> buf_ok s' \<and> pit_count s' = pit_count s"
  using assms
proof (induction E free s w rule: play_loop.induct)
  case (1 E free s w)
  let ?n = "min (samples s - play_pos s) (of_int free)"
  have p: "play_pos s \<le> samples s" "samples s \<le> 1792" "length (sample_buf s) = 1792"
    using 1(3) by (auto simp: buf_ok_def split: if_splits)
  then have sub: "unat (samples s - play_pos s) = unat (samples s) - unat (play_pos s)" by (simp add: unat_sub)
  have n: "unat ?n \<le> unat (samples s) - unat (play_pos s)" using sub by (metis min.cobounded1 word_le_nat_alt)
  have l: "unat (play_pos s) + unat ?n \<le> unat (samples s)" "unat (samples s) \<le> 1792"
    using n p by (auto simp: word_le_nat_alt)
  show ?case
  proof (cases "free > 0")
    case True
    obtain k w1 where k: "aud_write E (take (unat ?n) (drop (unat (play_pos s)) (sample_buf s))) w = (k, w1)" by fastforce
    have kn: "unat k \<le> unat ?n"
      using 1(2) k l p unfolding aud_ok_def by (metis fst_conv length_take min.boundedE)
    show ?thesis
    proof (cases "k = 0")
      case True
      then show ?thesis using \<open>free > 0\<close> k l p 1(3) by (subst play_loop.simps) (simp add: Let_def)
    next
      case False
      then have s0: "samples s \<noteq> 0" using kn l by (auto simp: unat_eq_0)
      let ?s = "s\<lparr>play_pos := (play_pos s + k) mod samples s\<rparr>"
      have "(play_pos s + k) mod samples s < samples s" by (rule word_mod_less_divisor) (use s0 in \<open>simp add: word_neq_0_conv\<close>)
      then have "buf_ok ?s" using s0 p by (simp add: buf_ok_def)
      then have "\<exists>s' w'. play_loop E (free - int (unat k)) ?s w1 = Some (s', w') \<and> buf_ok s' \<and> pit_count s' = pit_count ?s"
        using 1(1) [OF \<open>free > 0\<close> refl _ k [symmetric] refl False s0 1(2)] l p by simp
      then show ?thesis using \<open>free > 0\<close> k l p False s0 by (subst play_loop.simps) (simp add: Let_def)
    qed
  qed (use 1(3) in \<open>simp add: play_loop.simps\<close>)
qed

lemma callback_ok:
  assumes "aud_ok E" and "buf_ok s" and "channel_ok (pit 2)"
  shows "\<exists>s' w'. pcspk_callback E free pit s w = Some (s', w') \<and> buf_ok s'"
proof -
  let ?n0 = "of_int (count (pit 2)) :: u32"
  have c: "1 \<le> count (pit 2)" "count (pit 2) \<le> 0x10000" using assms(3) by (auto simp: channel_ok_def)
  have u: "unat ?n0 \<le> 0x10000" using c by (simp add: unat_eq_nat_uint unsigned_of_int take_bit_int_eq_self)
  have g: "\<exists>s1. generate_samples (s\<lparr>pit_count := n, play_pos := 0\<rparr>) = Some s1 \<and> buf_ok s1" if "unat n \<le> 0x10000" for n
    using generate_samples_ok [of "s\<lparr>pit_count := n, play_pos := 0\<rparr>"] assms(2) that by (auto simp: buf_ok_def)
  define n where "n = (if ?n0 < PCSPK_MIN_COUNT then 0 else ?n0)"
  have "unat n \<le> 0x10000" using u by (simp add: n_def)
  then obtain s1 where s1: "(if pit_count s \<noteq> n then generate_samples (s\<lparr>pit_count := n, play_pos := 0\<rparr>) else Some s) = Some s1" "buf_ok s1"
    using g assms(2) by (cases "pit_count s = n") auto
  then show ?thesis using play_loop_ok [OF assms(1) s1(2), of free w] assms(2)
    unfolding pcspk_callback_def pit_get_initial_count_def n_def [symmetric] Let_def by auto
qed

lemma spk_write_ok:
  assumes "pit_inv (Some (pit, w))" and "buf_ok s"
  shows "spk_inv (pcspk_ioport_write E irq now v pit s w)"
proof -
  have "pit_inv (pit_set_gate irq now 2 (ucast (v AND 1)) pit w)"
    using pit_step_inv [OF assms(1), of "PGate now 2 (ucast (v AND 1))" irq] by simp
  then obtain pit1 w1 where "pit_set_gate irq now 2 (ucast (v AND 1)) pit w = Some (pit1, w1)" "\<forall>k<3. channel_ok (pit1 k)"
    by (auto simp: pit_inv_def split: option.splits)
  then show ?thesis using assms(2)
    by (auto simp: pcspk_ioport_write_def spk_inv_def pit_inv_def buf_ok_def Let_def word_neq_0_conv)
qed

lemma spk_step_inv:
  assumes "aud_ok E \<and> spk_inv r" and "spk_op_ok p"
  shows "aud_ok E \<and> spk_inv (spk_step E irq r p)"
proof -
  obtain pit s w where r: "r = Some (pit, s, w)" and i: "pit_inv (Some (pit, w))" "buf_ok s"
    using assms(1) by (auto simp: spk_inv_def split: option.splits)
  have c: "channel_ok (pit 2)" using i(1) by (simp add: pit_inv_def)
  have "spk_inv (spk_step E irq r p)"
  proof (cases p)
    case (Pit q)
    then have "pit_inv (pit_step irq (Some (pit, w)) q)" using assms(2) i(1) by (intro pit_step_inv) (simp_all add: spk_op_ok_def)
    then show ?thesis using Pit i(2) by (auto simp: r spk_inv_def pit_inv_def split: option.splits)
  next
    case (SpkRead now)
    obtain out where "pit_get_out1 (pit 2) now = Some out" using channel_ok_total [OF c] by blast
    then show ?thesis using SpkRead i by (simp add: r pcspk_ioport_read_def pit_get_out_def spk_inv_def buf_ok_def Let_def)
  next
    case (SpkWrite now v)
    then show ?thesis using spk_write_ok [OF i] by (simp add: r)
  next
    case (SpkCallback n)
    then show ?thesis using callback_ok [of E s pit n w] assms(1) c i by (auto simp: r spk_inv_def pit_inv_def)
  qed
  then show ?thesis using assms(1) by simp
qed

interpretation spkd: device "spk_step E irq" spk_op_ok "\<lambda>r. aud_ok E \<and> spk_inv r" for E irq
  by unfold_locales (rule spk_step_inv)

text \<open>
  C39.  The speaker stays inside its buffer.  Whatever the guest programs into the interval timer and
  the speaker port, and whenever and for however much the audio backend asks, no operation writes or
  reads outside the sample buffer, divides by zero or fails to return; the length of the loop of
  samples never exceeds the buffer and the position stays inside the loop.
\<close>

theorem pcspk_stays_in_buffer:
  assumes "aud_ok E" and "list_all spk_op_ok ops" and "pit_reset irq now pit_initfn w = Some (pit, w1)"
  shows "\<exists>pit' s w'. run (spk_step E irq) (Some (pit, snd (pcspk_audio_init opened pcspk_zero), w1)) ops = Some (pit', s, w') \<and>
    length (sample_buf s) = 1792 \<and> samples s \<le> 1792 \<and> (if samples s = 0 then play_pos s = 0 else play_pos s < samples s)"
proof -
  have "pit_inv (pit_reset irq now pit_initfn w)"
    unfolding pit_reset_def by (rule reset_loop_ok) (auto simp: numeral_eq_Suc less_Suc_eq)
  then have "spk_inv (Some (pit, snd (pcspk_audio_init opened pcspk_zero), w1))"
    using assms(3) by (simp add: spk_inv_def buf_ok_def pcspk_audio_init_def pcspk_zero_def pit_inv_def)
  with assms(1) have "aud_ok E \<and> spk_inv (Some (pit, snd (pcspk_audio_init opened pcspk_zero), w1))" by blast
  from spkd.run_inv [OF this assms(2), of irq]
  have "spk_inv (run (spk_step E irq) (Some (pit, snd (pcspk_audio_init opened pcspk_zero), w1)) ops)" by blast
  then obtain pit' s w' where "run (spk_step E irq) (Some (pit, snd (pcspk_audio_init opened pcspk_zero), w1)) ops = Some (pit', s, w')"
    "buf_ok s"
    by (auto simp: spk_inv_def split: option.splits)
  then show ?thesis unfolding buf_ok_def by blast
qed

text \<open>A tone: counter 2 as a square wave of 1000 ticks, then a request of the backend for 4096 bytes.\<close>

theorem pcspk_stays_in_buffer_witness:
  "\<exists>pit pit' s w'. pit_reset None 5 pit_initfn () = Some (pit, ()) \<and>
     run (spk_step \<lparr>aud_write = \<lambda>bs w. (of_nat (min 100 (length bs)), w), aud_active = \<lambda>_ w. w\<rparr> None)
       (Some (pit, snd (pcspk_audio_init True pcspk_zero), ()))
       [Pit (PWrite 6 0x43 0xb6), Pit (PWrite 6 0x42 0xe8), Pit (PWrite 6 0x42 3), SpkWrite 7 3, SpkCallback 4096] =
       Some (pit', s, w') \<and> samples s \<le> 1792"
proof -
  let ?E = "\<lparr>aud_write = \<lambda>bs (w :: unit). (of_nat (min 100 (length bs)) :: u32, w), aud_active = \<lambda>_ w. w\<rparr>"
  obtain pit where p: "pit_reset None 5 pit_initfn () = Some (pit, ())"
    using reset_loop_ok [of "[0, 1, 2]" pit_initfn None 5 "()"]
    by (auto simp: pit_reset_def pit_inv_def numeral_eq_Suc less_Suc_eq split: option.splits)
  have "aud_ok ?E" by (simp add: aud_ok_def unat_of_nat_small min_def)
  then show ?thesis
    using pcspk_stays_in_buffer [of ?E "[Pit (PWrite 6 0x43 0xb6), Pit (PWrite 6 0x42 0xe8), Pit (PWrite 6 0x42 3), SpkWrite 7 3,
      SpkCallback 4096]" None 5 "()" pit "()" True] p by (fastforce simp: spk_op_ok_def)
qed

lemma set_gate_gate: "set_gate irq now val s w = Some (s', w') \<Longrightarrow> gate s' = val"
  by (auto simp: set_gate_def split: if_splits Option.bind_splits)

text \<open>
  The speaker port: the gate and the speaker bit read back as written, bit 4 changes with every read,
  and bit 5 is the output of the counter.
\<close>

theorem pcspk_port_reads_back:
  assumes "pcspk_ioport_write E irq now v pit s w = Some (pit1, s1, w1)" and "pcspk_ioport_read later pit1 s1 = Some (x, s2)"
    and "dummy_refresh_clock s = (if r then 0x10 else 0)"
  shows "bit x 0 = bit v 0" "bit x 1 = bit v 1" "bit x 4 = (\<not> r)" "pit_get_out pit1 2 later = Some (bit x 5)"
proof -
  obtain w0 where g: "pit_set_gate irq now 2 (ucast (v AND 1)) pit w = Some (pit1, w0)"
    and s1: "data_on s1 = drop_bit 1 v AND 1" "dummy_refresh_clock s1 = dummy_refresh_clock s"
    using assms(1) by (auto simp: pcspk_ioport_write_def Let_def split: if_splits Option.bind_splits)
  have gate: "gate (pit1 2) = ucast (v AND 1)"
    using g set_gate_gate by (auto simp: pit_set_gate_def on_channel_def split: option.splits)
  obtain out where o: "pit_get_out pit1 2 later = Some out"
    using assms(2) by (auto simp: pcspk_ioport_read_def Let_def split: option.splits)
  have x: "x = ucast (ucast (v AND 1) :: u8) OR push_bit 1 (drop_bit 1 v AND 1) OR ((if r then 0x10 else 0) XOR 0x10) OR push_bit 5 (of_bool out)"
    using assms(2) unfolding pcspk_ioport_read_def pit_get_gate_def Let_def o gate by (auto simp: s1 assms(3))
  define y where "y = push_bit 1 (drop_bit 1 v AND 1)"
  have y: "bit y n \<longleftrightarrow> n = 1 \<and> bit v 1" for n
    unfolding y_def bit_push_bit_iff bit_and_iff bit_drop_bit_eq comp_def by (auto simp: bit_1_iff)
  show "bit x 0 = bit v 0" "bit x 1 = bit v 1" "bit x 4 = (\<not> r)" "pit_get_out pit1 2 later = Some (bit x 5)"
    unfolding x o y_def [symmetric] by (auto simp: bit_simps bit_numeral_rec y)
qed

end
