(* ===== verification/Spec2Isabelle.thy ===== *)
theory Spec2Isabelle
  imports En29lv640 I8259 Ioport Exec_Mem R6040 Lcd Net_Queue Serial I8254 Mc146818rtc Dma Pckbd Tftp Fw_Cfg Pcspk
begin

text \<open>
  A verification development for the Bifferboard emulator.
\<close>

section \<open>The serial port behind the interrupt controllers\<close>

text \<open>A port wired to line 4 of the controllers, with a character device that takes and gives nothing.\<close>

definition com1_env :: "('w PicState2 \<times> 'w) serial_env" where
  "com1_env = \<lparr>sirq = i8259_pin 4, chr_write = \<lambda>c w. (1, w), chr_set_params = \<lambda>_ w. w,
     chr_get_tiocm = \<lambda>w. (- ENOTSUP, 0, w), chr_set_tiocm = \<lambda>_ w. w, chr_set_break = \<lambda>_ w. w,
     chr_accept_input = \<lambda>x. x\<rparr>"

lemma serial_receive_rbr:
  assumes "fcr s AND UART_FCR_FE = 0" and "ier s AND UART_IER_RDI \<noteq> 0"
  shows "rbr (fst (serial_receive1 E now [b] s w)) = b" "fcr (fst (serial_receive1 E now [b] s w)) = fcr s"
    "lcr (fst (serial_receive1 E now [b] s w)) = lcr s"
    "snd (serial_receive1 E now [b] s w) = qemu_irq_raise (sirq E) w"
proof -
  define s1 where "s1 = (let s' = (if lsr s AND UART_LSR_DR \<noteq> 0 then s\<lparr>lsr := lsr s OR UART_LSR_OE\<rparr> else s)
    in s'\<lparr>rbr := b, lsr := lsr s' OR UART_LSR_DR\<rparr>)"
  have r: "serial_receive1 E now [b] s w = serial_update_irq E s1 w"
    using assms(1) by (simp add: serial_receive1_def s1_def Let_def)
  have f: "rbr s1 = b" "fcr s1 = fcr s" "lcr s1 = lcr s" "ier s1 = ier s" "lsr s1 AND UART_LSR_DR \<noteq> 0"
    by (simp_all add: s1_def Let_def masks bit_simps)
  show "rbr (fst (serial_receive1 E now [b] s w)) = b" "fcr (fst (serial_receive1 E now [b] s w)) = fcr s"
    "lcr (fst (serial_receive1 E now [b] s w)) = lcr s" using f by (simp_all add: r serial_update_irq_fst)
  have "serial_iir s1 \<noteq> UART_IIR_NO_INT" using assms f by (simp add: serial_iir_def)
  then show "snd (serial_receive1 E now [b] s w) = qemu_irq_raise (sirq E) w"
    by (simp add: r serial_update_irq_def Let_def)
qed

text \<open>
  C40.  From the serial line to the guest: with the receive interrupt enabled on a port wired to the
  unmasked line \<open>n\<close> of quiet controllers, a received byte raises the CPU's pin, the acknowledge
  returns the vector of line \<open>n\<close>, and reading the receive register returns the byte.
\<close>

theorem serial_byte_reaches_guest:
  assumes "run pic_step (Some (i8259_init parent, w0)) ops = Some (ps, w)"
    and "pic_quiet (pics ps 0)" and "pic_quiet (pics ps 1)" and "i8259_line n" and "irq_enabled ps n"
    and "sirq E = i8259_pin n" and "fcr s AND UART_FCR_FE = 0" and "ier s AND UART_IER_RDI \<noteq> 0"
    and "lcr s AND UART_LCR_DLAB = 0"
    and "serial_receive1 E now [b] s (ps, w) = (s1, ps1, w1)"
  shows "w1 = qemu_irq_raise (parent_irq ps) w \<and>
     fst (pic_read_irq ps1 w1) = uint (irq_base (pics ps (n div 8))) + int (n mod 8) \<and>
     fst (serial_ioport_read E now' 0 s1 w') = ucast b"
proof -
  note r = serial_receive_rbr [OF assms(7,8), of E now b "(ps, w)", unfolded assms(10) fst_conv snd_conv]
  have "(ps1, w1) = i8259_set_irq ps n 1 w"
    using r(4) assms(4,6) by (simp add: qemu_irq_raise_def set_i8259_pin)
  then have "ps1 = fst (i8259_set_irq ps n 1 w)" "w1 = snd (i8259_set_irq ps n 1 w)" by (metis fst_conv snd_conv)+
  moreover have "fst (serial_ioport_read E now' 0 s1 w') = ucast b"
    using r(1-3) assms(7,9) by (simp add: serial_ioport_read_def serial_read_rbr_def Let_def case_prod_beta)
  ultimately show ?thesis using i8259_raise_delivers [OF assms(1-3), of n w1] assms(4,5) by simp
qed

theorem serial_byte_reaches_guest_witness:
  "let parent = Some \<lparr>handler = \<lambda>n l w. l, line_no = 0\<rparr>;
       (s1, ps1, w1) = serial_receive1 com1_env 5 [0x41] (serial_new\<lparr>ier := 1\<rparr>) (i8259_init parent, 0)
   in w1 = 1 \<and> fst (pic_read_irq ps1 w1) = 4 \<and> fst (serial_ioport_read com1_env 6 0 s1 (ps1, w1)) = 0x41"
proof -
  let ?p = "Some \<lparr>handler = \<lambda>n l w. l, line_no = 0\<rparr> :: int qemu_irq"
  have r: "run pic_step (Some (i8259_init ?p, 0)) [] = Some (i8259_init ?p, 0)" by simp
  obtain s1 ps1 w1 where
    s: "serial_receive1 com1_env 5 [0x41] (serial_new\<lparr>ier := 1\<rparr>) (i8259_init ?p, 0) = (s1, ps1, w1)"
    by (metis prod_cases3)
  have "w1 = qemu_irq_raise (parent_irq (i8259_init ?p)) 0 \<and>
     fst (pic_read_irq ps1 w1) = uint (irq_base (pics (i8259_init ?p) (4 div 8))) + int (4 mod 8) \<and>
     fst (serial_ioport_read com1_env 6 0 s1 (ps1, w1)) = ucast (0x41 :: u8)"
    by (rule serial_byte_reaches_guest [OF r _ _ _ _ _ _ _ _ s])
      (simp_all add: pic_quiet_def irq_enabled_def i8259_init_def pic_zero_def com1_env_def serial_new_def)
  then have "w1 = 1 \<and> fst (pic_read_irq ps1 w1) = 4 \<and> fst (serial_ioport_read com1_env 6 0 s1 (ps1, w1)) = 0x41"
    by (auto simp: i8259_init_def pic_zero_def qemu_irq_raise_def qemu_set_irq_def)
  then show ?thesis unfolding Let_def s prod.case .
qed

end
